(* ===== verification/Dune_Prelude.thy ===== *)
theory Dune_Prelude
  imports Main "HOL-Library.Word" "HOL-Library.Monad_Syntax" "HOL-Library.Multiset"
begin

text \<open>
  What every component shares: the names of the machine types, the C idioms (testing a flag,
  aligning an address, \<open>assert\<close>), the word facts that the page-table and address-map
  proofs rest on, the byte-addressed cells of memory, and the two generic interfaces of the
  development (an invariant of a transition system, a pair of mutually inverse translations).

  A function of the library that can call \<open>assert\<close> or dereference a null pointer has
  type \<open>state \<Rightarrow> ('r \<times> state) option\<close>; the value \<^const>\<open>None\<close> is the
  call of \<open>dune_die\<close> (or undefined behaviour, where a comment says so). Error codes are
  ordinary results, negative \<^typ>\<open>int\<close>s as in the source.
\<close>

unbundle bit_operations_syntax

section \<open>Machine types and C idioms\<close>

type_synonym u8 = "8 word"
type_synonym u16 = "16 word"
type_synonym u32 = "32 word"
type_synonym u64 = "64 word"
type_synonym memory = "u64 \<Rightarrow> u64"

named_theorems consts_def \<open>constants and macros of the headers\<close>
named_theorems flag_bit \<open>a flag test as the test of one bit\<close>

definition tst :: "'a::len word \<Rightarrow> 'a word \<Rightarrow> bool" where
  "tst w m \<longleftrightarrow> w AND m \<noteq> 0"

definition ensure :: "bool \<Rightarrow> unit option" where
  "ensure b = (if b then Some () else None)"

lemma ensure_bind [simp]: "Option.bind (ensure b) f = (if b then f () else None)"
  by (simp add: ensure_def)

lemma bind_Some_iff:
  "Option.bind m f = Some r \<longleftrightarrow> (\<exists>x. m = Some x \<and> f x = Some r)"
  by (cases m) auto

section \<open>Errno values\<close>

definition ENOENT :: int where [consts_def]: "ENOENT = 2"
definition EAGAIN :: int where [consts_def]: "EAGAIN = 11"
definition ENOMEM :: int where [consts_def]: "ENOMEM = 12"
definition EACCES :: int where [consts_def]: "EACCES = 13"
definition EFAULT :: int where [consts_def]: "EFAULT = 14"
definition EEXIST :: int where [consts_def]: "EEXIST = 17"
definition EINVAL :: int where [consts_def]: "EINVAL = 22"
definition ENOSYS :: int where [consts_def]: "ENOSYS = 38"

section \<open>Bits of words\<close>

lemma tst_exp: "tst w (2 ^ n) \<longleftrightarrow> bit w n" for w :: "'a::len word"
  using and_exp_eq_0_iff_not_bit [of w n] by (auto simp: tst_def)

lemma tst_0 [simp]: "\<not> tst 0 m" "\<not> tst w 0"
  by (simp_all add: tst_def)

lemma and_or_not: "(x AND m) OR (x AND NOT m) = x" for x :: "'a::len word"
  by (metis bit.conj_disj_distrib bit.disj_cancel_right and.right_neutral)

lemma split_by_masks:
  fixes x m m' :: "'a::len word"
  assumes "m' = NOT m"
  shows "(x AND m) OR (x AND m') = x"
  using assms by (simp add: and_or_not)

lemma word_eq_unat: "a = b \<longleftrightarrow> unat a = unat b" for a b :: "'a::len word"
  by (rule word_eq_iff_unsigned)

lemma unat_less_exp: "unat w < 2 ^ LENGTH('a)" for w :: "'a::len word"
  by (rule unsigned_less)

lemma unat_shiftr: "unat (drop_bit n w) = unat w div 2 ^ n" for w :: "'a::len word"
  by (metis drop_bit_eq_div unat_drop_bit_eq)

lemma unat_and_mask: "unat (w AND mask n) = unat w mod 2 ^ n" for w :: "'a::len word"
  by (metis take_bit_eq_mask take_bit_eq_mod unsigned_take_bit_eq)

lemma unat_of_nat_small: "n < 2 ^ LENGTH('a) \<Longrightarrow> unat (of_nat n :: 'a::len word) = n"
  by (simp add: unat_of_nat take_bit_nat_eq_self)

lemma sint_small: "unat v < 2 ^ (LENGTH('a) - 1) \<Longrightarrow> sint v = int (unat v)" for v :: "'a::len word"
proof -
  assume "unat v < 2 ^ (LENGTH('a) - 1)"
  then have "int (unat v) < int (2 ^ (LENGTH('a) - 1))"
    by (simp only: of_nat_less_iff)
  then have a: "uint v < 2 ^ (LENGTH('a) - Suc 0)"
    by simp
  have b: "- (2 ^ (LENGTH('a) - Suc 0)) \<le> uint v"
    by (rule order_trans [OF _ uint_ge_0]) simp
  have "sint v = uint v"
    unfolding sint_uint by (rule signed_take_bit_int_eq_self [OF b a])
  then show ?thesis by simp
qed

lemma unat_and_not_mask: "unat (w AND NOT (mask k)) = unat w div 2 ^ k * 2 ^ k" for w :: "'a::len word"
proof -
  have "(w AND mask k) + (w AND NOT (mask k)) = (w AND mask k) OR (w AND NOT (mask k))"
    by (rule disjunctive_add_eq_or, rule bit_word_eqI) (auto simp: bit_simps)
  then have "(w AND mask k) + (w AND NOT (mask k)) = w"
    by (simp only: and_or_not)
  then have "w AND NOT (mask k) = w - (w AND mask k)"
    by (metis add_diff_cancel_left')
  moreover have "w AND mask k \<le> w"
    by (simp add: word_le_nat_alt unat_and_mask)
  ultimately show ?thesis
    by (simp add: unat_sub unat_and_mask minus_mod_eq_div_mult)
qed

lemma mod_div_mod: "x mod (a * b * c) div a mod b = x div a mod b" for x a b c :: nat
proof (cases "a = 0")
  case False
  have "x mod (a * b * c) div a = x div a mod (b * c)"
    using False by (simp add: mult.assoc mod_mult2_eq)
  then show ?thesis by (simp add: mod_mod_cancel)
qed simp

section \<open>Pages and cells\<close>

text \<open>
  Memory is addressed by byte and holds one 8-byte cell at every multiple of 8, which is the unit
  in which page tables are read and written. \<open>ent d i\<close> is the address of \<open>d[i]\<close>
  for a pointer \<open>d\<close> to 8-byte entries; \<open>PGADDR\<close> is the macro of mmu-x86.h.
\<close>

definition PGADDR :: "u64 \<Rightarrow> u64" where
  "PGADDR la = la AND NOT 0xfff"

definition PGOFF :: "u64 \<Rightarrow> u64" where
  "PGOFF la = la AND 0xfff"

definition pg_aligned :: "u64 \<Rightarrow> bool" where
  "pg_aligned a \<longleftrightarrow> PGADDR a = a"

definition ent :: "u64 \<Rightarrow> nat \<Rightarrow> u64" where
  "ent d i = d + 8 * of_nat i"

definition memset_page :: "u64 \<Rightarrow> u64 \<Rightarrow> memory \<Rightarrow> memory" where
  "memset_page d v m = (\<lambda>a. if PGADDR a = d then v else m a)"

definition memcpy_page :: "u64 \<Rightarrow> (u64 \<Rightarrow> u64) \<Rightarrow> memory \<Rightarrow> memory" where
  "memcpy_page d src m = (\<lambda>a. if PGADDR a = d then src (PGOFF a) else m a)"

lemma PGADDR_mask: "PGADDR a = a AND NOT (mask 12)"
  by (simp add: PGADDR_def mask_eq_exp_minus_1)

lemma PGOFF_mask: "PGOFF a = a AND mask 12"
  by (simp add: PGOFF_def mask_eq_exp_minus_1)

lemma PGADDR_PGOFF: "PGADDR a OR PGOFF a = a"
  by (metis PGADDR_mask PGOFF_mask and_or_not or.commute)

lemma unat_PGOFF: "unat (PGOFF a) = unat a mod 4096"
  unfolding PGOFF_mask by (simp add: unat_and_mask)

lemma PGADDR_plus_PGOFF: "PGADDR a + PGOFF a = a"
proof -
  have "PGADDR a AND PGOFF a = 0"
    by (rule bit_word_eqI) (auto simp: PGADDR_mask PGOFF_mask bit_simps)
  then show ?thesis
    using PGADDR_PGOFF by (simp add: disjunctive_add_eq_or)
qed

lemma unat_PGADDR: "unat (PGADDR a) = unat a - unat a mod 4096"
proof -
  have "PGADDR a = a - PGOFF a"
    using PGADDR_plus_PGOFF [of a] by (simp add: eq_diff_eq)
  moreover have "PGOFF a \<le> a"
    by (simp add: word_le_nat_alt unat_PGOFF)
  ultimately show ?thesis
    by (simp add: unat_sub unat_PGOFF)
qed

lemma PGADDR_idem [simp]: "PGADDR (PGADDR a) = PGADDR a"
  by (simp add: PGADDR_def and.assoc)

lemma pg_aligned_PGADDR [simp]: "pg_aligned (PGADDR a)"
  by (simp add: pg_aligned_def)

lemma pg_aligned_iff: "pg_aligned a \<longleftrightarrow> 4096 dvd unat a"
proof -
  have "pg_aligned a \<longleftrightarrow> unat (PGADDR a) = unat a"
    unfolding pg_aligned_def by (rule word_eq_unat)
  also have "\<dots> \<longleftrightarrow> unat a mod 4096 = 0"
    using mod_less_eq_dividend [of "unat a" 4096] by (simp add: unat_PGADDR) arith
  finally show ?thesis by (simp add: dvd_eq_mod_eq_0)
qed

lemma pg_aligned_max: "pg_aligned d \<Longrightarrow> unat d \<le> 2 ^ 64 - 4096"
  using unat_less_exp [of d] by (auto simp: pg_aligned_iff elim!: dvdE)

lemma unat_ent:
  assumes "pg_aligned d" "i < 512"
  shows "unat (ent d i) = unat d + 8 * i"
proof -
  have "unat d + 8 * i < 2 ^ 64"
    using pg_aligned_max [OF assms(1)] assms(2) by simp
  then show ?thesis
    using assms(2) unfolding ent_def by (simp add: unat_word_ariths unat_of_nat)
qed

lemma PGADDR_ent [simp]:
  assumes "pg_aligned d" "i < 512"
  shows "PGADDR (ent d i) = d"
proof -
  from assms(1) obtain k where "unat d = 4096 * k" by (auto simp: pg_aligned_iff)
  then have "unat (PGADDR (ent d i)) = unat d"
    using assms by (simp add: unat_PGADDR unat_ent)
  then show ?thesis by (simp only: word_eq_unat)
qed

lemma PGOFF_ent:
  assumes "pg_aligned d" "i < 512"
  shows "PGOFF (ent d i) = 8 * of_nat i"
proof -
  have "PGADDR (ent d i) + PGOFF (ent d i) = d + PGOFF (ent d i)"
    using assms by simp
  then show ?thesis by (simp only: PGADDR_plus_PGOFF) (simp add: ent_def)
qed

lemma ent_inject [simp]:
  assumes "pg_aligned d" "i < 512" "pg_aligned d'" "j < 512"
  shows "ent d i = ent d' j \<longleftrightarrow> d = d' \<and> i = j"
proof
  assume eq: "ent d i = ent d' j"
  then have "d = d'" using assms PGADDR_ent by metis
  moreover have "unat (ent d i) = unat (ent d' j)" using eq by simp
  ultimately show "d = d' \<and> i = j" using assms by (simp add: unat_ent)
qed simp

lemma ent_other_page:
  assumes "pg_aligned d" "i < 512" "PGADDR a \<noteq> d"
  shows "a \<noteq> ent d i"
  using assms by auto

lemma memset_page_in [simp]: "pg_aligned d \<Longrightarrow> i < 512 \<Longrightarrow> memset_page d v m (ent d i) = v"
  by (simp add: memset_page_def)

lemma memset_page_out [simp]: "PGADDR a \<noteq> d \<Longrightarrow> memset_page d v m a = m a"
  by (simp add: memset_page_def)

lemma memcpy_page_in [simp]:
  "pg_aligned d \<Longrightarrow> i < 512 \<Longrightarrow> memcpy_page d src m (ent d i) = src (8 * of_nat i)"
  by (simp add: memcpy_page_def PGOFF_ent)

lemma memcpy_page_out [simp]: "PGADDR a \<noteq> d \<Longrightarrow> memcpy_page d src m a = m a"
  by (simp add: memcpy_page_def)

end
