(* ===== verification/Mmu.thy ===== *)
theory Mmu
  imports Dune_Prelude
begin

text \<open>
  The page-table entry format and the permission encodings: the macros of
  \<open>libdune/mmu-x86.h\<close>, the \<open>PERM_*\<close> flags of \<open>libdune/dune.h\<close> and the
  conversions \<open>get_pte_perm\<close> and \<open>pteflags_to_perm\<close> of \<open>libdune/vm.c\<close>.
  An \<open>int perm\<close> argument is a 32-bit word, a \<open>ptent_t\<close> a 64-bit word.
\<close>

unbundle bit_operations_syntax

section \<open>Entry flags\<close>

definition PTE_P :: u64 where [consts_def]: "PTE_P = 0x0001"
definition PTE_W :: u64 where [consts_def]: "PTE_W = 0x0002"
definition PTE_U :: u64 where [consts_def]: "PTE_U = 0x0004"
definition PTE_PCD :: u64 where [consts_def]: "PTE_PCD = 0x0010"
definition PTE_A :: u64 where [consts_def]: "PTE_A = 0x0020"
definition PTE_D :: u64 where [consts_def]: "PTE_D = 0x0040"
definition PTE_PS :: u64 where [consts_def]: "PTE_PS = 0x0080"
definition PTE_NX :: u64 where [consts_def]: "PTE_NX = 0x8000000000000000"
definition PTE_COW :: u64 where [consts_def]: "PTE_COW = 0x0200"
definition PTE_STACK :: u64 where [consts_def]: "PTE_STACK = 0x0400"
definition PTE_LOCK :: u64 where [consts_def]: "PTE_LOCK = 0x800"
definition PTE_USR1 :: u64 where [consts_def]: "PTE_USR1 = 0x4000000000000000"
definition PTE_USR2 :: u64 where [consts_def]: "PTE_USR2 = 0x2000000000000000"
definition PTE_USR3 :: u64 where [consts_def]: "PTE_USR3 = 0x1000000000000000"
definition PTE_NOCOW :: u64 where [consts_def]: "PTE_NOCOW = PTE_USR3"
definition PTE_DEF_FLAGS :: u64 where [consts_def]: "PTE_DEF_FLAGS = PTE_P OR PTE_W OR PTE_U"

definition PTE_ADDR :: "u64 \<Rightarrow> u64" where
  "PTE_ADDR pte = pte AND 0xffffffffff000"

definition PTE_FLAGS :: "u64 \<Rightarrow> u64" where
  "PTE_FLAGS pte = pte AND 0xfff0000000000fff"

section \<open>Indices of a virtual address\<close>

definition NPTENTRIES :: nat where [consts_def]: "NPTENTRIES = 512"
definition NPTLVLS :: nat where [consts_def]: "NPTLVLS = 3"
definition PGSIZE :: u64 where [consts_def]: "PGSIZE = 4096"

definition PDSHIFT :: "nat \<Rightarrow> nat" where
  "PDSHIFT n = 12 + 9 * n"

definition PDX :: "nat \<Rightarrow> u64 \<Rightarrow> nat" where
  "PDX n la = unat (drop_bit (PDSHIFT n) la AND 0x1ff)"

definition PDADDR :: "nat \<Rightarrow> nat \<Rightarrow> u64" where
  "PDADDR n i = push_bit (PDSHIFT n) (of_nat i)"

section \<open>Permission flags, fault codes and creation modes\<close>

definition PERM_NONE :: u32 where [consts_def]: "PERM_NONE = 0"
definition PERM_R :: u32 where [consts_def]: "PERM_R = 0x0001"
definition PERM_W :: u32 where [consts_def]: "PERM_W = 0x0002"
definition PERM_X :: u32 where [consts_def]: "PERM_X = 0x0004"
definition PERM_U :: u32 where [consts_def]: "PERM_U = 0x0008"
definition PERM_UC :: u32 where [consts_def]: "PERM_UC = 0x0010"
definition PERM_COW :: u32 where [consts_def]: "PERM_COW = 0x0020"
definition PERM_USR1 :: u32 where [consts_def]: "PERM_USR1 = 0x1000"
definition PERM_USR2 :: u32 where [consts_def]: "PERM_USR2 = 0x2000"
definition PERM_USR3 :: u32 where [consts_def]: "PERM_USR3 = 0x4000"
definition PERM_USR4 :: u32 where [consts_def]: "PERM_USR4 = 0x8000"
definition PERM_BIG :: u32 where [consts_def]: "PERM_BIG = 0x0100"
definition PERM_BIG_1GB :: u32 where [consts_def]: "PERM_BIG_1GB = 0x0200"

definition FEC_P :: u64 where [consts_def]: "FEC_P = 0x1"
definition FEC_W :: u64 where [consts_def]: "FEC_W = 0x2"
definition FEC_RSV :: u64 where [consts_def]: "FEC_RSV = 0x8"

definition CREATE_NONE :: int where [consts_def]: "CREATE_NONE = 0"
definition CREATE_NORMAL :: int where [consts_def]: "CREATE_NORMAL = 1"
definition CREATE_BIG :: int where [consts_def]: "CREATE_BIG = 2"
definition CREATE_BIG_1GB :: int where [consts_def]: "CREATE_BIG_1GB = 3"

section \<open>The helpers of vm.c on one entry\<close>

definition pte_present :: "u64 \<Rightarrow> bool" where
  "pte_present pte = tst (PTE_FLAGS pte) PTE_P"

definition pte_big :: "u64 \<Rightarrow> bool" where
  "pte_big pte = tst (PTE_FLAGS pte) PTE_PS"

definition get_pte_perm :: "u32 \<Rightarrow> u64" where
  "get_pte_perm perm = (
     let pte_perm = 0;
         pte_perm = (if tst perm PERM_R then PTE_P else pte_perm);
         pte_perm = (if tst perm PERM_W then pte_perm OR PTE_W else pte_perm);
         pte_perm = (if \<not> tst perm PERM_X then pte_perm OR PTE_NX else pte_perm);
         pte_perm = (if tst perm PERM_U then pte_perm OR PTE_U else pte_perm);
         pte_perm = (if tst perm PERM_UC then pte_perm OR PTE_PCD else pte_perm);
         pte_perm = (if tst perm PERM_COW then pte_perm OR PTE_COW else pte_perm);
         pte_perm = (if tst perm PERM_USR1 then pte_perm OR PTE_USR1 else pte_perm);
         pte_perm = (if tst perm PERM_USR2 then pte_perm OR PTE_USR2 else pte_perm);
         pte_perm = (if tst perm PERM_USR3 then pte_perm OR PTE_USR3 else pte_perm);
         pte_perm = (if tst perm PERM_USR4 then pte_perm OR PTE_STACK else pte_perm);
         pte_perm = (if tst perm PERM_BIG \<or> tst perm PERM_BIG_1GB
                     then pte_perm OR PTE_PS else pte_perm)
     in pte_perm)"

definition pteflags_to_perm :: "u64 \<Rightarrow> int \<Rightarrow> u32" where
  "pteflags_to_perm pte_flags level = (
     let perm = 0;
         perm = (if tst pte_flags PTE_P then perm OR PERM_R else perm);
         perm = (if tst pte_flags PTE_W then perm OR PERM_W else perm);
         perm = (if \<not> tst pte_flags PTE_NX then perm OR PERM_X else perm);
         perm = (if tst pte_flags PTE_U then perm OR PERM_U else perm);
         perm = (if tst pte_flags PTE_PCD then perm OR PERM_UC else perm);
         perm = (if tst pte_flags PTE_COW then perm OR PERM_COW else perm);
         perm = (if tst pte_flags PTE_USR1 then perm OR PERM_USR1 else perm);
         perm = (if tst pte_flags PTE_USR2 then perm OR PERM_USR2 else perm);
         perm = (if tst pte_flags PTE_USR3 then perm OR PERM_USR3 else perm);
         perm = (if tst pte_flags PTE_STACK then perm OR PERM_USR4 else perm);
         perm = (if tst pte_flags PTE_PS \<and> level = 1 then perm OR PERM_BIG else perm);
         perm = (if tst pte_flags PTE_PS \<and> level = 2 then perm OR PERM_BIG_1GB else perm)
     in perm)"

text \<open>The \<open>assert(false)\<close> of \<open>pgsize\<close> is \<^const>\<open>None\<close>.\<close>

definition pgsize :: "nat \<Rightarrow> u64 option" where
  "pgsize level = (if level = 0 then Some PGSIZE
     else if level = 1 then Some (PGSIZE * 512)
     else if level = 2 then Some (PGSIZE * 512 * 512)
     else None)"

text \<open>
  The \<open>PERM_*\<close> flags that an entry can record, whatever its level, and the entry flags
  that a permission word can record.
\<close>

definition perm_recorded :: u32 where
  "perm_recorded = PERM_R OR PERM_W OR PERM_X OR PERM_U OR PERM_UC OR PERM_COW OR
     PERM_USR1 OR PERM_USR2 OR PERM_USR3 OR PERM_USR4"

definition pte_recorded :: u64 where
  "pte_recorded = PTE_P OR PTE_W OR PTE_NX OR PTE_U OR PTE_PCD OR PTE_COW OR
     PTE_USR1 OR PTE_USR2 OR PTE_USR3 OR PTE_STACK"

section \<open>Flags as bits\<close>

lemma pte_flag_exp:
  "PTE_P = 2 ^ 0" "PTE_W = 2 ^ 1" "PTE_U = 2 ^ 2" "PTE_PCD = 2 ^ 4" "PTE_A = 2 ^ 5"
  "PTE_PS = 2 ^ 7" "PTE_COW = 2 ^ 9" "PTE_STACK = 2 ^ 10" "PTE_LOCK = 2 ^ 11"
  "PTE_USR3 = 2 ^ 60" "PTE_USR2 = 2 ^ 61" "PTE_USR1 = 2 ^ 62" "PTE_NX = 2 ^ 63"
  by (simp_all add: consts_def)

lemma perm_flag_exp:
  "PERM_R = 2 ^ 0" "PERM_W = 2 ^ 1" "PERM_X = 2 ^ 2" "PERM_U = 2 ^ 3" "PERM_UC = 2 ^ 4"
  "PERM_COW = 2 ^ 5" "PERM_BIG = 2 ^ 8" "PERM_BIG_1GB = 2 ^ 9" "PERM_USR1 = 2 ^ 12"
  "PERM_USR2 = 2 ^ 13" "PERM_USR3 = 2 ^ 14" "PERM_USR4 = 2 ^ 15"
  by (simp_all add: consts_def)

lemma tst_pte [flag_bit]:
  "tst w PTE_P = bit w 0" "tst w PTE_W = bit w 1" "tst w PTE_U = bit w 2"
  "tst w PTE_PCD = bit w 4" "tst w PTE_A = bit w 5" "tst w PTE_PS = bit w 7"
  "tst w PTE_COW = bit w 9" "tst w PTE_STACK = bit w 10" "tst w PTE_LOCK = bit w 11"
  "tst w PTE_USR3 = bit w 60" "tst w PTE_USR2 = bit w 61" "tst w PTE_USR1 = bit w 62"
  "tst w PTE_NX = bit w 63"
  unfolding pte_flag_exp tst_exp by (rule refl)+

lemma tst_perm [flag_bit]:
  "tst w PERM_R = bit w 0" "tst w PERM_W = bit w 1" "tst w PERM_X = bit w 2"
  "tst w PERM_U = bit w 3" "tst w PERM_UC = bit w 4" "tst w PERM_COW = bit w 5"
  "tst w PERM_BIG = bit w 8" "tst w PERM_BIG_1GB = bit w 9" "tst w PERM_USR1 = bit w 12"
  "tst w PERM_USR2 = bit w 13" "tst w PERM_USR3 = bit w 14" "tst w PERM_USR4 = bit w 15"
  unfolding perm_flag_exp tst_exp by (rule refl)+

lemma bit_exp64: "bit (2 ^ m :: u64) n \<longleftrightarrow> n = m \<and> m < 64"
  by (auto simp: bit_simps)

lemma bit_exp32: "bit (2 ^ m :: u32) n \<longleftrightarrow> n = m \<and> m < 32"
  by (auto simp: bit_simps)

lemma bit_pte [flag_bit]:
  "bit PTE_P n = (n = 0)" "bit PTE_W n = (n = 1)" "bit PTE_U n = (n = 2)"
  "bit PTE_PCD n = (n = 4)" "bit PTE_A n = (n = 5)" "bit PTE_PS n = (n = 7)"
  "bit PTE_COW n = (n = 9)" "bit PTE_STACK n = (n = 10)" "bit PTE_LOCK n = (n = 11)"
  "bit PTE_USR3 n = (n = 60)" "bit PTE_USR2 n = (n = 61)" "bit PTE_USR1 n = (n = 62)"
  "bit PTE_NX n = (n = 63)"
  unfolding pte_flag_exp bit_exp64 by simp_all

lemma dirty_nocow_bit [flag_bit]:
  "tst w PTE_D = bit w 6" "bit PTE_D n = (n = 6)" "tst w PTE_NOCOW = bit w 60" "bit PTE_NOCOW n = (n = 60)"
proof -
  have d: "PTE_D = 2 ^ 6" by (simp add: consts_def)
  show "tst w PTE_D = bit w 6" unfolding d tst_exp by (rule refl)
  show "bit PTE_D n = (n = 6)" unfolding d bit_exp64 by simp
  show "tst w PTE_NOCOW = bit w 60" "bit PTE_NOCOW n = (n = 60)"
    unfolding PTE_NOCOW_def using tst_pte(10) bit_pte(10) by simp_all
qed

lemma bit_perm [flag_bit]:
  "bit PERM_R n = (n = 0)" "bit PERM_W n = (n = 1)" "bit PERM_X n = (n = 2)"
  "bit PERM_U n = (n = 3)" "bit PERM_UC n = (n = 4)" "bit PERM_COW n = (n = 5)"
  "bit PERM_BIG n = (n = 8)" "bit PERM_BIG_1GB n = (n = 9)" "bit PERM_USR1 n = (n = 12)"
  "bit PERM_USR2 n = (n = 13)" "bit PERM_USR3 n = (n = 14)" "bit PERM_USR4 n = (n = 15)"
  unfolding perm_flag_exp bit_exp32 by simp_all

lemma PTE_ADDR_bit: "bit (PTE_ADDR pte) n \<longleftrightarrow> bit pte n \<and> 12 \<le> n \<and> n < 52"
proof -
  have m: "(0xffffffffff000 :: u64) = push_bit 12 (mask 40)"
    by (simp add: mask_eq_exp_minus_1 push_bit_eq_mult)
  show ?thesis
    unfolding PTE_ADDR_def m by (auto simp: bit_simps)
qed

lemma PTE_FLAGS_bit: "bit (PTE_FLAGS pte) n \<longleftrightarrow> bit pte n \<and> (n < 12 \<or> 52 \<le> n)"
proof -
  have "PTE_FLAGS pte = pte AND NOT (PTE_ADDR pte)"
  proof -
    have "(0xfff0000000000fff :: u64) = NOT 0xffffffffff000" by simp
    then show ?thesis
      unfolding PTE_ADDR_def PTE_FLAGS_def by (simp only: bit.de_Morgan_conj bit.conj_disj_distrib
          bit.conj_cancel_right or.left_neutral)
  qed
  then show ?thesis
    by (auto simp: bit_simps PTE_ADDR_bit not_less dest: bit_imp_le_length)
qed

lemmas pte_bits = flag_bit PTE_ADDR_bit PTE_FLAGS_bit bit_or_iff bit_and_iff bit_not_iff

lemma PTE_ADDR_OR_FLAGS: "PTE_ADDR pte OR PTE_FLAGS pte = pte"
  by (rule bit_word_eqI) (auto simp: pte_bits)

lemma pte_present_bit: "pte_present pte \<longleftrightarrow> bit pte 0"
  by (simp add: pte_present_def pte_bits)

lemma pte_big_bit: "pte_big pte \<longleftrightarrow> bit pte 7"
  by (simp add: pte_big_def pte_bits)

section \<open>Permissions\<close>

lemma or_if: "(if c then x OR m else x) = x OR (if c then m else 0)" for x :: "'a::len word"
  by simp

lemma bit_if0: "bit (if c then m else 0) n \<longleftrightarrow> c \<and> bit m n" for m :: "'a::len word"
  by simp

lemma get_pte_perm_bit:
  "bit (get_pte_perm perm) n \<longleftrightarrow>
     n = 0 \<and> bit perm 0 \<or> n = 1 \<and> bit perm 1 \<or> n = 63 \<and> \<not> bit perm 2 \<or>
     n = 2 \<and> bit perm 3 \<or> n = 4 \<and> bit perm 4 \<or> n = 9 \<and> bit perm 5 \<or>
     n = 62 \<and> bit perm 12 \<or> n = 61 \<and> bit perm 13 \<or> n = 60 \<and> bit perm 14 \<or>
     n = 10 \<and> bit perm 15 \<or> n = 7 \<and> (bit perm 8 \<or> bit perm 9)"
  unfolding get_pte_perm_def Let_def tst_perm or_if bit_or_iff bit_if0 bit_pte
  by (simp only: disj_assoc conj_ac)

lemma pteflags_to_perm_bit:
  "bit (pteflags_to_perm f l) n \<longleftrightarrow>
     n = 0 \<and> bit f 0 \<or> n = 1 \<and> bit f 1 \<or> n = 2 \<and> \<not> bit f 63 \<or>
     n = 3 \<and> bit f 2 \<or> n = 4 \<and> bit f 4 \<or> n = 5 \<and> bit f 9 \<or>
     n = 12 \<and> bit f 62 \<or> n = 13 \<and> bit f 61 \<or> n = 14 \<and> bit f 60 \<or>
     n = 15 \<and> bit f 10 \<or> n = 8 \<and> bit f 7 \<and> l = 1 \<or> n = 9 \<and> bit f 7 \<and> l = 2"
  unfolding pteflags_to_perm_def Let_def tst_pte or_if bit_or_iff bit_if0 bit_perm
  by (simp only: bit_0_eq bot_fun_def bot_bool_def simp_thms disj_assoc conj_ac)

lemma perm_recorded_bit:
  "bit perm_recorded n \<longleftrightarrow> n \<in> {0, 1, 2, 3, 4, 5, 12, 13, 14, 15}"
  unfolding perm_recorded_def bit_or_iff bit_perm by blast

lemma pte_recorded_bit:
  "bit pte_recorded n \<longleftrightarrow> n \<in> {0, 1, 63, 2, 4, 9, 62, 61, 60, 10}"
  unfolding pte_recorded_def bit_or_iff bit_pte by blast

lemma perm_pte_roundtrip:
  "pteflags_to_perm (get_pte_perm perm) level =
     (perm AND perm_recorded) OR
     (if tst perm PERM_BIG \<or> tst perm PERM_BIG_1GB
      then if level = 1 then PERM_BIG else if level = 2 then PERM_BIG_1GB else 0 else 0)"
  (is "?l = ?r")
proof (rule bit_word_eqI)
  fix n
  show "bit ?l n \<longleftrightarrow> bit ?r n"
  proof (cases "n \<in> {0, 1, 2, 3, 4, 5, 8, 9, 12, 13, 14, 15}")
    case True
    then show ?thesis
      unfolding pteflags_to_perm_bit get_pte_perm_bit bit_or_iff bit_and_iff perm_recorded_bit
      by (elim insertE emptyE) (simp_all add: flag_bit)
  next
    case False
    then show ?thesis
      unfolding pteflags_to_perm_bit get_pte_perm_bit bit_or_iff bit_and_iff perm_recorded_bit
      by (simp add: flag_bit)
  qed
qed

lemma pte_perm_roundtrip:
  "get_pte_perm (pteflags_to_perm f level) =
     (f AND pte_recorded) OR (if (level = 1 \<or> level = 2) \<and> pte_big f then PTE_PS else 0)"
  (is "?l = ?r")
proof (rule bit_word_eqI)
  fix n
  show "bit ?l n \<longleftrightarrow> bit ?r n"
  proof (cases "n \<in> {0, 1, 2, 4, 7, 9, 10, 60, 61, 62, 63}")
    case True
    then show ?thesis
      unfolding pteflags_to_perm_bit get_pte_perm_bit bit_or_iff bit_and_iff pte_recorded_bit
      by (elim insertE emptyE) (simp_all add: flag_bit pte_big_bit)
  next
    case False
    then show ?thesis
      unfolding pteflags_to_perm_bit get_pte_perm_bit bit_or_iff bit_and_iff pte_recorded_bit
      by (simp add: flag_bit)
  qed
qed

end
