(* ===== verification/Page_Pool.thy ===== *)
theory Page_Pool
  imports Mmu
begin

text \<open>
  The physical page allocator of \<open>libdune/page.c\<close>. A \<open>struct page *\<close> is the index of
  the page in \<open>p_allocator->pages\<close>; each \<open>SLIST\<close> of free pages is a list of such
  indices, head first. The thread-local variables (\<open>seed\<close>, \<open>last_stealed\<close>, the cpu
  id) are fields of the state of the running thread. The host's \<open>mmap\<close> and the outcome of
  \<open>pthread_mutex_trylock\<close> on another thread's list are parameters: fields of
  \<open>host_os\<close> that no operation writes.
\<close>

unbundle bit_operations_syntax

section \<open>State\<close>

record host_os =
  mmap_fixed :: "u64 \<Rightarrow> u64 \<Rightarrow> bool \<Rightarrow> u64"
  trylock_fails :: "nat \<Rightarrow> nat \<Rightarrow> bool"

record page_pool =
  num_pages :: nat
  pages_free :: "nat \<Rightarrow> nat list"
  page_ref :: "nat \<Rightarrow> u64"
  cpu_id :: int
  max_cores :: int
  last_stealed :: int
  rand_seed :: u32
  host :: host_os

definition GROW_SIZE :: nat where [consts_def]: "GROW_SIZE = 512"
definition NUM_GLOBAL_LISTS :: nat where [consts_def]: "NUM_GLOBAL_LISTS = 104"
definition MAX_PAGES :: nat where [consts_def]: "MAX_PAGES = 2 ^ 21"
definition PAGEBASE :: u64 where [consts_def]: "PAGEBASE = 0x100000000"
definition PAGEBASE_END :: u64 where [consts_def]: "PAGEBASE_END = PAGEBASE + of_nat MAX_PAGES * PGSIZE"
definition STEAL_ATTEMPTS :: nat where [consts_def]: "STEAL_ATTEMPTS = 100000"

section \<open>Growing the pool\<close>

text \<open>The huge-page mapping first, then an ordinary one; 0 is the NULL result.\<close>

definition do_mapping :: "host_os \<Rightarrow> u64 \<Rightarrow> u64 \<Rightarrow> u64" where
  "do_mapping os base len = (
     if mmap_fixed os base len True \<noteq> base then
       (if mmap_fixed os base len False \<noteq> base then 0 else base)
     else base)"

definition insert_free :: "nat \<Rightarrow> nat \<Rightarrow> page_pool \<Rightarrow> page_pool" where
  "insert_free list_id pg p =
     p\<lparr>pages_free := (pages_free p)(list_id := pg # pages_free p list_id)\<rparr>"

primrec add_pages :: "nat \<Rightarrow> nat list \<Rightarrow> page_pool \<Rightarrow> page_pool" where
  "add_pages list_id [] p = p"
| "add_pages list_id (i # is) p =
     add_pages list_id is (insert_free list_id i (p\<lparr>page_ref := (page_ref p)(i := 0)\<rparr>))"

text \<open>
  When the mapping fails, \<open>num_pages\<close> keeps the increment: the code does not take it back.
\<close>

definition grow_size :: "nat \<Rightarrow> page_pool \<Rightarrow> int \<times> page_pool" where
  "grow_size list_id p = (
     if num_pages p \<ge> MAX_PAGES then (- ENOMEM, p)
     else
       let new_num_pages = num_pages p + GROW_SIZE in
       if new_num_pages > MAX_PAGES then (- ENOMEM, p)
       else
         let p1 = p\<lparr>num_pages := new_num_pages\<rparr>;
             old_num_pages = new_num_pages - GROW_SIZE;
             ptr = do_mapping (host p) (PAGEBASE + of_nat old_num_pages * PGSIZE)
                     (of_nat GROW_SIZE * PGSIZE)
         in if ptr = 0 then (- ENOMEM, p1)
            else (0, add_pages list_id [old_num_pages ..< new_num_pages] p1))"

definition grow_size_and_populate :: "nat \<Rightarrow> page_pool \<Rightarrow> int \<times> page_pool" where
  "grow_size_and_populate list_id p = (
     let new_num_pages = num_pages p + GROW_SIZE;
         p1 = p\<lparr>num_pages := new_num_pages\<rparr>;
         old_num_pages = new_num_pages - GROW_SIZE;
         ptr = do_mapping (host p) (PAGEBASE + of_nat old_num_pages * PGSIZE)
                 (of_nat GROW_SIZE * PGSIZE)
     in if ptr = 0 then (- ENOMEM, p1)
        else (0, add_pages list_id [old_num_pages ..< new_num_pages] p1))"

section \<open>Reference counts\<close>

text \<open>\<open>assert(!pg->ref)\<close>, then the page goes to the head of this cpu's list.\<close>

definition local_list :: "page_pool \<Rightarrow> nat" where
  "local_list p = nat (if cpu_id p = - 1 then 0 else cpu_id p)"

definition dune_page_free :: "nat \<Rightarrow> page_pool \<Rightarrow> page_pool option" where
  "dune_page_free pg p = do {
     ensure (page_ref p pg = 0);
     ensure (local_list p < NUM_GLOBAL_LISTS);
     Some (insert_free (local_list p) pg p)
   }"

definition dune_page_get :: "nat \<Rightarrow> page_pool \<Rightarrow> page_pool option" where
  "dune_page_get pg p = do {
     ensure (pg < num_pages p);
     Some (p\<lparr>page_ref := (page_ref p)(pg := page_ref p pg + 1)\<rparr>)
   }"

definition dune_page_put :: "nat \<Rightarrow> page_pool \<Rightarrow> page_pool option" where
  "dune_page_put pg p = do {
     ensure (pg < num_pages p);
     let p = p\<lparr>page_ref := (page_ref p)(pg := page_ref p pg - 1)\<rparr>;
     if page_ref p pg = 0 then dune_page_free pg p else Some p
   }"

definition dune_page_isfrompool :: "u64 \<Rightarrow> page_pool \<Rightarrow> bool" where
  "dune_page_isfrompool pa p \<longleftrightarrow>
     PAGEBASE \<le> pa \<and> pa < PAGEBASE + of_nat (num_pages p) * PGSIZE"

definition dune_pa2page :: "u64 \<Rightarrow> nat" where
  "dune_pa2page pa = unat (drop_bit 12 (pa - PAGEBASE))"

definition dune_page2pa :: "nat \<Rightarrow> u64" where
  "dune_page2pa pg = PAGEBASE + push_bit 12 (of_nat pg)"

definition dune_page_stats :: "page_pool \<Rightarrow> nat \<times> nat \<times> nat" where
  "dune_page_stats p = (
     let num_alloc = length (filter (\<lambda>i. page_ref p i \<noteq> 0) [0 ..< num_pages p])
     in (num_alloc, num_pages p - num_alloc, num_pages p))"

section \<open>Stealing and allocating\<close>

text \<open>
  \<open>rand_number\<close> seeds itself with the cpu id on its first use (the seed 5323 is the mark of a
  thread that has not drawn yet).
\<close>

definition rand_number :: "page_pool \<Rightarrow> u32 \<times> page_pool" where
  "rand_number p = (
     let seed = (if rand_seed p = 5323 then of_int (cpu_id p) else rand_seed p);
         seed = 8253729 * seed + 2396403
     in (seed, p\<lparr>rand_seed := seed\<rparr>))"

fun steal_loop :: "nat \<Rightarrow> nat \<Rightarrow> nat \<Rightarrow> bool \<Rightarrow> page_pool \<Rightarrow> bool \<times> page_pool" where
  "steal_loop steal_from to 0 stolen p = (stolen, p)"
| "steal_loop steal_from to (Suc n) stolen p = (
     case pages_free p steal_from of
       [] \<Rightarrow> (stolen, p)
     | pg # rest \<Rightarrow>
         steal_loop steal_from to n True
           (insert_free to pg (p\<lparr>pages_free := (pages_free p)(steal_from := rest)\<rparr>)))"

definition dune_try_steal_pages ::
    "nat \<Rightarrow> nat \<Rightarrow> nat \<Rightarrow> nat \<Rightarrow> page_pool \<Rightarrow> (bool \<times> page_pool) option" where
  "dune_try_steal_pages attempt steal_from to n p = do {
     ensure (steal_from > to);
     if trylock_fails (host p) attempt steal_from then Some (False, p)
     else Some (steal_loop steal_from to n False p)
   }"

text \<open>
  The choice of a victim list: \<open>rand_number() % (NUM_GLOBAL_LISTS - max_cores) + max_cores\<close> in
  32-bit unsigned arithmetic (the \<open>int\<close> operand is converted), the remainder by zero being a
  fault, and the assertion on the result, which is stored back in an \<open>int\<close>.
\<close>

definition choose_victim :: "page_pool \<Rightarrow> page_pool option" where
  "choose_victim p =
     (if last_stealed p = - 1 then do {
        let (r, p) = rand_number p;
        let n = (of_nat NUM_GLOBAL_LISTS - of_int (max_cores p) :: u32);
        ensure (n \<noteq> 0);
        let v = sint (r mod n + of_int (max_cores p));
        ensure (v < int NUM_GLOBAL_LISTS);
        Some (p\<lparr>last_stealed := v\<rparr>)
      } else Some p)"

text \<open>
  The loop around the label \<open>retry\<close>; the argument is \<open>steal_attempts\<close>. A negative list
  number indexes outside of the array and is undefined.
\<close>

function dune_page_alloc_loop :: "nat \<Rightarrow> page_pool \<Rightarrow> (nat option \<times> page_pool) option" where
  "dune_page_alloc_loop steal_attempts p = (
     if steal_attempts > STEAL_ATTEMPTS then Some (None, p)
     else
       let cpu = local_list p in
       if cpu \<ge> NUM_GLOBAL_LISTS then None
       else
         let (ret, p1) = (if pages_free p cpu = [] then grow_size cpu p else (0, p)) in
         if ret \<noteq> 0 then do {
           p2 \<leftarrow> choose_victim p1;
           ensure (last_stealed p2 \<ge> 0);
           (stolen, p3) \<leftarrow> dune_try_steal_pages (Suc steal_attempts)
              (nat (last_stealed p2)) cpu GROW_SIZE p2;
           let p4 = (if stolen then p3 else p3\<lparr>last_stealed := - 1\<rparr>);
           dune_page_alloc_loop (Suc steal_attempts) p4
         } else
           case pages_free p1 cpu of
             [] \<Rightarrow> None
           | pg # rest \<Rightarrow> do {
               p2 \<leftarrow> dune_page_get pg (p1\<lparr>pages_free := (pages_free p1)(cpu := rest)\<rparr>);
               Some (Some pg, p2)
             })"
  by pat_completeness auto
termination
  by (relation "measure (\<lambda>(n, p). Suc STEAL_ATTEMPTS - n)") auto

declare dune_page_alloc_loop.simps [simp del]

definition dune_page_alloc :: "page_pool \<Rightarrow> (nat option \<times> page_pool) option" where
  "dune_page_alloc p = dune_page_alloc_loop 0 p"

section \<open>Initialisation\<close>

text \<open>
  The bookkeeping mapping is fresh anonymous memory, so all reference counts start at 0; whether it
  failed, and what \<open>pthread_mutex_init\<close> returns for each list, are parameters. Then every
  list is emptied and the pool grows by 512 pages at a time, list by list.
\<close>

fun init_grow :: "nat \<Rightarrow> nat \<Rightarrow> page_pool \<Rightarrow> int \<times> page_pool" where
  "init_grow 0 j p = (0, p)"
| "init_grow (Suc n) j p = (
     let (ret, p) = grow_size j p in
     if ret \<noteq> 0 then (ret, p)
     else init_grow n ((j + 1) mod NUM_GLOBAL_LISTS) p)"

primrec init_lists :: "(nat \<Rightarrow> int) \<Rightarrow> nat list \<Rightarrow> page_pool \<Rightarrow> int \<times> page_pool" where
  "init_lists mutex_init [] p = (0, p)"
| "init_lists mutex_init (i # is) p = (
     if mutex_init i \<noteq> 0 then (mutex_init i, p)
     else init_lists mutex_init is (p\<lparr>pages_free := (pages_free p)(i := [])\<rparr>))"

definition dune_page_init ::
    "bool \<Rightarrow> (nat \<Rightarrow> int) \<Rightarrow> page_pool \<Rightarrow> int \<times> page_pool" where
  "dune_page_init mmap_failed mutex_init p = (
     if mmap_failed then (- ENOMEM, p)
     else
       let p = p\<lparr>num_pages := 0, page_ref := (\<lambda>_. 0)\<rparr>;
           (ret, p) = init_lists mutex_init [0 ..< NUM_GLOBAL_LISTS] p
       in if ret \<noteq> 0 then (ret, p) else init_grow (MAX_PAGES div GROW_SIZE) 0 p)"

section \<open>The invariant of the pool\<close>

text \<open>
  The free pages of all lists as one multiset; the pages that are in use; the invariant: a page is
  on at most one list, at most once, and only if it exists and nobody holds a reference.
\<close>

definition free_mset :: "page_pool \<Rightarrow> nat multiset" where
  "free_mset p = (\<Sum>i<NUM_GLOBAL_LISTS. mset (pages_free p i))"

definition in_use :: "page_pool \<Rightarrow> nat set" where
  "in_use p = {pg. page_ref p pg \<noteq> 0}"

definition pool_inv :: "page_pool \<Rightarrow> bool" where
  "pool_inv p \<longleftrightarrow>
     num_pages p \<le> MAX_PAGES \<and>
     (\<forall>pg. count (free_mset p) pg \<le> (if pg < num_pages p \<and> page_ref p pg = 0 then 1 else 0)) \<and>
     (\<forall>pg \<ge> num_pages p. page_ref p pg = 0)"

text \<open>The configuration a thread runs with once the library set its cpu id and core count.\<close>

definition thread_ok :: "page_pool \<Rightarrow> bool" where
  "thread_ok p \<longleftrightarrow>
     - 1 \<le> cpu_id p \<and> cpu_id p < max_cores p \<and> 1 \<le> max_cores p \<and> max_cores p < int NUM_GLOBAL_LISTS \<and>
     (last_stealed p = - 1 \<or>
      max_cores p \<le> last_stealed p \<and> last_stealed p < int NUM_GLOBAL_LISTS)"

text \<open>The operations leave the identity of the thread and the parameters alone.\<close>

definition same_thread :: "page_pool \<Rightarrow> page_pool \<Rightarrow> bool" where
  "same_thread p q \<longleftrightarrow> cpu_id q = cpu_id p \<and> max_cores q = max_cores p \<and> host q = host p"

text \<open>What an allocation does, whichever way it found its page.\<close>

definition alloc_spec :: "page_pool \<Rightarrow> nat option \<Rightarrow> page_pool \<Rightarrow> bool" where
  "alloc_spec p r p' \<longleftrightarrow>
     pool_inv p' \<and> same_thread p p' \<and> num_pages p \<le> num_pages p' \<and>
     (case r of
        None \<Rightarrow> page_ref p' = page_ref p
      | Some pg \<Rightarrow> pg \<notin> in_use p \<and> pg < num_pages p' \<and> pg \<notin># free_mset p' \<and>
          page_ref p' = (page_ref p)(pg := 1))"

text \<open>\<open>MAP_FIXED\<close> mappings of ordinary pages succeed.\<close>

definition mmap_honoured :: "host_os \<Rightarrow> bool" where
  "mmap_honoured os \<longleftrightarrow> (\<forall>base len. mmap_fixed os base len False = base)"

section \<open>Lemmas on the pool\<close>

lemma free_mset_upd:
  assumes "l < NUM_GLOBAL_LISTS"
  shows "free_mset (p\<lparr>pages_free := (pages_free p)(l := xs)\<rparr>) + mset (pages_free p l) = free_mset p + mset xs"
proof -
  have "free_mset (p\<lparr>pages_free := (pages_free p)(l := xs)\<rparr>) = mset xs + (\<Sum>i\<in>{..<NUM_GLOBAL_LISTS} - {l}. mset (pages_free p i))"
    using assms by (simp add: free_mset_def sum.remove [of _ l])
  moreover have "free_mset p = mset (pages_free p l) + (\<Sum>i\<in>{..<NUM_GLOBAL_LISTS} - {l}. mset (pages_free p i))"
    using assms by (simp add: free_mset_def sum.remove [of _ l])
  ultimately show ?thesis by (simp add: ac_simps)
qed

lemma free_mset_cong: "pages_free p = pages_free q \<Longrightarrow> free_mset p = free_mset q"
  by (simp add: free_mset_def)

lemma free_mset_frame [simp]:
  "free_mset (p\<lparr>num_pages := a\<rparr>) = free_mset p"
  "free_mset (p\<lparr>page_ref := b\<rparr>) = free_mset p"
  "free_mset (p\<lparr>last_stealed := c\<rparr>) = free_mset p"
  "free_mset (p\<lparr>rand_seed := d\<rparr>) = free_mset p"
  by (simp_all add: free_mset_def)

lemma in_use_frame [simp]:
  "in_use (p\<lparr>num_pages := a\<rparr>) = in_use p"
  "in_use (p\<lparr>pages_free := b\<rparr>) = in_use p"
  "in_use (p\<lparr>last_stealed := c\<rparr>) = in_use p"
  "in_use (p\<lparr>rand_seed := d\<rparr>) = in_use p"
  by (simp_all add: in_use_def)

lemma insert_free_simps [simp]:
  "num_pages (insert_free l pg p) = num_pages p"
  "page_ref (insert_free l pg p) = page_ref p"
  "cpu_id (insert_free l pg p) = cpu_id p"
  "max_cores (insert_free l pg p) = max_cores p"
  "last_stealed (insert_free l pg p) = last_stealed p"
  "rand_seed (insert_free l pg p) = rand_seed p"
  "host (insert_free l pg p) = host p"
  "pages_free (insert_free l pg p) = (pages_free p)(l := pg # pages_free p l)"
  by (simp_all add: insert_free_def)

lemma free_mset_insert:
  "l < NUM_GLOBAL_LISTS \<Longrightarrow> free_mset (insert_free l pg p) = add_mset pg (free_mset p)"
  using free_mset_upd [of l p "pg # pages_free p l"] by (simp add: insert_free_def)

lemma free_mset_pop:
  assumes "l < NUM_GLOBAL_LISTS" "pages_free p l = pg # rest"
  shows "free_mset p = add_mset pg (free_mset (p\<lparr>pages_free := (pages_free p)(l := rest)\<rparr>))"
  using free_mset_upd [of l p rest] assms by simp

lemma add_pages_simps [simp]:
  "num_pages (add_pages l is p) = num_pages p"
  "cpu_id (add_pages l is p) = cpu_id p"
  "max_cores (add_pages l is p) = max_cores p"
  "last_stealed (add_pages l is p) = last_stealed p"
  "host (add_pages l is p) = host p"
  "page_ref (add_pages l is p) = (\<lambda>i. if i \<in> set is then 0 else page_ref p i)"
  "pages_free (add_pages l is p) = (pages_free p)(l := rev is @ pages_free p l)"
  by (induction "is" arbitrary: p) (auto simp: fun_eq_iff)

lemma free_mset_add_pages:
  "l < NUM_GLOBAL_LISTS \<Longrightarrow> free_mset (add_pages l is p) = free_mset p + mset is"
  by (induction "is" arbitrary: p) (auto simp: free_mset_insert)

lemma count_upt: "count (mset [a ..< b]) x = (if a \<le> x \<and> x < b then 1 else 0)"
  using distinct_count_atmost_1 [of "[a ..< b]"] by simp

lemma pool_invI:
  assumes "num_pages p \<le> MAX_PAGES"
    and "\<And>pg. count (free_mset p) pg \<le> (if pg < num_pages p \<and> page_ref p pg = 0 then 1 else 0)"
    and "\<And>pg. pg \<ge> num_pages p \<Longrightarrow> page_ref p pg = 0"
  shows "pool_inv p"
  using assms by (simp add: pool_inv_def)

lemma pool_inv_count:
  "pool_inv p \<Longrightarrow> count (free_mset p) pg \<le> (if pg < num_pages p \<and> page_ref p pg = 0 then 1 else 0)"
  by (simp add: pool_inv_def)

lemma pool_inv_free:
  assumes "pool_inv p" "pg \<in># free_mset p"
  shows "pg < num_pages p" "page_ref p pg = 0" "count (free_mset p) pg = 1"
proof -
  obtain k where "count (free_mset p) pg = Suc k"
    using assms(2) by (metis not_in_iff not0_implies_Suc)
  with pool_inv_count [OF assms(1), of pg]
  show "pg < num_pages p" "page_ref p pg = 0" "count (free_mset p) pg = 1"
    by (simp_all split: if_splits)
qed

lemma pool_inv_num_pages: "pool_inv p \<Longrightarrow> num_pages p \<le> MAX_PAGES"
  by (simp add: pool_inv_def)

lemma pool_inv_beyond: "pool_inv p \<Longrightarrow> num_pages p \<le> pg \<Longrightarrow> page_ref p pg = 0"
  by (simp add: pool_inv_def)

lemma pool_inv_not_free:
  assumes "pool_inv p" "num_pages p \<le> pg \<or> page_ref p pg \<noteq> 0"
  shows "count (free_mset p) pg = 0"
  using pool_inv_count [OF assms(1), of pg] assms(2) by (auto split: if_splits)

lemma same_thread_local_list: "same_thread p q \<Longrightarrow> local_list q = local_list p"
  by (simp add: same_thread_def local_list_def)

lemma grow_size_inv:
  assumes inv: "pool_inv p" and l: "l < NUM_GLOBAL_LISTS" and g: "grow_size l p = (ret, p')"
  shows "pool_inv p' \<and> same_thread p p' \<and> last_stealed p' = last_stealed p \<and>
         page_ref p' = page_ref p \<and> num_pages p \<le> num_pages p' \<and>
         (ret = 0 \<longrightarrow> num_pages p < num_pages p' \<and> pages_free p' l \<noteq> []) \<and>
         (ret \<noteq> 0 \<longrightarrow> pages_free p' = pages_free p)"
proof -
  consider (full) "p' = p" "ret \<noteq> 0"
    | (nomap) "p' = p\<lparr>num_pages := num_pages p + GROW_SIZE\<rparr>" "ret \<noteq> 0" "num_pages p + GROW_SIZE \<le> MAX_PAGES"
    | (ok) "p' = add_pages l [num_pages p ..< num_pages p + GROW_SIZE] (p\<lparr>num_pages := num_pages p + GROW_SIZE\<rparr>)"
        "ret = 0" "num_pages p + GROW_SIZE \<le> MAX_PAGES"
    using g by (auto simp: grow_size_def Let_def ENOMEM_def split: if_splits)
  then show ?thesis
  proof cases
    case full
    then show ?thesis using inv by (simp add: same_thread_def)
  next
    case nomap
    have "pool_inv p'"
    proof (rule pool_invI)
      fix pg
      show "count (free_mset p') pg \<le> (if pg < num_pages p' \<and> page_ref p' pg = 0 then 1 else 0)"
        using pool_inv_count [OF inv, of pg] by (simp add: nomap(1) split: if_splits)
    qed (use nomap pool_inv_beyond [OF inv] in auto)
    then show ?thesis using nomap by (simp add: same_thread_def)
  next
    case ok
    have r: "page_ref p' = page_ref p"
      using ok pool_inv_beyond [OF inv] by (auto simp: fun_eq_iff)
    have "pool_inv p'"
    proof (rule pool_invI)
      fix pg
      show "count (free_mset p') pg \<le> (if pg < num_pages p' \<and> page_ref p' pg = 0 then 1 else 0)"
        using pool_inv_count [OF inv, of pg] pool_inv_beyond [OF inv, of pg] ok(1)
        unfolding r by (simp add: free_mset_add_pages l count_upt del: mset_upt split: if_splits)
    qed (use ok r pool_inv_beyond [OF inv] in auto)
    then show ?thesis using ok r by (simp add: same_thread_def GROW_SIZE_def)
  qed
qed

lemma steal_loop_frame:
  assumes "steal_loop f t n b p = (b', p')" "f < NUM_GLOBAL_LISTS" "t < NUM_GLOBAL_LISTS" "f \<noteq> t"
  shows "free_mset p' = free_mset p \<and> same_thread p p' \<and> last_stealed p' = last_stealed p \<and>
         page_ref p' = page_ref p \<and> num_pages p' = num_pages p"
  using assms
proof (induction f t n b p rule: steal_loop.induct)
  case (2 f t n b p)
  show ?case
  proof (cases "pages_free p f")
    case Nil
    then show ?thesis using 2 by (simp add: same_thread_def)
  next
    case (Cons pg rest)
    then show ?thesis
      using 2 free_mset_pop [of f p pg rest] by (fastforce simp: free_mset_insert same_thread_def)
  qed
qed (simp add: same_thread_def)

lemma try_steal_frame:
  assumes st: "dune_try_steal_pages n f t k p = Some (b, p')" and "f < NUM_GLOBAL_LISTS" "t < NUM_GLOBAL_LISTS"
  shows "free_mset p' = free_mset p \<and> same_thread p p' \<and> last_stealed p' = last_stealed p \<and>
         page_ref p' = page_ref p \<and> num_pages p' = num_pages p"
proof -
  have "t < f" using st by (simp add: dune_try_steal_pages_def split: if_splits)
  show ?thesis
  proof (cases "trylock_fails (host p) n f")
    case True
    then show ?thesis using st \<open>t < f\<close> by (simp add: dune_try_steal_pages_def same_thread_def)
  next
    case False
    then have "steal_loop f t k False p = (b, p')"
      using st \<open>t < f\<close> by (simp add: dune_try_steal_pages_def)
    then show ?thesis using steal_loop_frame assms(2,3) \<open>t < f\<close> by blast
  qed
qed

lemma pool_inv_cong:
  "\<lbrakk>free_mset q = free_mset p; page_ref q = page_ref p; num_pages q = num_pages p\<rbrakk> \<Longrightarrow> pool_inv q = pool_inv p"
  by (simp add: pool_inv_def)

lemma choose_victim_frame:
  assumes "choose_victim p = Some p'"
  shows "pages_free p' = pages_free p" "page_ref p' = page_ref p" "num_pages p' = num_pages p" "same_thread p p'"
    "last_stealed p' = last_stealed p \<or> last_stealed p' < int NUM_GLOBAL_LISTS"
  using assms
  by (auto simp: choose_victim_def rand_number_def Let_def same_thread_def split: if_splits)

lemma dune_page_get_Some:
  "dune_page_get pg p = Some p' \<longleftrightarrow>
     pg < num_pages p \<and> p' = p\<lparr>page_ref := (page_ref p)(pg := page_ref p pg + 1)\<rparr>"
  by (auto simp: dune_page_get_def)

lemma alloc_spec_trans:
  assumes "same_thread p q" "page_ref q = page_ref p" "num_pages p \<le> num_pages q" "alloc_spec q r p'"
  shows "alloc_spec p r p'"
  using assms by (auto simp: alloc_spec_def same_thread_def in_use_def split: option.splits)

lemma take_page_spec:
  assumes inv: "pool_inv p" and l: "l < NUM_GLOBAL_LISTS" and ne: "pages_free p l = pg # rest"
    and get: "dune_page_get pg (p\<lparr>pages_free := (pages_free p)(l := rest)\<rparr>) = Some p'"
  shows "alloc_spec p (Some pg) p'"
proof -
  let ?q = "p\<lparr>pages_free := (pages_free p)(l := rest)\<rparr>"
  have pop: "free_mset p = add_mset pg (free_mset ?q)"
    by (rule free_mset_pop [OF l ne])
  then have pg: "pg < num_pages p" "page_ref p pg = 0" "count (free_mset p) pg = 1"
    using pool_inv_free [OF inv, of pg] by simp_all
  have p': "p' = ?q\<lparr>page_ref := (page_ref p)(pg := 1)\<rparr>"
    using get pg by (simp add: dune_page_get_Some)
  have gone: "pg \<notin># free_mset ?q"
    using pg(3) pop by (simp add: not_in_iff)
  have "pool_inv p'"
  proof (rule pool_invI)
    fix x
    show "count (free_mset p') x \<le> (if x < num_pages p' \<and> page_ref p' x = 0 then 1 else 0)"
    proof (cases "x = pg")
      case True
      then show ?thesis using gone by (simp add: p' not_in_iff)
    next
      case False
      then show ?thesis
        using pool_inv_count [OF inv, of x] pop by (simp add: p')
    qed
  qed (use p' pg pool_inv_num_pages [OF inv] pool_inv_beyond [OF inv] in auto)
  then show ?thesis
    using pg p' gone by (simp add: alloc_spec_def same_thread_def in_use_def)
qed

lemma pool_inv_in_use: "pool_inv p \<Longrightarrow> pg \<in> in_use p \<Longrightarrow> pg < num_pages p"
  by (metis (mono_tags) in_use_def mem_Collect_eq not_le pool_inv_beyond)

lemma dune_page_put_Some:
  assumes "pool_inv p" "pg \<in> in_use p" "local_list p < NUM_GLOBAL_LISTS"
  shows "\<exists>p'. dune_page_put pg p = Some p' \<and> pool_inv p' \<and> same_thread p p' \<and>
    num_pages p' = num_pages p \<and> page_ref p' = (page_ref p)(pg := page_ref p pg - 1) \<and>
    free_mset p' = (if page_ref p pg = 1 then add_mset pg (free_mset p) else free_mset p)"
proof -
  let ?q = "p\<lparr>page_ref := (page_ref p)(pg := page_ref p pg - 1)\<rparr>"
  have r: "page_ref p pg \<noteq> 0" and n: "pg < num_pages p"
    using assms pool_inv_in_use [of p pg] by (auto simp: in_use_def)
  have nf: "count (free_mset p) pg = 0"
    using assms(1) r by (simp add: pool_inv_not_free del: count_eq_zero_iff)
  let ?p' = "if page_ref p pg = 1 then insert_free (local_list p) pg ?q else ?q"
  have run: "dune_page_put pg p = Some ?p'"
    using n assms(3) by (auto simp: dune_page_put_def dune_page_free_def Let_def local_list_def)
  have fm: "free_mset ?p' = (if page_ref p pg = 1 then add_mset pg (free_mset p) else free_mset p)"
    using assms(3) by (simp add: free_mset_insert)
  have "pool_inv ?p'"
  proof (rule pool_invI)
    fix x
    show "count (free_mset ?p') x \<le> (if x < num_pages ?p' \<and> page_ref ?p' x = 0 then 1 else 0)"
      unfolding fm using pool_inv_count [OF assms(1), of x] nf n by auto
  qed (use assms(1) n in \<open>auto simp: pool_inv_def split: if_splits\<close>)
  then show ?thesis
    using run fm by (auto simp: same_thread_def)
qed

lemma dune_page_get_inv:
  assumes "pool_inv p" "pg \<in> in_use p" "page_ref p pg \<noteq> - 1"
  shows "\<exists>p'. dune_page_get pg p = Some p' \<and> pool_inv p' \<and> same_thread p p' \<and>
    num_pages p' = num_pages p \<and> page_ref p' = (page_ref p)(pg := page_ref p pg + 1) \<and>
    free_mset p' = free_mset p"
proof -
  have n: "pg < num_pages p" and nf: "count (free_mset p) pg = 0"
    using assms pool_inv_in_use [of p pg] pool_inv_not_free [of p pg] by (auto simp: in_use_def)
  let ?p' = "p\<lparr>page_ref := (page_ref p)(pg := page_ref p pg + 1)\<rparr>"
  have "pool_inv ?p'"
  proof (rule pool_invI)
    fix x
    show "count (free_mset ?p') x \<le> (if x < num_pages ?p' \<and> page_ref ?p' x = 0 then 1 else 0)"
      using pool_inv_count [OF assms(1), of x] nf by (cases "x = pg") auto
  qed (use assms(1) n in \<open>auto simp: pool_inv_def\<close>)
  then show ?thesis
    using n by (simp add: dune_page_get_Some same_thread_def)
qed

lemma choose_victim_total:
  assumes "thread_ok p"
  shows "\<exists>q. choose_victim p = Some q \<and> thread_ok q \<and> 0 \<le> last_stealed q \<and> max_cores p \<le> last_stealed q"
proof (cases "last_stealed p = - 1")
  case False
  then show ?thesis using assms by (auto simp: choose_victim_def thread_ok_def)
next
  case True
  obtain r p1 where r: "rand_number p = (r, p1)" by (cases "rand_number p")
  have p1: "cpu_id p1 = cpu_id p" "max_cores p1 = max_cores p"
    using r by (auto simp: rand_number_def Let_def)
  define m where "m = nat (max_cores p)"
  have m: "max_cores p = int m" "1 \<le> m" "m < 104"
    using assms by (auto simp: thread_ok_def m_def consts_def)
  define d :: u32 where "d = of_nat (104 - m)"
  have d: "of_nat NUM_GLOBAL_LISTS - of_int (max_cores p) = d"
    using m by (simp add: d_def NUM_GLOBAL_LISTS_def of_nat_diff)
  have ud: "unat d = 104 - m"
    using m unfolding d_def by (intro unat_of_nat_small) simp
  have um: "unat (of_nat m :: u32) = m"
    using m by (intro unat_of_nat_small) simp
  define v where "v = r mod d + of_nat m"
  have "unat (r mod d) < 104 - m"
    using ud m by (simp add: unat_mod)
  then have uv: "m \<le> unat v" "unat v < 104"
    unfolding v_def using m um by (simp_all add: unat_word_ariths(1))
  then have sv: "sint v = int (unat v)"
    by (simp add: sint_small)
  have "d \<noteq> 0" using ud m by auto
  have eqs: "of_nat NUM_GLOBAL_LISTS - of_int (max_cores p1) = d" "r mod d + of_int (max_cores p1) = v"
    using d p1 m by (simp_all add: v_def)
  have vb: "sint v < int NUM_GLOBAL_LISTS" "int m \<le> sint v"
    using uv unfolding sv NUM_GLOBAL_LISTS_def by linarith+
  have run: "choose_victim p = Some (p1\<lparr>last_stealed := sint v\<rparr>)"
    using \<open>d \<noteq> 0\<close> vb(1) by (simp only: choose_victim_def True refl if_True r Let_def split_conv eqs ensure_bind not_False_eq_True)
  then show ?thesis
    using vb m p1 assms by (simp add: thread_ok_def)
qed

lemma thread_ok_local_list: "thread_ok p \<Longrightarrow> local_list p < nat (max_cores p) \<and> local_list p < NUM_GLOBAL_LISTS"
  by (auto simp: thread_ok_def local_list_def)

lemma thread_ok_cong:
  "same_thread p q \<Longrightarrow> last_stealed q = last_stealed p \<or> last_stealed q = - 1 \<Longrightarrow> thread_ok p \<Longrightarrow> thread_ok q"
  by (auto simp: thread_ok_def same_thread_def)

text \<open>
  One round of the retry loop either takes a page or goes round again in a state that differs only
  in which list a free page is on.
\<close>

lemma steal_round:
  assumes inv: "pool_inv p" and th: "thread_ok p" and c: "cpu = local_list p"
  obtains p2 b p3 where "choose_victim p = Some p2" "0 \<le> last_stealed p2"
    "dune_try_steal_pages n (nat (last_stealed p2)) cpu GROW_SIZE p2 = Some (b, p3)"
    "pool_inv p3" "same_thread p p3" "thread_ok p3" "page_ref p3 = page_ref p" "num_pages p3 = num_pages p"
proof -
  have cpu: "cpu < NUM_GLOBAL_LISTS" "cpu < nat (max_cores p)"
    using thread_ok_local_list [OF th] by (simp_all add: c)
  obtain p2 where v: "choose_victim p = Some p2" "thread_ok p2" "0 \<le> last_stealed p2"
      "max_cores p \<le> last_stealed p2"
    using choose_victim_total [OF th] by auto
  note fr = choose_victim_frame [OF v(1)]
  have p2: "pool_inv p2"
    using fr inv pool_inv_cong [OF free_mset_cong, of p2 p] by simp
  have lt: "cpu < nat (last_stealed p2)" "nat (last_stealed p2) < NUM_GLOBAL_LISTS"
    using v cpu by (auto simp: thread_ok_def)
  have "dune_try_steal_pages n (nat (last_stealed p2)) cpu GROW_SIZE p2 \<noteq> None"
    using lt by (simp add: dune_try_steal_pages_def del: not_None_eq)
  then obtain bp where bp: "dune_try_steal_pages n (nat (last_stealed p2)) cpu GROW_SIZE p2 = Some bp"
    by blast
  obtain b p3 where "bp = (b, p3)" by (cases bp)
  with bp have st: "dune_try_steal_pages n (nat (last_stealed p2)) cpu GROW_SIZE p2 = Some (b, p3)"
    by simp
  have p3: "free_mset p3 = free_mset p2" "page_ref p3 = page_ref p2" "num_pages p3 = num_pages p2"
      "same_thread p2 p3" "last_stealed p3 = last_stealed p2"
    using try_steal_frame [OF st lt(2) cpu(1)] by simp_all
  show thesis
    using that [OF v(1,3) st] p3 p2 fr pool_inv_cong [OF p3(1,2,3)] thread_ok_cong [OF p3(4) _ v(2)]
    by (simp add: same_thread_def)
qed

lemma alloc_round:
  assumes inv: "pool_inv p" and th: "thread_ok p" and n: "n \<le> STEAL_ATTEMPTS"
  shows "(\<exists>pg p'. dune_page_alloc_loop n p = Some (Some pg, p') \<and> alloc_spec p (Some pg) p' \<and> thread_ok p') \<or>
    (\<exists>q. dune_page_alloc_loop n p = dune_page_alloc_loop (Suc n) q \<and> pool_inv q \<and> thread_ok q \<and>
        same_thread p q \<and> page_ref q = page_ref p \<and> num_pages p \<le> num_pages q \<and> pages_free p (local_list p) = [])"
proof -
  define cpu where "cpu = local_list p"
  have cpu: "cpu < NUM_GLOBAL_LISTS"
    using thread_ok_local_list [OF th] by (simp add: cpu_def)
  obtain ret p1 where g: "(if pages_free p cpu = [] then grow_size cpu p else (0, p)) = (ret, p1)"
    by (cases "if pages_free p cpu = [] then grow_size cpu p else (0, p)")
  have p1: "pool_inv p1" "same_thread p p1" "last_stealed p1 = last_stealed p" "page_ref p1 = page_ref p"
      "num_pages p \<le> num_pages p1" "ret = 0 \<longrightarrow> pages_free p1 cpu \<noteq> []" "ret \<noteq> 0 \<longrightarrow> pages_free p cpu = []"
    using g inv grow_size_inv [OF inv cpu] by (auto simp: same_thread_def split: if_splits)
  have th1: "thread_ok p1" using thread_ok_cong [OF p1(2) _ th] p1(3) by simp
  note unf = dune_page_alloc_loop.simps [of n p] cpu_def [symmetric]
  show ?thesis
  proof (cases "ret = 0")
    case True
    then obtain pg rest where ne: "pages_free p1 cpu = pg # rest"
      using p1(6) by (cases "pages_free p1 cpu") auto
    have "pg < num_pages p1"
      using free_mset_pop [OF cpu ne] by (intro pool_inv_free [OF p1(1)]) simp
    then obtain p' where get: "dune_page_get pg (p1\<lparr>pages_free := (pages_free p1)(cpu := rest)\<rparr>) = Some p'"
      by (simp add: dune_page_get_def)
    moreover have "dune_page_alloc_loop n p = Some (Some pg, p')"
      using n cpu g True ne get by (simp add: unf)
    moreover have "alloc_spec p (Some pg) p'"
      by (rule alloc_spec_trans [OF p1(2,4,5) take_page_spec [OF p1(1) cpu ne get]])
    moreover have "thread_ok p'"
      using get th1 by (auto simp: dune_page_get_Some thread_ok_def)
    ultimately show ?thesis by blast
  next
    case False
    obtain p2 b p3 where s: "choose_victim p1 = Some p2" "0 \<le> last_stealed p2"
        "dune_try_steal_pages (Suc n) (nat (last_stealed p2)) cpu GROW_SIZE p2 = Some (b, p3)"
        "pool_inv p3" "same_thread p1 p3" "thread_ok p3" "page_ref p3 = page_ref p1" "num_pages p3 = num_pages p1"
      using steal_round [OF p1(1) th1, of cpu "Suc n"] same_thread_local_list [OF p1(2)] cpu_def by metis
    let ?q = "if b then p3 else p3\<lparr>last_stealed := - 1\<rparr>"
    have "dune_page_alloc_loop n p = dune_page_alloc_loop (Suc n) ?q"
      using n cpu g False s by (simp add: unf)
    moreover have "pool_inv ?q" "thread_ok ?q" "same_thread p ?q" "page_ref ?q = page_ref p" "num_pages p \<le> num_pages ?q"
      using s p1 by (auto simp: pool_inv_def thread_ok_def same_thread_def)
    ultimately show ?thesis using p1(7) False unfolding cpu_def by blast
  qed
qed

lemma alloc_loop_total:
  assumes "pool_inv p" "thread_ok p"
  shows "\<exists>r p'. dune_page_alloc_loop n p = Some (r, p') \<and> alloc_spec p r p' \<and> thread_ok p'"
  using assms
proof (induction "Suc STEAL_ATTEMPTS - n" arbitrary: n p rule: less_induct)
  case less
  show ?case
  proof (cases "n \<le> STEAL_ATTEMPTS")
    case False
    then show ?thesis using less.prems
      by (simp add: dune_page_alloc_loop.simps [of n p] alloc_spec_def same_thread_def)
  next
    case True
    from alloc_round [OF less.prems True] show ?thesis
    proof
      assume "\<exists>q. dune_page_alloc_loop n p = dune_page_alloc_loop (Suc n) q \<and> pool_inv q \<and> thread_ok q \<and>
        same_thread p q \<and> page_ref q = page_ref p \<and> num_pages p \<le> num_pages q \<and> pages_free p (local_list p) = []"
      then obtain q where q: "dune_page_alloc_loop n p = dune_page_alloc_loop (Suc n) q" "pool_inv q" "thread_ok q"
        "same_thread p q" "page_ref q = page_ref p" "num_pages p \<le> num_pages q" by blast
      have "Suc STEAL_ATTEMPTS - Suc n < Suc STEAL_ATTEMPTS - n" using True by simp
      from less.hyps [OF this q(2,3)] show ?thesis
        using q(1) alloc_spec_trans [OF q(4-6)] by auto
    qed blast
  qed
qed

lemma dune_page_alloc_total:
  assumes "pool_inv p" "thread_ok p"
  obtains r p' where "dune_page_alloc p = Some (r, p')" "alloc_spec p r p'" "thread_ok p'"
  using alloc_loop_total [OF assms] unfolding dune_page_alloc_def by blast

lemma dune_page_alloc_nonempty:
  assumes "pool_inv p" "thread_ok p" "pages_free p (local_list p) \<noteq> []"
  obtains pg p' where "dune_page_alloc p = Some (Some pg, p')" "alloc_spec p (Some pg) p'" "thread_ok p'"
  using alloc_round [OF assms(1,2), of 0] assms(3) unfolding dune_page_alloc_def by auto

section \<open>Initialisation\<close>

lemma unat_pool_addr: "n < MAX_PAGES \<Longrightarrow> unat (PAGEBASE + of_nat n * PGSIZE) = 2 ^ 32 + n * 4096"
  by (simp add: consts_def unat_word_ariths unat_of_nat_small)

lemma grow_size_ok:
  assumes "mmap_honoured (host p)" "num_pages p + GROW_SIZE \<le> MAX_PAGES"
  shows "grow_size l p = (0, add_pages l [num_pages p ..< num_pages p + GROW_SIZE] (p\<lparr>num_pages := num_pages p + GROW_SIZE\<rparr>))"
proof -
  have n: "num_pages p < MAX_PAGES" using assms(2) by (simp add: GROW_SIZE_def)
  have "PAGEBASE + of_nat (num_pages p) * PGSIZE \<noteq> 0"
    using unat_pool_addr [OF n] by (metis add_is_0 power_not_zero unat_0 zero_neq_numeral)
  then show ?thesis
    using assms n by (simp add: grow_size_def Let_def do_mapping_def mmap_honoured_def)
qed

lemma init_grow_ok:
  assumes "mmap_honoured (host p)" "num_pages p + n * GROW_SIZE \<le> MAX_PAGES" "j < NUM_GLOBAL_LISTS"
    "free_mset p = mset [0 ..< num_pages p]" "page_ref p = (\<lambda>_. 0)"
  shows "\<exists>p'. init_grow n j p = (0, p') \<and> num_pages p' = num_pages p + n * GROW_SIZE \<and>
    free_mset p' = mset [0 ..< num_pages p'] \<and> page_ref p' = (\<lambda>_. 0)"
  using assms
proof (induction n arbitrary: j p)
  case (Suc n)
  let ?q = "add_pages j [num_pages p ..< num_pages p + GROW_SIZE] (p\<lparr>num_pages := num_pages p + GROW_SIZE\<rparr>)"
  have g: "grow_size j p = (0, ?q)"
    using Suc.prems by (intro grow_size_ok) auto
  have "free_mset ?q = mset [0 ..< num_pages ?q]"
    using Suc.prems free_mset_add_pages [of j] upt_add_eq_append [of 0 "num_pages p" GROW_SIZE]
    by (simp del: mset_upt)
  moreover have "(j + 1) mod NUM_GLOBAL_LISTS < NUM_GLOBAL_LISTS"
    by (simp add: NUM_GLOBAL_LISTS_def)
  ultimately obtain p' where "init_grow n ((j + 1) mod NUM_GLOBAL_LISTS) ?q = (0, p')"
      "num_pages p' = num_pages ?q + n * GROW_SIZE" "free_mset p' = mset [0 ..< num_pages p']" "page_ref p' = (\<lambda>_. 0)"
    using Suc.IH [of ?q "(j + 1) mod NUM_GLOBAL_LISTS"] Suc.prems by (auto simp del: mset_upt cong: if_cong)
  then show ?case using g by (simp del: mset_upt)
qed simp

lemma init_lists_ok:
  assumes "\<forall>i \<in> set is. mutex_init i = 0"
  shows "init_lists mutex_init is p = (0, p\<lparr>pages_free := (\<lambda>i. if i \<in> set is then [] else pages_free p i)\<rparr>)"
  using assms by (induction "is" arbitrary: p) (auto simp: fun_eq_iff intro!: arg_cong [of _ _ "\<lambda>f. p\<lparr>pages_free := f\<rparr>" for p])

lemma dune_page_init_ok:
  assumes "mmap_honoured (host p)" "\<forall>i < NUM_GLOBAL_LISTS. mutex_init i = 0"
  shows "\<exists>p'. dune_page_init False mutex_init p = (0, p') \<and> pool_inv p' \<and> num_pages p' = MAX_PAGES \<and>
     free_mset p' = mset [0 ..< MAX_PAGES] \<and> in_use p' = {}"
proof -
  let ?q = "p\<lparr>num_pages := 0, page_ref := (\<lambda>_. 0), pages_free := (\<lambda>i. if i < NUM_GLOBAL_LISTS then [] else pages_free p i)\<rparr>"
  have l: "init_lists mutex_init [0 ..< NUM_GLOBAL_LISTS] (p\<lparr>num_pages := 0, page_ref := (\<lambda>_. 0)\<rparr>) = (0, ?q)"
    using assms(2) by (subst init_lists_ok) (auto cong: if_cong)
  have m: "MAX_PAGES div GROW_SIZE * GROW_SIZE = MAX_PAGES" by (simp add: consts_def)
  have "free_mset ?q = mset [0 ..< num_pages ?q]" by (simp add: free_mset_def)
  then obtain p' where r: "init_grow (MAX_PAGES div GROW_SIZE) 0 ?q = (0, p')" "num_pages p' = MAX_PAGES"
      "free_mset p' = mset [0 ..< MAX_PAGES]" "page_ref p' = (\<lambda>_. 0)"
    using init_grow_ok [of ?q "MAX_PAGES div GROW_SIZE" 0] assms(1) m
    by (auto simp: NUM_GLOBAL_LISTS_def simp del: mset_upt)
  then have "pool_inv p'"
    by (intro pool_invI) (auto simp: count_upt simp del: mset_upt)
  then show ?thesis
    using r l by (simp add: dune_page_init_def Let_def in_use_def del: mset_upt)
qed

section \<open>Pages and addresses\<close>

lemma unat_dune_page2pa: "pg < MAX_PAGES \<Longrightarrow> unat (dune_page2pa pg) = 2 ^ 32 + pg * 4096"
  using unat_pool_addr [of pg] by (simp add: dune_page2pa_def push_bit_eq_mult PGSIZE_def)

lemma pg_aligned_dune_page2pa [simp]: "pg < MAX_PAGES \<Longrightarrow> pg_aligned (dune_page2pa pg)"
  by (simp add: pg_aligned_iff unat_dune_page2pa dvd_add)

lemma dune_page2pa_inject:
  "pg < MAX_PAGES \<Longrightarrow> pg' < MAX_PAGES \<Longrightarrow> dune_page2pa pg = dune_page2pa pg' \<longleftrightarrow> pg = pg'"
  by (simp add: word_eq_unat unat_dune_page2pa)

lemma dune_pa2page_nat:
  assumes "PAGEBASE \<le> pa"
  shows "dune_pa2page pa = (unat pa - 2 ^ 32) div 4096"
  using assms by (simp add: dune_pa2page_def unat_shiftr unat_sub PAGEBASE_def)

lemma dune_pa2page_page2pa [simp]: "pg < MAX_PAGES \<Longrightarrow> dune_pa2page (dune_page2pa pg) = pg"
  by (subst dune_pa2page_nat) (simp_all add: word_le_nat_alt unat_dune_page2pa PAGEBASE_def)

lemma dune_page_isfrompool_nat:
  assumes "num_pages p \<le> MAX_PAGES"
  shows "dune_page_isfrompool pa p \<longleftrightarrow> 2 ^ 32 \<le> unat pa \<and> unat pa < 2 ^ 32 + num_pages p * 4096"
proof -
  have "unat (PAGEBASE + of_nat (num_pages p) * PGSIZE) = 2 ^ 32 + num_pages p * 4096"
    using assms by (simp add: consts_def unat_word_ariths unat_of_nat_small)
  then show ?thesis
    by (simp add: dune_page_isfrompool_def word_le_nat_alt word_less_nat_alt PAGEBASE_def)
qed

lemma isfrompool_page2pa:
  "num_pages p \<le> MAX_PAGES \<Longrightarrow> pg < MAX_PAGES \<Longrightarrow> dune_page_isfrompool (dune_page2pa pg) p \<longleftrightarrow> pg < num_pages p"
  by (simp add: dune_page_isfrompool_nat unat_dune_page2pa)

lemma isfrompool_pa2page:
  assumes "num_pages p \<le> MAX_PAGES" "dune_page_isfrompool pa p"
  shows "dune_pa2page pa < num_pages p" "dune_page2pa (dune_pa2page pa) = PGADDR pa"
proof -
  have r: "2 ^ 32 \<le> unat pa" "unat pa < 2 ^ 32 + num_pages p * 4096"
    using assms by (simp_all add: dune_page_isfrompool_nat)
  have q: "dune_pa2page pa = (unat pa - 2 ^ 32) div 4096"
    using r(1) by (intro dune_pa2page_nat) (simp add: word_le_nat_alt PAGEBASE_def)
  show lt: "dune_pa2page pa < num_pages p"
    unfolding q using r by (simp add: div_less_iff_less_mult)
  obtain k where k: "unat pa = 2 ^ 32 + k" using r(1) le_Suc_ex by blast
  have "(4294967296 + k) mod 4096 = k mod 4096"
    using mod_mult_self1 [of k 1048576 4096] by (simp add: add.commute)
  then have "unat (PGADDR pa) = 2 ^ 32 + k div 4096 * 4096"
    using k minus_mod_eq_div_mult [of k 4096] by (simp add: unat_PGADDR)
  moreover have "unat (dune_page2pa (dune_pa2page pa)) = 2 ^ 32 + k div 4096 * 4096"
    using lt assms(1) unat_dune_page2pa [of "dune_pa2page pa"] by (simp add: q k)
  ultimately show "dune_page2pa (dune_pa2page pa) = PGADDR pa"
    by (simp add: word_eq_unat)
qed

end
