(* ===== verification/Page_Walk.thy ===== *)
theory Page_Walk
  imports Page_Pool
begin

text \<open>
  The page-table walks and the lookup of \<open>libdune/vm.c\<close>, over the state of the library: guest
  physical memory (which the library reads at the address it has in the tables, the XXX PA == VA of
  the source), the page pool, the root and the log of TLB flushes.

  A callback receives the address of the entry, the virtual address and the level, and the struct
  behind its \<open>arg\<close> pointer together with the state; it returns the int of the C function.
\<close>

unbundle bit_operations_syntax

section \<open>State\<close>

datatype tlb_op = Flush_All | Flush_One u64

record dune =
  mem :: memory
  pool :: page_pool
  pgroot :: u64
  tlb_log :: "tlb_op list"

type_synonym 'a page_walk_cb = "u64 \<Rightarrow> u64 \<Rightarrow> nat \<Rightarrow> 'a \<times> dune \<Rightarrow> (int \<times> 'a \<times> dune) option"

definition wr :: "u64 \<Rightarrow> u64 \<Rightarrow> dune \<Rightarrow> dune" where
  "wr a v s = s\<lparr>mem := (mem s)(a := v)\<rparr>"

definition dune_flush_tlb :: "dune \<Rightarrow> dune" where
  "dune_flush_tlb s = s\<lparr>tlb_log := tlb_log s @ [Flush_All]\<rparr>"

definition dune_flush_tlb_one :: "u64 \<Rightarrow> dune \<Rightarrow> dune" where
  "dune_flush_tlb_one a s = s\<lparr>tlb_log := tlb_log s @ [Flush_One a]\<rparr>"

section \<open>Pages for tables\<close>

text \<open>The address of a fresh page, 0 for NULL.\<close>

definition alloc_page :: "dune \<Rightarrow> (u64 \<times> dune) option" where
  "alloc_page s = do {
     (pg, p) \<leftarrow> dune_page_alloc (pool s);
     Some (case pg of None \<Rightarrow> 0 | Some pg \<Rightarrow> dune_page2pa pg, s\<lparr>pool := p\<rparr>)
   }"

definition put_page :: "u64 \<Rightarrow> dune \<Rightarrow> dune option" where
  "put_page page s = do {
     p \<leftarrow> dune_page_put (dune_pa2page page) (pool s);
     Some (s\<lparr>pool := p\<rparr>)
   }"

text \<open>\<open>memset(t, 0, PGSIZE)\<close> and the store of the entry that points to it.\<close>

definition install_table :: "u64 \<Rightarrow> u64 \<Rightarrow> dune \<Rightarrow> dune" where
  "install_table pte t s =
     s\<lparr>mem := (memset_page t 0 (mem s))(pte := PTE_ADDR t OR PTE_DEF_FLAGS)\<rparr>"

section \<open>The walks\<close>

primrec walk_loop :: "(nat \<Rightarrow> 's \<Rightarrow> (int \<times> 's) option) \<Rightarrow> nat list \<Rightarrow> 's \<Rightarrow> (int \<times> 's) option" where
  "walk_loop f [] s = Some (0, s)"
| "walk_loop f (i # is) s = do {
     (ret, s) \<leftarrow> f i s;
     if ret \<noteq> 0 then Some (ret, s) else walk_loop f is s
   }"

definition base_va :: "nat \<Rightarrow> u64 \<Rightarrow> u64" where
  "base_va level start_va = start_va AND NOT (PDADDR (level + 1) 1 - 1)"

text \<open>The branch for an absent table: allocate it, or \<open>-ENOMEM\<close>.\<close>

definition walk_fill :: "u64 \<Rightarrow> 'a \<times> dune \<Rightarrow> (int \<times> 'a \<times> dune) option" where
  "walk_fill pte ws = do {
     (new_pte, s) \<leftarrow> alloc_page (snd ws);
     Some (if new_pte = 0 then (- ENOMEM, fst ws, s)
           else (0, fst ws, install_table pte new_pte s))
   }"

primrec page_walk ::
    "'a page_walk_cb \<Rightarrow> int \<Rightarrow> nat \<Rightarrow> u64 \<Rightarrow> u64 \<Rightarrow> u64 \<Rightarrow> 'a \<times> dune \<Rightarrow> (int \<times> 'a \<times> dune) option" where
  "page_walk cb create 0 dir start_va end_va ws =
     walk_loop (\<lambda>i ws.
         let cur_va = base_va 0 start_va + PDADDR 0 i;
             pte = ent dir i
         in if create = CREATE_NORMAL \<or> mem (snd ws) pte \<noteq> 0 then cb pte cur_va 0 ws
            else Some (0, ws))
       [PDX 0 start_va ..< Suc (PDX 0 end_va)] ws"
| "page_walk cb create (Suc l) dir start_va end_va ws =
     walk_loop (\<lambda>i ws.
         let level = Suc l;
             cur_va = base_va level start_va + PDADDR level i;
             pte = ent dir i
         in if level = 1 \<and> (create = CREATE_BIG \<or> pte_big (mem (snd ws) pte)) then
              cb pte cur_va level ws
            else if level = 2 \<and> (create = CREATE_BIG_1GB \<or> pte_big (mem (snd ws) pte)) then
              cb pte cur_va level ws
            else if \<not> pte_present (mem (snd ws) pte) \<and> create = CREATE_NONE then Some (0, ws)
            else do {
              (ret, ws) \<leftarrow> (if \<not> pte_present (mem (snd ws) pte) then walk_fill pte ws
                            else Some (0, ws));
              if ret \<noteq> 0 then Some (ret, ws)
              else
                let n_start_va = (if i = PDX level start_va then start_va else cur_va);
                    n_end_va = (if i = PDX level end_va then end_va
                                else cur_va + PDADDR level 1 - 1)
                in page_walk cb create l (PTE_ADDR (mem (snd ws) pte)) n_start_va n_end_va ws
            })
       [PDX (Suc l) start_va ..< Suc (PDX (Suc l) end_va)] ws"

text \<open>The assertion on \<open>level\<close> fails for no recursive call once it held at the first one.\<close>

definition dune_vm_page_walk_at ::
    "u64 \<Rightarrow> u64 \<Rightarrow> u64 \<Rightarrow> 'a page_walk_cb \<Rightarrow> nat \<Rightarrow> int \<Rightarrow> 'a \<times> dune \<Rightarrow> (int \<times> 'a \<times> dune) option" where
  "dune_vm_page_walk_at dir start_va end_va cb level create ws = do {
     ensure (level \<le> NPTLVLS);
     page_walk cb create level dir start_va end_va ws
   }"

text \<open>
  The batch variant hands a whole last-level table to a second callback when the range covers it.
\<close>

primrec page_walk_batch ::
    "'a page_walk_cb \<Rightarrow> 'a page_walk_cb \<Rightarrow> int \<Rightarrow> nat \<Rightarrow> u64 \<Rightarrow> u64 \<Rightarrow> u64 \<Rightarrow> 'a \<times> dune \<Rightarrow>
     (int \<times> 'a \<times> dune) option" where
  "page_walk_batch cb cb2 create 0 dir start_va end_va ws = (
     if PDX 0 start_va = 0 \<and> PDX 0 end_va + 1 = NPTENTRIES then
       cb2 dir (base_va 0 start_va + PDADDR 0 0) 0 ws
     else
       walk_loop (\<lambda>i ws.
           let cur_va = base_va 0 start_va + PDADDR 0 i;
               pte = ent dir i
           in if create = CREATE_NORMAL \<or> mem (snd ws) pte \<noteq> 0 then cb pte cur_va 0 ws
              else Some (0, ws))
         [PDX 0 start_va ..< Suc (PDX 0 end_va)] ws)"
| "page_walk_batch cb cb2 create (Suc l) dir start_va end_va ws =
     walk_loop (\<lambda>i ws.
         let level = Suc l;
             cur_va = base_va level start_va + PDADDR level i;
             pte = ent dir i
         in if level = 1 \<and> (create = CREATE_BIG \<or> pte_big (mem (snd ws) pte)) then
              cb pte cur_va level ws
            else if level = 2 \<and> (create = CREATE_BIG_1GB \<or> pte_big (mem (snd ws) pte)) then
              cb pte cur_va level ws
            else if \<not> pte_present (mem (snd ws) pte) \<and> create = CREATE_NONE then Some (0, ws)
            else do {
              (ret, ws) \<leftarrow> (if \<not> pte_present (mem (snd ws) pte) then walk_fill pte ws
                            else Some (0, ws));
              if ret \<noteq> 0 then Some (ret, ws)
              else
                let n_start_va = (if i = PDX level start_va then start_va else cur_va);
                    n_end_va = (if i = PDX level end_va then end_va
                                else cur_va + PDADDR level 1 - 1)
                in page_walk_batch cb cb2 create l (PTE_ADDR (mem (snd ws) pte))
                     n_start_va n_end_va ws
            })
       [PDX (Suc l) start_va ..< Suc (PDX (Suc l) end_va)] ws"

definition dune_vm_page_walk ::
    "u64 \<Rightarrow> u64 \<Rightarrow> u64 \<Rightarrow> 'a page_walk_cb \<Rightarrow> 'a \<times> dune \<Rightarrow> (int \<times> 'a \<times> dune) option" where
  "dune_vm_page_walk root start_va end_va cb ws =
     dune_vm_page_walk_at root start_va end_va cb 3 CREATE_NONE ws"

definition dune_vm_page_walk_fill ::
    "u64 \<Rightarrow> u64 \<Rightarrow> u64 \<Rightarrow> 'a page_walk_cb \<Rightarrow> int \<Rightarrow> 'a \<times> dune \<Rightarrow> (int \<times> 'a \<times> dune) option" where
  "dune_vm_page_walk_fill root start_va end_va cb create ws =
     dune_vm_page_walk_at root start_va end_va cb 3 create ws"

text \<open>The level argument of the batch entry point is ignored by the code: it always starts at 3.\<close>

definition dune_vm_page_walk_batch ::
    "u64 \<Rightarrow> u64 \<Rightarrow> u64 \<Rightarrow> 'a page_walk_cb \<Rightarrow> 'a page_walk_cb \<Rightarrow> nat \<Rightarrow> 'a \<times> dune \<Rightarrow>
     (int \<times> 'a \<times> dune) option" where
  "dune_vm_page_walk_batch dir start_va end_va cb cb2 level ws =
     page_walk_batch cb cb2 CREATE_NONE 3 dir start_va end_va ws"

section \<open>Lookup\<close>

text \<open>
  The allocating branch, the same at the three upper levels: a NULL page would be written through
  by \<open>memset\<close>, a fault. The result is the table, with \<open>*created\<close> set.
\<close>

definition lookup_create :: "u64 \<Rightarrow> dune \<Rightarrow> (u64 \<times> dune) option" where
  "lookup_create pte s = do {
     (t, s) \<leftarrow> alloc_page s;
     ensure (t \<noteq> 0);
     Some (t, install_table pte t s)
   }"

text \<open>
  The result: return value, \<open>*created\<close>, \<open>*pte_out\<close> if it was written, and the state.
\<close>

type_synonym lookup_res = "int \<times> bool \<times> u64 option \<times> dune"

definition lookup_pde :: "u64 \<Rightarrow> u64 \<Rightarrow> bool \<Rightarrow> bool \<Rightarrow> dune \<Rightarrow> lookup_res option" where
  "lookup_pde pde va create created s = (
     let e = mem s (ent pde (PDX 1 va)) in
     if \<not> pte_present e then
       if \<not> create then Some (- ENOENT, created, None, s)
       else do {
         (pte, s) \<leftarrow> lookup_create (ent pde (PDX 1 va)) s;
         Some (0, True, Some (ent pte (PDX 0 va)), s)
       }
     else if pte_big e then Some (0, created, Some (ent pde (PDX 1 va)), s)
     else Some (0, created, Some (ent (PTE_ADDR e) (PDX 0 va)), s))"

definition lookup_pdpte :: "u64 \<Rightarrow> u64 \<Rightarrow> bool \<Rightarrow> bool \<Rightarrow> dune \<Rightarrow> lookup_res option" where
  "lookup_pdpte pdpte va create created s = (
     let e = mem s (ent pdpte (PDX 2 va)) in
     if \<not> pte_present e then
       if \<not> create then Some (- ENOENT, created, None, s)
       else do {
         (pde, s) \<leftarrow> lookup_create (ent pdpte (PDX 2 va)) s;
         lookup_pde pde va create True s
       }
     else if pte_big e then Some (0, created, Some (ent pdpte (PDX 2 va)), s)
     else lookup_pde (PTE_ADDR e) va create created s)"

definition dune_vm_lookup_internal ::
    "u64 \<Rightarrow> u64 \<Rightarrow> bool \<Rightarrow> bool \<Rightarrow> dune \<Rightarrow> lookup_res option" where
  "dune_vm_lookup_internal root va create created s = (
     let e = mem s (ent root (PDX 3 va)) in
     if \<not> pte_present e then
       if \<not> create then Some (- ENOENT, created, None, s)
       else do {
         (pdpte, s) \<leftarrow> lookup_create (ent root (PDX 3 va)) s;
         lookup_pdpte pdpte va create True s
       }
     else lookup_pdpte (PTE_ADDR e) va create created s)"

definition dune_vm_lookup :: "u64 \<Rightarrow> u64 \<Rightarrow> bool \<Rightarrow> dune \<Rightarrow> lookup_res option" where
  "dune_vm_lookup root va create s = dune_vm_lookup_internal root va create False s"

definition dune_vm_lookup2 :: "u64 \<Rightarrow> u64 \<Rightarrow> bool \<Rightarrow> bool \<Rightarrow> dune \<Rightarrow> lookup_res option" where
  "dune_vm_lookup2 root va create created s = dune_vm_lookup_internal root va create created s"

section \<open>The walk over page numbers\<close>

text \<open>
  A virtual address is its upper 16 bits, a 36-bit page number and an offset; the index at level
  \<open>l\<close> of page number \<open>n\<close> is \<open>pidx l n\<close>, and \<open>slot l n i\<close> is the
  first page number of entry \<open>i\<close> in the level-\<open>l\<close> table that covers \<open>n\<close>.
  \<open>nwalk\<close> is the walk in these terms, the reference that the word arithmetic of
  \<^const>\<open>page_walk\<close> is proved equal to.
\<close>

definition vpn :: "u64 \<Rightarrow> nat" where
  "vpn va = unat va div 4096 mod 0x1000000000"

definition hi16 :: "u64 \<Rightarrow> nat" where
  "hi16 va = unat va div 0x1000000000000"

definition va_of :: "nat \<Rightarrow> nat \<Rightarrow> u64" where
  "va_of h n = of_nat (h * 0x1000000000000 + n * 4096)"

definition pidx :: "nat \<Rightarrow> nat \<Rightarrow> nat" where
  "pidx l n = n div 512 ^ l mod 512"

definition slot :: "nat \<Rightarrow> nat \<Rightarrow> nat \<Rightarrow> nat" where
  "slot l n i = (n div 512 ^ Suc l * 512 + i) * 512 ^ l"

primrec nwalk ::
    "'a page_walk_cb \<Rightarrow> int \<Rightarrow> nat \<Rightarrow> nat \<Rightarrow> u64 \<Rightarrow> nat \<Rightarrow> nat \<Rightarrow> 'a \<times> dune \<Rightarrow> (int \<times> 'a \<times> dune) option" where
  "nwalk cb create h 0 dir a b ws =
     walk_loop (\<lambda>i ws.
         if create = CREATE_NORMAL \<or> mem (snd ws) (ent dir i) \<noteq> 0 then cb (ent dir i) (va_of h (slot 0 a i)) 0 ws
            else Some (0, ws))
       [pidx 0 a ..< Suc (pidx 0 b)] ws"
| "nwalk cb create h (Suc l) dir a b ws =
     walk_loop (\<lambda>i ws.
            if Suc l = 1 \<and> (create = CREATE_BIG \<or> pte_big (mem (snd ws) (ent dir i))) then
              cb (ent dir i) (va_of h (slot (Suc l) a i)) (Suc l) ws
            else if Suc l = 2 \<and> (create = CREATE_BIG_1GB \<or> pte_big (mem (snd ws) (ent dir i))) then
              cb (ent dir i) (va_of h (slot (Suc l) a i)) (Suc l) ws
            else if \<not> pte_present (mem (snd ws) (ent dir i)) \<and> create = CREATE_NONE then Some (0, ws)
            else do {
              (ret, ws) \<leftarrow> (if \<not> pte_present (mem (snd ws) (ent dir i)) then walk_fill (ent dir i) ws
                            else Some (0, ws));
              if ret \<noteq> 0 then Some (ret, ws)
              else
                 nwalk cb create h l (PTE_ADDR (mem (snd ws) (ent dir i))) 
                    (if i = pidx (Suc l) a then a else slot (Suc l) a i)
                    (if i = pidx (Suc l) b then b else slot (Suc l) a i + 512 ^ Suc l - 1) ws
            })
       [pidx (Suc l) a ..< Suc (pidx (Suc l) b)] ws"

section \<open>Addresses in parts\<close>

lemma pow512: "(512::nat) ^ l = 2 ^ (9 * l)"
  by (simp add: power_mult)

lemma hi16_less: "hi16 va < 0x10000"
  using unat_less_exp [of va] by (simp add: hi16_def div_less_iff_less_mult)
lemma vpn_less: "vpn va < 0x1000000000" by (simp add: vpn_def)

lemma unat_va_parts: "unat va = hi16 va * 0x1000000000000 + vpn va * 4096 + unat va mod 4096"
proof -
  have "unat va div 4096 div 0x1000000000 = hi16 va" by (simp add: hi16_def div_mult2_eq [symmetric])
  then have "unat va div 4096 = hi16 va * 0x1000000000 + vpn va"
    using div_mult_mod_eq [of "unat va div 4096" "0x1000000000"] by (simp add: vpn_def)
  then show ?thesis using div_mult_mod_eq [of "unat va" 4096] by (simp add: algebra_simps)
qed

lemma unat_va_of: "h < 0x10000 \<Longrightarrow> n < 0x1000000000 \<Longrightarrow> unat (va_of h n) = h * 0x1000000000000 + n * 4096"
  unfolding va_of_def by (rule unat_of_nat_small) simp

lemma parts_unique:
  assumes "unat va = h * 0x1000000000000 + n * 4096 + r" "n < 0x1000000000" "r < 4096"
  shows "hi16 va = h" "vpn va = n"
proof -
  have d: "unat va div 4096 = h * 0x1000000000 + n"
    using assms by (simp add: div_add1_eq)
  show "vpn va = n" using assms(2) by (simp add: vpn_def d)
  have "hi16 va = unat va div 4096 div 0x1000000000" by (simp add: hi16_def div_mult2_eq [symmetric])
  then show "hi16 va = h" using assms(2) by (simp add: d)
qed

lemma vpn_va_of [simp]: "h < 0x10000 \<Longrightarrow> n < 0x1000000000 \<Longrightarrow> vpn (va_of h n) = n"
  and hi16_va_of [simp]: "h < 0x10000 \<Longrightarrow> n < 0x1000000000 \<Longrightarrow> hi16 (va_of h n) = h"
  using parts_unique [of "va_of h n" h n 0] by (simp_all add: unat_va_of)

lemma PDX_vpn:
  assumes "l \<le> 3" shows "PDX l va = pidx l (vpn va)"
proof -
  have m: "(0x1ff :: u64) = mask 9" by (simp add: mask_eq_exp_minus_1)
  have "PDX l va = unat va div 2 ^ (12 + 9 * l) mod 512"
    unfolding PDX_def PDSHIFT_def m by (simp add: unat_and_mask unat_shiftr)
  also have "\<dots> = unat va div 4096 div 512 ^ l mod 512"
    by (simp add: power_add div_mult2_eq pow512)
  also have "\<dots> = vpn va div 512 ^ l mod 512"
  proof -
    have "0x1000000000 = (512::nat) ^ l * 512 * 512 ^ (3 - l)"
      using assms by (auto simp: le_Suc_eq numeral_3_eq_3 power_add [symmetric])
    then show ?thesis
      unfolding vpn_def by (simp only: mod_div_mod)
  qed
  finally show ?thesis by (simp add: pidx_def)
qed

lemma PDADDR_mask: "PDADDR n 1 - 1 = mask (12 + 9 * n)"
  by (simp add: PDADDR_def PDSHIFT_def mask_eq_exp_minus_1 push_bit_eq_mult)

lemma slot_div:
  assumes "i < 512" shows "slot l n i div 512 ^ Suc l = n div 512 ^ Suc l" "pidx l (slot l n i) = i"
   "slot l n i div 512 ^ l = n div 512 ^ Suc l * 512 + i"
proof -
  show s: "slot l n i div 512 ^ l = n div 512 ^ Suc l * 512 + i" by (simp add: slot_def)
  show "pidx l (slot l n i) = i" using assms by (simp add: pidx_def s)
  have "slot l n i div 512 ^ Suc l = slot l n i div 512 ^ l div 512" by (simp add: div_mult2_eq [symmetric] mult.commute)
  then show "slot l n i div 512 ^ Suc l = n div 512 ^ Suc l" using assms by (simp add: s)
qed

lemma exp36_split: "l \<le> 3 \<Longrightarrow> (0x1000000000::nat) = 512 ^ (3 - l) * 512 ^ Suc l"
  by (auto simp: power_add [symmetric] le_Suc_eq numeral_3_eq_3)

lemma slot_less:
  assumes "n < 0x1000000000" "l \<le> 3" "i < 512"
  shows "slot l n i + 512 ^ l \<le> 0x1000000000"
proof -
  have e: "(0x1000000000::nat) = 512 ^ (3 - l) * 512 ^ Suc l"
    by (rule exp36_split [OF assms(2)])
  have "n div 512 ^ Suc l < 512 ^ (3 - l)"
    using assms(1) unfolding e by (simp add: less_mult_imp_div_less)
  then have "n div 512 ^ Suc l * 512 + i + 1 \<le> 512 ^ (3 - l) * 512"
    using assms(3) by linarith
  then have "(n div 512 ^ Suc l * 512 + i + 1) * 512 ^ l \<le> 512 ^ (3 - l) * 512 * 512 ^ l"
    by (rule mult_le_mono1)
  then show ?thesis unfolding e by (simp add: slot_def algebra_simps)
qed

lemma len_num64: "LENGTH(64) = 64" by simp

lemma unat_PDADDR:
  assumes "l \<le> 3" "i \<le> 512"
  shows "unat (PDADDR l i) = i * 512 ^ l * 4096"
proof -
  have "(512::nat) ^ l \<le> 512 ^ 3" using assms(1) by (intro power_increasing) auto
  then have "i * 512 ^ l * 4096 \<le> 512 * 512 ^ 3 * 4096"
    using assms(2) by (intro mult_le_mono) auto
  then have "i * 512 ^ l * 4096 < 2 ^ 64" by simp
  moreover have "PDADDR l i = of_nat (i * 512 ^ l * 4096)"
    by (simp add: PDADDR_def PDSHIFT_def push_bit_eq_mult power_add pow512 algebra_simps)
  ultimately show ?thesis
    by (metis unat_of_nat_small len_num64)
qed

lemma unat_base_va:
  assumes "l \<le> 3"
  shows "unat (base_va l va) = hi16 va * 0x1000000000000 + vpn va div 512 ^ Suc l * 512 ^ Suc l * 4096"
proof -
  let ?K = "(512::nat) ^ Suc l"
  have k: "(2::nat) ^ (12 + 9 * Suc l) = 4096 * ?K" by (simp add: power_add pow512)
  have d: "unat va div 4096 = hi16 va * 0x1000000000 + vpn va"
    by (subst unat_va_parts) (simp add: div_add1_eq)
  have "unat va div (4096 * ?K) = (hi16 va * 512 ^ (3 - l) * ?K + vpn va) div ?K"
    unfolding div_mult2_eq d by (simp only: exp36_split [OF assms] mult.assoc)
  also have "\<dots> = hi16 va * 512 ^ (3 - l) + vpn va div ?K"
    by (rule div_mult_self3) simp
  finally have "unat va div (4096 * ?K) = hi16 va * 512 ^ (3 - l) + vpn va div ?K" .
  moreover have "unat (base_va l va) = unat va div (4096 * ?K) * (4096 * ?K)"
    unfolding base_va_def Suc_eq_plus1 [symmetric] PDADDR_mask k [symmetric] by (rule unat_and_not_mask)
  moreover have "hi16 va * 512 ^ (3 - l) * (4096 * ?K) = hi16 va * 0x1000000000000"
    using exp36_split [OF assms] by (simp add: algebra_simps)
  ultimately show ?thesis by (simp add: algebra_simps)
qed

lemma cur_va_eq:
  assumes "l \<le> 3" "i < 512"
  shows "base_va l va + PDADDR l i = va_of (hi16 va) (slot l (vpn va) i)"
proof -
  have b: "slot l (vpn va) i < 0x1000000000"
    using slot_less [OF vpn_less assms, of va] by (metis add_lessD1 le_eq_less_or_eq less_add_same_cancel1 order_less_le_trans zero_less_numeral zero_less_power)
  have "unat (base_va l va) + unat (PDADDR l i) = hi16 va * 0x1000000000000 + slot l (vpn va) i * 4096"
    using assms by (simp add: unat_base_va unat_PDADDR slot_def algebra_simps)
  moreover have "hi16 va * 0x1000000000000 + slot l (vpn va) i * 4096 < 2 ^ 64"
    using hi16_less [of va] b by simp
  ultimately show ?thesis
    by (simp add: word_eq_unat unat_va_of hi16_less b unat_word_ariths(1))
qed

lemma end_va_parts:
  assumes "l \<le> 3" "h < 0x10000" "n + 512 ^ l \<le> 0x1000000000"
  shows "vpn (va_of h n + PDADDR l 1 - 1) = n + 512 ^ l - 1" "hi16 (va_of h n + PDADDR l 1 - 1) = h"
proof -
  have pos: "0 < (512::nat) ^ l" by simp
  have n: "n < 0x1000000000" using assms(3) pos by linarith
  have e: "va_of h n + PDADDR l 1 - 1 = va_of h n + (PDADDR l 1 - 1)" by simp
  have "unat (PDADDR l 1 - 1) = 512 ^ l * 4096 - 1"
    using unat_PDADDR [OF assms(1), of 1] pos by (subst unat_sub) (simp_all add: word_le_nat_alt)
  moreover have "h * 0x1000000000000 + n * 4096 + (512 ^ l * 4096 - 1) < 2 ^ 64"
    using assms pos by (simp add: algebra_simps)
  ultimately have "unat (va_of h n + PDADDR l 1 - 1) = h * 0x1000000000000 + n * 4096 + (512 ^ l * 4096 - 1)"
    unfolding e by (simp add: unat_word_ariths(1) unat_va_of assms n)
  also have "\<dots> = h * 0x1000000000000 + (n + 512 ^ l - 1) * 4096 + 4095"
    using pos by (cases "(512::nat) ^ l") (simp_all add: algebra_simps)
  finally have u: "unat (va_of h n + PDADDR l 1 - 1) = h * 0x1000000000000 + (n + 512 ^ l - 1) * 4096 + 4095" .
  have "n + 512 ^ l - 1 < 0x1000000000" using assms(3) pos by linarith
  from parts_unique [OF u this]
  show "vpn (va_of h n + PDADDR l 1 - 1) = n + 512 ^ l - 1" "hi16 (va_of h n + PDADDR l 1 - 1) = h"
    by simp_all
qed

lemma walk_loop_cong [fundef_cong]:
  assumes "xs = ys" "s = t" "\<And>i s. i \<in> set ys \<Longrightarrow> f i s = g i s"
  shows "walk_loop f xs s = walk_loop g ys t"
proof -
  have "walk_loop f ys s = walk_loop g ys s" for s
    using assms(3) by (induction ys arbitrary: s) (auto intro!: Option.bind_cong)
  then show ?thesis using assms by simp
qed

lemma pidx_less [simp]: "pidx l n < 512" by (simp add: pidx_def)

lemma upt_pidx: "i \<in> set [m ..< Suc (pidx l n)] \<Longrightarrow> i < 512"
  using pidx_less [of l n] by (auto simp del: pidx_less)

lemma slot_less36:
  assumes "n < 0x1000000000" "l \<le> 3" "i < 512"
  shows "slot l n i < 0x1000000000"
proof -
  have "0 < (512::nat) ^ l" by simp
  then show ?thesis using slot_less [OF assms] by linarith
qed

lemma page_walk_nwalk:
  assumes "l \<le> 3"
  shows "page_walk cb create l dir sva eva ws = nwalk cb create (hi16 sva) l dir (vpn sva) (vpn eva) ws"
  using assms
proof (induction l arbitrary: dir sva eva ws)
  case 0
  show ?case
    unfolding page_walk.simps nwalk.simps PDX_vpn [OF 0]
    by (rule walk_loop_cong [OF refl refl]) (simp only: Let_def cur_va_eq [OF 0 upt_pidx])
next
  case (Suc l)
  have key: "page_walk cb create l d
      (if i = pidx (Suc l) (vpn sva) then sva else va_of (hi16 sva) (slot (Suc l) (vpn sva) i))
      (if i = pidx (Suc l) (vpn eva) then eva
       else va_of (hi16 sva) (slot (Suc l) (vpn sva) i) + PDADDR (Suc l) 1 - 1) ws =
     nwalk cb create (hi16 sva) l d
      (if i = pidx (Suc l) (vpn sva) then vpn sva else slot (Suc l) (vpn sva) i)
      (if i = pidx (Suc l) (vpn eva) then vpn eva
       else slot (Suc l) (vpn sva) i + 512 ^ Suc l - 1) ws"
    if i: "i < 512" for d i ws
  proof -
    have l: "l \<le> 3" using Suc.prems by simp
    let ?N = "slot (Suc l) (vpn sva) i"
    note e1 = vpn_va_of [OF hi16_less slot_less36 [OF vpn_less Suc.prems i]]
    note e2 = hi16_va_of [OF hi16_less slot_less36 [OF vpn_less Suc.prems i]]
    note e3 = end_va_parts(1) [OF Suc.prems hi16_less slot_less [OF vpn_less Suc.prems i]]
    show ?thesis
      unfolding Suc.IH [OF l] if_distrib [of vpn] if_distrib [of hi16] e1 e2 e3
      by (simp only: if_cancel)
  qed
  show ?case
    unfolding page_walk.simps nwalk.simps PDX_vpn [OF Suc.prems]
    by (rule walk_loop_cong [OF refl refl])
      (simp only: Let_def PDX_vpn [OF Suc.prems] cur_va_eq [OF Suc.prems upt_pidx] key [OF upt_pidx])
qed

end
