(* ===== verification/Page_View.thy ===== *)
theory Page_View
  imports Page_Walk
begin

text \<open>
  What a page table means: the view \<open>pview\<close> gives for every page number the level and the
  value of the entry that decides it (level 0 and value 0 where there is no table). A ghost map
  \<open>T\<close> records which pages are tables, with the level and the region each one translates;
  \<open>pt_wf\<close> says that memory agrees with it. Two lemmas carry every proof about the tables: a
  write to a leaf entry changes the view of exactly the pages of that entry, and the installation
  of an empty table changes no view at all.
\<close>

unbundle bit_operations_syntax

fun pt_leaf :: "memory \<Rightarrow> nat \<Rightarrow> u64 \<Rightarrow> nat \<Rightarrow> (nat \<times> u64) option" where
  "pt_leaf m 0 d n = Some (0, ent d (pidx 0 n))"
| "pt_leaf m (Suc l) d n = (
     let e = m (ent d (pidx (Suc l) n)) in
     if Suc l \<le> 2 \<and> pte_big e then Some (Suc l, ent d (pidx (Suc l) n))
     else if pte_present e then pt_leaf m l (PTE_ADDR e) n
     else None)"

definition pview :: "memory \<Rightarrow> u64 \<Rightarrow> nat \<Rightarrow> nat \<times> u64" where
  "pview m root n = (case pt_leaf m 3 root n of None \<Rightarrow> (0, 0) | Some (l, a) \<Rightarrow> (l, m a))"

type_synonym tables = "u64 \<rightharpoonup> nat \<times> nat"

definition is_leaf :: "nat \<Rightarrow> u64 \<Rightarrow> bool" where
  "is_leaf l e \<longleftrightarrow> l = 0 \<or> l \<le> 2 \<and> pte_big e"

definition links :: "memory \<Rightarrow> nat \<Rightarrow> u64 \<Rightarrow> nat \<Rightarrow> u64 \<Rightarrow> bool" where
  "links m l d i d' \<longleftrightarrow>
     \<not> is_leaf l (m (ent d i)) \<and> pte_present (m (ent d i)) \<and> PTE_ADDR (m (ent d i)) = d'"

definition tab_wf :: "tables \<Rightarrow> u64 \<Rightarrow> bool" where
  "tab_wf T root \<longleftrightarrow>
     T root = Some (3, 0) \<and>
     (\<forall>d l b. T d = Some (l, b) \<longrightarrow> pg_aligned d \<and> (l < 3 \<or> l = 3 \<and> b = 0)) \<and>
     (\<forall>d d' x. T d = Some x \<longrightarrow> T d' = Some x \<longrightarrow> d = d')"

definition pt_wf :: "tables \<Rightarrow> u64 \<Rightarrow> memory \<Rightarrow> bool" where
  "pt_wf T root m \<longleftrightarrow> tab_wf T root \<and>
     (\<forall>d l b i d'. T d = Some (l, b) \<longrightarrow> i < 512 \<longrightarrow> links m l d i d' \<longrightarrow> T d' = Some (l - 1, b * 512 + i)) \<and>
     (\<forall>d' l b. T d' = Some (l, b) \<longrightarrow> l < 3 \<longrightarrow>
        (\<exists>d. T d = Some (Suc l, b div 512) \<and> links m (Suc l) d (b mod 512) d'))"

definition view_at :: "memory \<Rightarrow> nat \<Rightarrow> u64 \<Rightarrow> nat \<Rightarrow> nat \<times> u64" where
  "view_at m l d n = (case pt_leaf m l d n of None \<Rightarrow> (0, 0) | Some (l, a) \<Rightarrow> (l, m a))"

definition new_table :: "u64 \<Rightarrow> u64 \<Rightarrow> memory \<Rightarrow> memory" where
  "new_table pte t m = (memset_page t 0 m)(pte := PTE_ADDR t OR PTE_DEF_FLAGS)"

text \<open>
  The tables taken from the pool are in use there, so that the allocator never hands one out again;
  \<open>vm_ok\<close> is the invariant of the library's page-table state.
\<close>

definition tables_used :: "tables \<Rightarrow> page_pool \<Rightarrow> bool" where
  "tables_used T p \<longleftrightarrow>
     (\<forall>d x. T d = Some x \<longrightarrow> PAGEBASE \<le> d \<longrightarrow> d < PAGEBASE_END \<longrightarrow> dune_pa2page d \<in> in_use p)"

definition vm_ok :: "tables \<Rightarrow> u64 \<Rightarrow> dune \<Rightarrow> bool" where
  "vm_ok T root s \<longleftrightarrow>
     pt_wf T root (mem s) \<and> pool_inv (pool s) \<and> thread_ok (pool s) \<and> tables_used T (pool s)"

text \<open>
  The effect of a walk over the page numbers from \<open>a\<close> to \<open>b\<close>: an entry that covers a page of
  the range is related to its old value by \<open>R\<close>, unless the walk skips it (an empty last-level
  entry, when nothing is created) or stopped with an error before it; every other entry is kept.
\<close>

definition covered :: "nat \<Rightarrow> nat \<Rightarrow> nat \<Rightarrow> nat \<Rightarrow> bool" where
  "covered a b l n \<longleftrightarrow> a div 512 ^ l \<le> n div 512 ^ l \<and> n div 512 ^ l \<le> b div 512 ^ l"

definition visited :: "int \<Rightarrow> nat \<Rightarrow> u64 \<Rightarrow> bool" where
  "visited create l e \<longleftrightarrow> create = CREATE_NORMAL \<or> 0 < l \<or> e \<noteq> 0"

type_synonym leaf_rel = "nat \<Rightarrow> u64 \<Rightarrow> u64 \<Rightarrow> u64 \<Rightarrow> bool"

definition leaf_post :: "leaf_rel \<Rightarrow> int \<Rightarrow> nat \<Rightarrow> nat \<Rightarrow> nat \<times> u64 \<Rightarrow> nat \<times> u64 \<Rightarrow> bool" where
  "leaf_post R create h n x y \<longleftrightarrow> fst y = fst x \<and>
     (if visited create (fst x) (snd x)
      then R (fst x) (va_of h (n div 512 ^ fst x * 512 ^ fst x)) (snd x) (snd y)
      else snd y = snd x)"

definition effect ::
    "leaf_rel \<Rightarrow> int \<Rightarrow> nat \<Rightarrow> u64 \<Rightarrow> nat \<Rightarrow> nat \<Rightarrow> int \<Rightarrow> memory \<Rightarrow> memory \<Rightarrow> bool" where
  "effect R create h root a b ret m m' \<longleftrightarrow> (\<forall>n < 0x1000000000.
     if covered a b (fst (pview m root n)) n
     then leaf_post R create h n (pview m root n) (pview m' root n) \<or>
          ret \<noteq> 0 \<and> pview m' root n = pview m root n
     else pview m' root n = pview m root n)"

section \<open>Paths\<close>

lemma pidx_split: "n div 512 ^ Suc l * 512 + pidx l n = n div 512 ^ l"
  using div_mult_mod_eq [of "n div 512 ^ l" 512] by (simp add: pidx_def div_mult2_eq [symmetric] mult.commute)

lemma div_pow_Suc: "n div 512 ^ l div 512 = n div 512 ^ Suc l" for n :: nat
  by (simp add: div_mult2_eq [symmetric] mult.commute)

lemma wf_root: "tab_wf T root \<Longrightarrow> T root = Some (3, 0)"
  unfolding tab_wf_def by blast

lemma wf_aligned: "tab_wf T root \<Longrightarrow> T d = Some (l, b) \<Longrightarrow> pg_aligned d"
  unfolding tab_wf_def by blast

lemma wf_level: "tab_wf T root \<Longrightarrow> T d = Some (l, b) \<Longrightarrow> l \<le> 3"
  unfolding tab_wf_def by (metis le_eq_less_or_eq)

lemma wf_inj: "tab_wf T root \<Longrightarrow> T d = Some x \<Longrightarrow> T d' = Some x \<Longrightarrow> d = d'"
  unfolding tab_wf_def by blast

lemma wf_tab: "pt_wf T root m \<Longrightarrow> tab_wf T root"
  by (simp add: pt_wf_def)

lemma wf_child: "\<lbrakk>pt_wf T root m; T d = Some (l, b); i < 512; links m l d i d'\<rbrakk> \<Longrightarrow> T d' = Some (l - 1, b * 512 + i)"
  unfolding pt_wf_def by blast

lemma wf_linked: "\<lbrakk>pt_wf T root m; T d' = Some (l, b); l < 3\<rbrakk> \<Longrightarrow>
   \<exists>d. T d = Some (Suc l, b div 512) \<and> links m (Suc l) d (b mod 512) d'"
  unfolding pt_wf_def by blast

lemma pt_leaf_Suc:
  "pt_leaf m (Suc l) d n = (
     if is_leaf (Suc l) (m (ent d (pidx (Suc l) n))) then Some (Suc l, ent d (pidx (Suc l) n))
     else if pte_present (m (ent d (pidx (Suc l) n))) then pt_leaf m l (PTE_ADDR (m (ent d (pidx (Suc l) n)))) n
     else None)"
  by (simp add: is_leaf_def Let_def)

declare pt_leaf.simps(2) [simp del]

lemma pt_leaf_cases:
  obtains (leaf) "is_leaf (Suc l) (m (ent d (pidx (Suc l) n)))" "pt_leaf m (Suc l) d n = Some (Suc l, ent d (pidx (Suc l) n))"
  | (link) d' where "links m (Suc l) d (pidx (Suc l) n) d'" "pt_leaf m (Suc l) d n = pt_leaf m l d' n"
  | (absent) "\<not> is_leaf (Suc l) (m (ent d (pidx (Suc l) n)))" "\<not> pte_present (m (ent d (pidx (Suc l) n)))"
      "pt_leaf m (Suc l) d n = None"
  unfolding links_def pt_leaf_Suc by metis

lemma wf_child_pidx:
  assumes "pt_wf T root m" "T d = Some (Suc l, n div 512 ^ Suc (Suc l))" "links m (Suc l) d (pidx (Suc l) n) d'"
  shows "T d' = Some (l, n div 512 ^ Suc l)"
  using wf_child [OF assms(1,2) pidx_less assms(3)] unfolding pidx_split by simp

lemma pt_leaf_struct:
  assumes "pt_wf T root m" "T d = Some (l, n div 512 ^ Suc l)" "pt_leaf m l d n = Some (l', a)"
  shows "\<exists>d'. T d' = Some (l', n div 512 ^ Suc l') \<and> a = ent d' (pidx l' n) \<and> is_leaf l' (m a)"
  using assms(2,3)
proof (induction l arbitrary: d)
  case 0
  then show ?case by (auto simp: is_leaf_def)
next
  case (Suc l)
  show ?case
  proof (cases rule: pt_leaf_cases [of l m d n])
    case leaf
    then show ?thesis using Suc.prems by auto
  next
    case (link d')
    then show ?thesis using Suc wf_child_pidx [OF assms(1) Suc.prems(1)] by auto
  next
    case absent
    then show ?thesis using Suc.prems by simp
  qed
qed

lemma pt_leaf_reach:
  assumes "pt_wf T root m" "T d = Some (l, n div 512 ^ Suc l)" "n < 0x1000000000"
  shows "pt_leaf m 3 root n = pt_leaf m l d n"
  using assms(2)
proof (induction "3 - l" arbitrary: l d)
  case 0
  have l: "l = 3" using 0 wf_level [OF wf_tab [OF assms(1)] 0(2)] by simp
  have "n div 512 ^ Suc 3 = 0" using assms(3) by simp
  then have "T d = Some (3, 0)" using 0 l by (simp del: power_Suc)
  then have "d = root" using wf_inj [OF wf_tab [OF assms(1)]] wf_root [OF wf_tab [OF assms(1)]] by blast
  then show ?case using l by simp
next
  case (Suc k)
  then have "l < 3" by simp
  obtain d' where d': "T d' = Some (Suc l, n div 512 ^ Suc (Suc l))" "links m (Suc l) d' (pidx (Suc l) n) d"
    using wf_linked [OF assms(1) Suc.prems \<open>l < 3\<close>] unfolding div_pow_Suc pidx_def by blast
  have "pt_leaf m 3 root n = pt_leaf m (Suc l) d' n"
    using Suc.hyps(1) [of "Suc l" d'] Suc.hyps(2) d'(1) by simp
  then show ?case
    using d'(2) by (simp add: pt_leaf_Suc links_def)
qed

lemma links_leaf_write:
  assumes "pg_aligned d" "i < 512" "is_leaf l0 (m (ent d i))" "is_leaf l0 v"
    and "pg_aligned e" "j < 512" "e = d \<Longrightarrow> l = l0"
  shows "links (m(ent d i := v)) l e j x \<longleftrightarrow> links m l e j x"
    and "is_leaf l ((m(ent d i := v)) (ent e j)) \<longleftrightarrow> is_leaf l (m (ent e j))"
  using assms by (auto simp: links_def)

lemma pt_wf_leaf_write:
  assumes wf: "pt_wf T root m" and d: "T d = Some (l0, b0)" "i < 512"
    and leaf: "is_leaf l0 (m (ent d i))" "is_leaf l0 v"
  shows "pt_wf T root (m(ent d i := v))"
proof -
  have "links (m(ent d i := v)) l e j x \<longleftrightarrow> links m l e j x" if "T e = Some (l, b)" "j < 512" for e l b j x
  proof (rule links_leaf_write(1) [where m = m])
    show "pg_aligned d" "pg_aligned e" using wf_aligned [OF wf_tab [OF wf]] d(1) that(1) by auto
    show "l = l0" if "e = d" using that \<open>T e = Some (l, b)\<close> d(1) by simp
  qed (use d leaf that in auto)
  then show ?thesis
    using wf unfolding pt_wf_def by (metis mod_less_divisor zero_less_numeral)
qed

lemma pt_leaf_leaf_write:
  assumes wf: "pt_wf T root m" and d: "T d = Some (l0, b0)" "i < 512"
    and leaf: "is_leaf l0 (m (ent d i))" "is_leaf l0 v"
    and e: "T e = Some (l, n div 512 ^ Suc l)"
  shows "pt_leaf (m(ent d i := v)) l e n = pt_leaf m l e n"
  using e
proof (induction l arbitrary: e)
  case (Suc l)
  note al = wf_aligned [OF wf_tab [OF wf]]
  note lw = links_leaf_write [where m = m, OF al [OF d(1)] d(2) leaf al [OF Suc.prems] pidx_less]
  have ll: "e = d \<Longrightarrow> Suc l = l0" using Suc.prems d(1) by auto
  show ?case
  proof (cases rule: pt_leaf_cases [of l m e n])
    case leaf
    then show ?thesis using lw(2) [OF ll] by (simp add: pt_leaf_Suc)
  next
    case (link d')
    then have "links (m(ent d i := v)) (Suc l) e (pidx (Suc l) n) d'" using lw(1) [OF ll] by simp
    then show ?thesis using link Suc.IH [OF wf_child_pidx [OF wf Suc.prems link(1)]] by (simp add: pt_leaf_Suc links_def)
  next
    case absent
    then have "ent e (pidx (Suc l) n) \<noteq> ent d i"
      using leaf(1) ll al [OF d(1)] al [OF Suc.prems] d(2) by auto
    then show ?thesis using absent by (simp add: pt_leaf_Suc)
  qed
qed simp

lemma pview_leaf_write:
  assumes wf: "pt_wf T root m" and d: "T d = Some (l0, b0)" "i < 512"
    and leaf: "is_leaf l0 (m (ent d i))" "is_leaf l0 v" and n: "n < 0x1000000000"
  shows "pview (m(ent d i := v)) root n = (if n div 512 ^ l0 = b0 * 512 + i then (l0, v) else pview m root n)"
proof (cases "n div 512 ^ l0 = b0 * 512 + i")
  case True
  have i: "pidx l0 n = i" using True d(2) by (simp add: pidx_def)
  have "n div 512 ^ Suc l0 = b0" using True d(2) by (simp add: div_pow_Suc [symmetric] del: power_Suc)
  with d have e: "T d = Some (l0, n div 512 ^ Suc l0)" by simp
  have "pt_leaf m l0 d n = Some (l0, ent d i)"
    using leaf(1) i by (cases l0) (simp_all add: pt_leaf_Suc)
  then have "pt_leaf (m(ent d i := v)) 3 root n = Some (l0, ent d i)"
    using pt_leaf_reach [OF pt_wf_leaf_write [where m = m, OF wf d leaf] e n] pt_leaf_leaf_write [where m = m, OF wf d leaf e] by simp
  then show ?thesis using True by (simp add: pview_def)
next
  case False
  have r: "T root = Some (3, n div 512 ^ Suc 3)" using wf_root [OF wf_tab [OF wf]] n by simp
  have eq: "pt_leaf (m(ent d i := v)) 3 root n = pt_leaf m 3 root n"
    by (rule pt_leaf_leaf_write [where m = m, OF wf d leaf r])
  show ?thesis
  proof (cases "pt_leaf m 3 root n")
    case (Some la)
    obtain l a where la: "la = (l, a)" by (cases la)
    obtain d' where d': "T d' = Some (l, n div 512 ^ Suc l)" "a = ent d' (pidx l n)"
      using pt_leaf_struct [OF wf r] Some la by blast
    have "a \<noteq> ent d i"
    proof
      assume "a = ent d i"
      then have "d' = d" "pidx l n = i"
        using d' d(2) wf_aligned [OF wf_tab [OF wf]] d(1) by auto
      then show False using False d d' pidx_split [of n l] by auto
    qed
    then show ?thesis using False eq Some la by (simp add: pview_def)
  qed (use False eq in \<open>simp add: pview_def\<close>)
qed

lemma view_at_0: "view_at m 0 d n = (0, m (ent d (pidx 0 n)))"
  by (simp add: view_at_def)

lemma view_at_Suc:
  "view_at m (Suc l) d n = (
     if is_leaf (Suc l) (m (ent d (pidx (Suc l) n))) then (Suc l, m (ent d (pidx (Suc l) n)))
     else if pte_present (m (ent d (pidx (Suc l) n))) then view_at m l (PTE_ADDR (m (ent d (pidx (Suc l) n)))) n
     else (0, 0))"
  by (simp add: view_at_def pt_leaf_Suc)

lemma pview_view_at: "pview m root n = view_at m 3 root n"
  by (simp add: pview_def view_at_def)

lemma table_entry_bits:
  "pte_present (PTE_ADDR t OR PTE_DEF_FLAGS)" "\<not> pte_big (PTE_ADDR t OR PTE_DEF_FLAGS)"
  by (auto simp: pte_present_bit pte_big_bit PTE_DEF_FLAGS_def pte_bits)

lemma PTE_ADDR_table_entry: "PTE_ADDR (PTE_ADDR t OR PTE_DEF_FLAGS) = PTE_ADDR t"
  by (rule bit_word_eqI) (auto simp: PTE_DEF_FLAGS_def pte_bits)

lemma zero_entry: "\<not> pte_present 0" "\<not> pte_big 0"
  by (simp_all add: pte_present_bit pte_big_bit)

lemma new_table_cells:
  assumes "pg_aligned t" "pg_aligned d" "t \<noteq> d" "i < 512" "pg_aligned e" "j < 512"
  shows "new_table (ent d i) t m (ent e j) =
    (if e = d \<and> j = i then PTE_ADDR t OR PTE_DEF_FLAGS else if e = t then 0 else m (ent e j))"
  using assms by (simp add: new_table_def memset_page_def)

lemma new_table_wf:
  assumes wf: "pt_wf T root m" and d: "T d = Some (Suc l, b)" "i < 512"
    and absent: "\<not> is_leaf (Suc l) (m (ent d i))" "\<not> pte_present (m (ent d i))"
    and t: "pg_aligned t" "T t = None" "PTE_ADDR t = t"
  shows "pt_wf (T(t \<mapsto> (l, b * 512 + i))) root (new_table (ent d i) t m)"
proof -
  let ?T = "T(t \<mapsto> (l, b * 512 + i))" and ?m = "new_table (ent d i) t m"
  note tab = wf_tab [OF wf]
  have ald: "pg_aligned d" and l3: "l < 3" and ne: "t \<noteq> d"
    using wf_aligned [OF tab d(1)] wf_level [OF tab d(1)] d(1) t(2) by auto
  have fresh: "T e \<noteq> Some (l, b * 512 + i)" for e
  proof
    assume e: "T e = Some (l, b * 512 + i)"
    obtain d' where d': "T d' = Some (Suc l, (b * 512 + i) div 512)" "links m (Suc l) d' ((b * 512 + i) mod 512) e"
      using wf_linked [OF wf e l3] by blast
    then have "d' = d" using wf_inj [OF tab] d by simp
    then show False using d' d(2) absent by (simp add: links_def)
  qed
  have tabw: "tab_wf ?T root"
    using tab t l3 fresh unfolding tab_wf_def by (auto split: if_splits)
  have cells: "?m (ent e j) = (if e = d \<and> j = i then PTE_ADDR t OR PTE_DEF_FLAGS else if e = t then 0 else m (ent e j))"
    if "?T e = Some x" "j < 512" for e j x
    using new_table_cells [OF t(1) ald ne d(2) _ that(2)] wf_aligned [OF tabw] that(1) by (metis surj_pair)
  have lk: "links ?m k e j x \<longleftrightarrow> (if e = d \<and> j = i then k = Suc l \<and> x = t else e \<noteq> t \<and> links m k e j x)"
    if "?T e = Some (k, c)" "j < 512" for e j k c x
    using cells [OF that] that(1) d(1) ne t table_entry_bits [of t] PTE_ADDR_table_entry [of t] zero_entry
    by (auto simp: links_def is_leaf_def split: if_splits)
  show ?thesis
    unfolding pt_wf_def
  proof (intro conjI allI impI tabw)
    fix e k c j x
    assume "?T e = Some (k, c)" "j < 512" "links ?m k e j x"
    then show "?T x = Some (k - 1, c * 512 + j)"
      using lk [of e k c j x] wf_child [OF wf, of e k c j x] t(2) d(1) ne by (auto split: if_splits)
  next
    fix e k c
    assume e: "?T e = Some (k, c)" "k < 3"
    show "\<exists>d. ?T d = Some (Suc k, c div 512) \<and> links ?m (Suc k) d (c mod 512) e"
    proof (cases "e = t")
      case True
      then have "k = l" "c = b * 512 + i" using e by auto
      then show ?thesis using lk [of d "Suc l" b i t] d ne True by (intro exI [of _ d]) auto
    next
      case False
      then obtain d' where d': "T d' = Some (Suc k, c div 512)" "links m (Suc k) d' (c mod 512) e"
        using wf_linked [OF wf, of e k c] e by auto
      moreover have "d' \<noteq> t" using d' t by auto
      moreover have "\<not> (d' = d \<and> c mod 512 = i)" using d' absent by (auto simp: links_def)
      ultimately show ?thesis using lk [of d' "Suc k" "c div 512" "c mod 512" e] by (intro exI [of _ d']) auto
    qed
  qed
qed

lemma new_table_view_at:
  assumes wf: "pt_wf T root m" and d: "T d = Some (Suc l, b)" "i < 512"
    and absent: "\<not> is_leaf (Suc l) (m (ent d i))" "\<not> pte_present (m (ent d i))"
    and t: "pg_aligned t" "T t = None" "PTE_ADDR t = t"
    and e: "T e = Some (k, n div 512 ^ Suc k)"
  shows "view_at (new_table (ent d i) t m) k e n = view_at m k e n"
  using e
proof (induction k arbitrary: e)
  let ?m = "new_table (ent d i) t m"
  have ald: "pg_aligned d" and ne: "t \<noteq> d"
    using wf_aligned [OF wf_tab [OF wf] d(1)] d(1) t(2) by auto
  have cells: "?m (ent e j) = (if e = d \<and> j = i then PTE_ADDR t OR PTE_DEF_FLAGS else if e = t then 0 else m (ent e j))"
    if "pg_aligned e" "j < 512" for e j
    using new_table_cells [OF t(1) ald ne d(2) that] .
  have z: "view_at ?m k t n = (0, 0)" for k
    using cells [OF t(1)] ne zero_entry by (cases k) (auto simp: view_at_0 view_at_Suc is_leaf_def)
  { case 0
    then show ?case
      using cells [of e "pidx 0 n"] wf_aligned [OF wf_tab [OF wf] 0] d t by (auto simp: view_at_0) }
  { case (Suc k)
    have c: "?m (ent e (pidx (Suc k) n)) = (if e = d \<and> pidx (Suc k) n = i then PTE_ADDR t OR PTE_DEF_FLAGS else m (ent e (pidx (Suc k) n)))"
      using cells [of e "pidx (Suc k) n"] wf_aligned [OF wf_tab [OF wf] Suc.prems] Suc.prems t by auto
    show ?case
    proof (cases "e = d \<and> pidx (Suc k) n = i")
      case True
      then show ?thesis
        using c absent Suc.prems d(1) table_entry_bits [of t] z [of k] PTE_ADDR_table_entry [of t] t(3)
        by (simp add: view_at_Suc is_leaf_def)
    next
      case False
      then have "?m (ent e (pidx (Suc k) n)) = m (ent e (pidx (Suc k) n))" using c by auto
      then show ?thesis
        using Suc.IH [OF wf_child_pidx [OF wf Suc.prems]] by (auto simp: view_at_Suc links_def)
    qed }
qed

lemma new_table_pview:
  assumes wf: "pt_wf T root m" and d: "T d = Some (Suc l, b)" "i < 512"
    and absent: "\<not> is_leaf (Suc l) (m (ent d i))" "\<not> pte_present (m (ent d i))"
    and t: "pg_aligned t" "T t = None" "PTE_ADDR t = t" and n: "n < 0x1000000000"
  shows "pview (new_table (ent d i) t m) root n = pview m root n"
proof -
  have "T root = Some (3, n div 512 ^ Suc 3)" using wf_root [OF wf_tab [OF wf]] n by simp
  from new_table_view_at [where m = m, OF wf d absent t this] show ?thesis by (simp add: pview_view_at)
qed

lemma effect_refl_skip:
  "(\<And>n. n < 0x1000000000 \<Longrightarrow> pview m' root n = pview m root n) \<Longrightarrow>
   (\<And>n. n < 0x1000000000 \<Longrightarrow> covered a b (fst (pview m root n)) n \<Longrightarrow> \<not> visited create (fst (pview m root n)) (snd (pview m root n)))
   \<Longrightarrow> effect R create h root a b ret m m'"
  by (simp add: effect_def leaf_post_def)

lemma effect_none:
  "(\<And>n. n < 0x1000000000 \<Longrightarrow> pview m' root n = pview m root n) \<Longrightarrow> ret \<noteq> 0 \<Longrightarrow> effect R create h root a b ret m m'"
  by (simp add: effect_def)

lemma effect_levels:
  "effect R create h root a b ret m m' \<Longrightarrow> n < 0x1000000000 \<Longrightarrow> fst (pview m' root n) = fst (pview m root n)"
  unfolding effect_def leaf_post_def by (metis (no_types, lifting))

lemma effect_frame:
  "effect R create h root a b ret m m' \<Longrightarrow> n < 0x1000000000 \<Longrightarrow> \<not> covered a b (fst (pview m root n)) n \<Longrightarrow>
   pview m' root n = pview m root n"
  unfolding effect_def by metis

lemma effect_cov:
  "effect R create h root a b ret m m' \<Longrightarrow> n < 0x1000000000 \<Longrightarrow> covered a b (fst (pview m root n)) n \<Longrightarrow>
   leaf_post R create h n (pview m root n) (pview m' root n) \<or> ret \<noteq> 0 \<and> pview m' root n = pview m root n"
  unfolding effect_def by metis

lemma effect_cong_pre:
  "(\<And>n. n < 0x1000000000 \<Longrightarrow> pview m1 root n = pview m root n) \<Longrightarrow>
   effect R create h root a b ret m1 m' \<Longrightarrow> effect R create h root a b ret m m'"
  by (simp add: effect_def cong: if_cong)

lemma effect_stop:
  assumes "effect R create h root a d ret m m'" "ret \<noteq> 0" "d \<le> b"
  shows "effect R create h root a b ret m m'"
proof -
  have "covered a d l n \<Longrightarrow> covered a b l n" for l n
    using assms(3) div_le_mono [of d b "512 ^ l"] by (auto simp: covered_def)
  then show ?thesis
    using effect_cov [OF assms(1)] effect_frame [OF assms(1)] assms(2) unfolding effect_def by (metis (full_types))
qed

lemma dvd_Suc_div: "k dvd Suc d \<Longrightarrow> Suc d div k = Suc (d div k)" for k d :: nat
  by (auto simp: div_Suc)

lemma effect_trans:
  assumes e1: "effect R create h root a d 0 m m1" and e2: "effect R create h root (Suc d) b ret m1 m2"
    and ord: "a \<le> d" "Suc d \<le> b"
    and al: "\<And>n. n < 0x1000000000 \<Longrightarrow> covered a b (fst (pview m root n)) n \<Longrightarrow> 512 ^ fst (pview m root n) dvd Suc d"
  shows "effect R create h root a b ret m m2"
  unfolding effect_def
proof (intro allI impI)
  fix n :: nat assume n: "n < 0x1000000000"
  let ?l = "fst (pview m root n)"
  let ?K = "(512::nat) ^ ?l"
  have l1: "fst (pview m1 root n) = ?l" by (rule effect_levels [OF e1 n])
  have mono: "a div ?K \<le> d div ?K" "d div ?K \<le> Suc d div ?K" "Suc d div ?K \<le> b div ?K"
    using ord by (simp_all add: div_le_mono)
  show "if covered a b ?l n then leaf_post R create h n (pview m root n) (pview m2 root n) \<or>
          ret \<noteq> 0 \<and> pview m2 root n = pview m root n else pview m2 root n = pview m root n"
  proof (cases "covered a b ?l n")
    case cov: True
    have s: "Suc d div ?K = Suc (d div ?K)" by (rule dvd_Suc_div [OF al [OF n cov]])
    show ?thesis
    proof (cases "n div ?K \<le> d div ?K")
      case True
      then have c1: "covered a d ?l n" "\<not> covered (Suc d) b ?l n"
        using cov s by (auto simp: covered_def)
      have "pview m2 root n = pview m1 root n"
        using effect_frame [OF e2 n] c1(2) l1 by simp
      then show ?thesis using effect_cov [OF e1 n c1(1)] cov by simp
    next
      case False
      then have c2: "\<not> covered a d ?l n" "covered (Suc d) b ?l n"
        using cov s by (auto simp: covered_def)
      have "pview m1 root n = pview m root n"
        using effect_frame [OF e1 n c2(1)] .
      then show ?thesis using effect_cov [OF e2 n] c2(2) cov by simp
    qed
  next
    case False
    then have "\<not> covered a d ?l n" "\<not> covered (Suc d) b ?l n"
      using mono unfolding covered_def by linarith+
    then show ?thesis using False effect_frame [OF e1 n] effect_frame [OF e2 n] l1 by simp
  qed
qed

lemma pview_region:
  assumes wf: "pt_wf T root m" and d: "T d = Some (l, n div 512 ^ Suc l)" and n: "n < 0x1000000000"
  shows "pview m root n = view_at m l d n" "fst (pview m root n) \<le> l"
proof -
  show *: "pview m root n = view_at m l d n"
    using pt_leaf_reach [OF wf d n] by (simp add: pview_def view_at_def)
  have "fst (view_at m l d n) \<le> l" for d
    by (induction l arbitrary: d) (auto simp: view_at_0 view_at_Suc le_SucI)
  then show "fst (pview m root n) \<le> l" by (simp add: *)
qed

lemma pview_same_leaf:
  assumes wf: "pt_wf T root m" and n: "n < 0x1000000000" "n' < 0x1000000000"
    and eq: "n' div 512 ^ fst (pview m root n) = n div 512 ^ fst (pview m root n)"
  shows "pview m root n' = pview m root n"
proof (cases "pt_leaf m 3 root n")
  case None
  then show ?thesis using eq by (simp add: pview_def)
next
  case (Some la)
  obtain l a where la: "la = (l, a)" by (cases la)
  have r: "T root = Some (3, n div 512 ^ Suc 3)" using wf_root [OF wf_tab [OF wf]] n by simp
  obtain d where d: "T d = Some (l, n div 512 ^ Suc l)" "a = ent d (pidx l n)" "is_leaf l (m a)"
    using pt_leaf_struct [OF wf r] Some la by blast
  have e: "n' div 512 ^ l = n div 512 ^ l" using eq Some la by (simp add: pview_def)
  then have "n' div 512 ^ Suc l = n div 512 ^ Suc l" "pidx l n' = pidx l n"
    by (simp_all add: div_pow_Suc [symmetric] pidx_def del: power_Suc)
  then have "pt_leaf m 3 root n' = pt_leaf m l d n'"
    using pt_leaf_reach [OF wf _ n(2)] d(1) by simp
  also have "\<dots> = Some (l, a)"
    using d \<open>pidx l n' = pidx l n\<close> by (cases l) (simp_all add: pt_leaf_Suc)
  finally show ?thesis using Some la by (simp add: pview_def)
qed

lemma covered_block:
  assumes wf: "pt_wf T root m" and lv: "fst (pview m root a) \<le> k"
    and ab: "b div 512 ^ k = a div 512 ^ k" "a < 0x1000000000"
    and n: "n < 0x1000000000" and c: "covered a b (fst (pview m root n)) n"
  shows "n div 512 ^ k = a div 512 ^ k"
proof (cases "fst (pview m root n) \<le> k")
  let ?l = "fst (pview m root n)"
  case True
  then obtain j where j: "k = ?l + j" using le_iff_add by blast
  have x: "x div 512 ^ k = x div 512 ^ ?l div 512 ^ j" for x :: nat
    unfolding j power_add by (rule div_mult2_eq)
  have "a div 512 ^ ?l div 512 ^ j \<le> n div 512 ^ ?l div 512 ^ j"
    "n div 512 ^ ?l div 512 ^ j \<le> b div 512 ^ ?l div 512 ^ j"
    using c by (simp_all add: covered_def div_le_mono)
  then show ?thesis using ab(1) unfolding x by linarith
next
  let ?l = "fst (pview m root n)"
  case False
  then obtain j where j: "?l = k + j" by (metis le_iff_add nat_le_linear)
  have "x div 512 ^ ?l = x div 512 ^ k div 512 ^ j" for x :: nat
    unfolding j power_add by (rule div_mult2_eq)
  then have "a div 512 ^ ?l = n div 512 ^ ?l"
    using c ab unfolding covered_def by (metis le_antisym)
  then have "pview m root a = pview m root n" by (intro pview_same_leaf [OF wf n ab(2)])
  then show ?thesis using lv False by simp
qed

lemma covered_region:
  assumes wf: "pt_wf T root m" and d: "T d = Some (l, P)"
    and ab: "a div 512 ^ Suc l = P" "b div 512 ^ Suc l = P" "a < 0x1000000000"
    and n: "n < 0x1000000000" and c: "covered a b (fst (pview m root n)) n"
  shows "fst (pview m root n) \<le> l \<and> n div 512 ^ Suc l = P"
proof -
  have "fst (pview m root a) \<le> Suc l"
    using pview_region(2) [OF wf _ ab(3), of d l] d ab(1) by simp
  moreover have "b div 512 ^ Suc l = a div 512 ^ Suc l"
    using ab by (simp del: power_Suc)
  ultimately have "n div 512 ^ Suc l = P"
    using covered_block [OF wf _ _ ab(3) n c] ab(1) by metis
  then show ?thesis using pview_region(2) [OF wf _ n, of d l] d by simp
qed

end
