(* ===== verification/Walk_Effect.thy ===== *)
theory Walk_Effect
  imports Page_View
begin

text \<open>
  The contract between a page walk and its callback. \<open>leaf_callback\<close> is the interface: the
  callback may fail, may take references or pages from the pool, and otherwise rewrites the one
  entry it was given, by a relation \<open>R\<close>. Its client is the walk: on a well-formed table, every
  entry of the range is rewritten exactly once, nothing else changes, missing tables are allocated
  without disturbing anything, and the walk always returns.
\<close>

unbundle bit_operations_syntax

text \<open>One iteration of the loop of \<^const>\<open>nwalk\<close>, for all levels at once.\<close>

definition walk_slot ::
    "'a page_walk_cb \<Rightarrow> int \<Rightarrow> nat \<Rightarrow> nat \<Rightarrow> u64 \<Rightarrow> nat \<Rightarrow> nat \<Rightarrow> nat \<Rightarrow> 'a \<times> dune \<Rightarrow> (int \<times> 'a \<times> dune) option" where
  "walk_slot cb create h l dir a b i ws =
            (if l = 0 then if create = CREATE_NORMAL \<or> mem (snd ws) (ent dir i) \<noteq> 0 then cb (ent dir i) (va_of h (slot l a i)) l ws
              else Some (0, ws)
            else if l = 1 \<and> (create = CREATE_BIG \<or> pte_big (mem (snd ws) (ent dir i))) then
              cb (ent dir i) (va_of h (slot l a i)) l ws
            else if l = 2 \<and> (create = CREATE_BIG_1GB \<or> pte_big (mem (snd ws) (ent dir i))) then
              cb (ent dir i) (va_of h (slot l a i)) l ws
            else if \<not> pte_present (mem (snd ws) (ent dir i)) \<and> create = CREATE_NONE then Some (0, ws)
            else do {
              (ret, ws) \<leftarrow> (if \<not> pte_present (mem (snd ws) (ent dir i)) then walk_fill (ent dir i) ws
                            else Some (0, ws));
              if ret \<noteq> 0 then Some (ret, ws)
              else
                 nwalk cb create h (l - 1) (PTE_ADDR (mem (snd ws) (ent dir i)))
                    (if i = pidx l a then a else slot l a i)
                    (if i = pidx l b then b else slot l a i + 512 ^ l - 1) ws
            })"

text \<open>
  A walk that returns, keeps the invariant (for a larger set of tables) and has the effect
  \<^const>\<open>effect\<close>; the entries of a range have levels in \<open>L\<close>.
\<close>

definition walked ::
    "('a \<Rightarrow> bool) \<Rightarrow> leaf_rel \<Rightarrow> int \<Rightarrow> nat \<Rightarrow> u64 \<Rightarrow> nat \<Rightarrow> nat \<Rightarrow> dune \<Rightarrow>
     (int \<times> 'a \<times> dune) option \<Rightarrow> tables \<Rightarrow> bool" where
  "walked A R create h root a b s res T \<longleftrightarrow>
     (\<exists>ret x s' T'. res = Some (ret, x, s') \<and> A x \<and> vm_ok T' root s' \<and>
     T \<subseteq>\<^sub>m T' \<and> effect R create h root a b ret (mem s) (mem s'))"

definition levels_in :: "nat set \<Rightarrow> u64 \<Rightarrow> nat \<Rightarrow> nat \<Rightarrow> memory \<Rightarrow> bool" where
  "levels_in L root a b m \<longleftrightarrow>
     (\<forall>n < 0x1000000000. covered a b (fst (pview m root n)) n \<longrightarrow> fst (pview m root n) \<in> L)"

section \<open>Allocating tables\<close>


lemma vm_okD:
  assumes "vm_ok T root s"
  shows "pt_wf T root (mem s)" "pool_inv (pool s)" "thread_ok (pool s)" "tables_used T (pool s)" "tab_wf T root"
  using assms wf_tab by (auto simp: vm_ok_def)

lemma page_addr_bits: "pg < MAX_PAGES \<Longrightarrow> PTE_ADDR (dune_page2pa pg) = dune_page2pa pg"
proof -
  assume pg: "pg < MAX_PAGES"
  have u: "unat (dune_page2pa pg) < 2 ^ 52"
    using unat_dune_page2pa [OF pg] pg by (simp add: MAX_PAGES_def)
  have "\<not> bit (dune_page2pa pg) n" if "n < 12" for n
  proof -
    have "dune_page2pa pg AND mask 12 = 0"
      using pg_aligned_dune_page2pa [OF pg] by (simp add: word_eq_unat unat_and_mask pg_aligned_iff dvd_eq_mod_eq_0)
    then have "\<not> bit (dune_page2pa pg AND mask 12) n" by simp
    then show ?thesis using that by (auto simp: bit_simps)
  qed
  moreover have "\<not> bit (dune_page2pa pg) n" if "52 \<le> n" for n
  proof -
    have "drop_bit 52 (dune_page2pa pg) = 0"
      using u by (simp add: word_eq_unat unat_shiftr)
    then have "\<not> bit (drop_bit 52 (dune_page2pa pg)) (n - 52)" by simp
    then show ?thesis using that by (simp add: bit_simps)
  qed
  ultimately show ?thesis
    by (intro bit_word_eqI) (metis PTE_ADDR_bit not_le)
qed

lemma dune_page2pa_range: "pg < MAX_PAGES \<Longrightarrow> PAGEBASE \<le> dune_page2pa pg \<and> dune_page2pa pg < PAGEBASE_END \<and> dune_page2pa pg \<noteq> 0"
  using unat_dune_page2pa [of pg]
  by (auto simp: word_le_nat_alt word_less_nat_alt consts_def word_eq_unat)

lemma tables_used_mono: "tables_used T p \<Longrightarrow> in_use p \<subseteq> in_use p' \<Longrightarrow> tables_used T p'"
  unfolding tables_used_def by blast

lemma alloc_spec_in_use: "alloc_spec p r p' \<Longrightarrow> in_use p \<subseteq> in_use p'"
  by (auto simp: alloc_spec_def in_use_def split: option.splits)

lemma alloc_page_ok:
  assumes ok: "vm_ok T root s"
  obtains t s' where "alloc_page s = Some (t, s')" "mem s' = mem s" "vm_ok T root s'"
    "in_use (pool s) \<subseteq> in_use (pool s')"
    "t \<noteq> 0 \<Longrightarrow> pg_aligned t \<and> T t = None \<and> PTE_ADDR t = t \<and> dune_pa2page t \<in> in_use (pool s')"
proof -
  note d = vm_okD [OF ok]
  obtain r p' where r: "dune_page_alloc (pool s) = Some (r, p')" "alloc_spec (pool s) r p'" "thread_ok p'"
    using dune_page_alloc_total [OF d(2,3)] by blast
  have iu: "in_use (pool s) \<subseteq> in_use p'" by (rule alloc_spec_in_use [OF r(2)])
  have ok': "vm_ok T root (s\<lparr>pool := p'\<rparr>)"
    using d r tables_used_mono [OF d(4) iu] by (simp add: vm_ok_def alloc_spec_def)
  show thesis
  proof (cases r)
    case None
    then show thesis using that [of 0 "s\<lparr>pool := p'\<rparr>"] r ok' iu by (simp add: alloc_page_def)
  next
    case (Some pg)
    have pg: "pg < MAX_PAGES" "pg \<notin> in_use (pool s)" "pg \<in> in_use p'"
      using r(2) Some by (auto simp: alloc_spec_def pool_inv_def in_use_def)
    have "T (dune_page2pa pg) = None"
    proof (rule ccontr)
      assume "T (dune_page2pa pg) \<noteq> None"
      then have "dune_pa2page (dune_page2pa pg) \<in> in_use (pool s)"
        using d(4) dune_page2pa_range [OF pg(1)] unfolding tables_used_def by blast
      then show False using pg by simp
    qed
    then show thesis
      using that [of "dune_page2pa pg" "s\<lparr>pool := p'\<rparr>"] r ok' iu Some pg page_addr_bits
      by (simp add: alloc_page_def)
  qed
qed

lemma install_table_ok:
  assumes ok: "vm_ok T root s" and d: "T d = Some (Suc l, b)" "i < 512"
    and absent: "\<not> is_leaf (Suc l) (mem s (ent d i))" "\<not> pte_present (mem s (ent d i))"
    and t: "pg_aligned t" "T t = None" "PTE_ADDR t = t" "dune_pa2page t \<in> in_use (pool s)"
  shows "vm_ok (T(t \<mapsto> (l, b * 512 + i))) root (install_table (ent d i) t s)"
    and "\<And>n. n < 0x1000000000 \<Longrightarrow> pview (mem (install_table (ent d i) t s)) root n = pview (mem s) root n"
    and "links (mem (install_table (ent d i) t s)) (Suc l) d i t"
proof -
  note o = vm_okD [OF ok]
  have m: "mem (install_table (ent d i) t s) = new_table (ent d i) t (mem s)"
    by (simp add: install_table_def new_table_def)
  show "vm_ok (T(t \<mapsto> (l, b * 512 + i))) root (install_table (ent d i) t s)"
    using new_table_wf [where m = "mem s", OF o(1) d absent t(1-3)] o t(4)
    by (auto simp: vm_ok_def install_table_def new_table_def tables_used_def)
  show "\<And>n. n < 0x1000000000 \<Longrightarrow> pview (mem (install_table (ent d i) t s)) root n = pview (mem s) root n"
    using new_table_pview [where m = "mem s", OF o(1) d absent t(1-3)] by (simp add: m)
  show "links (mem (install_table (ent d i) t s)) (Suc l) d i t"
    using table_entry_bits [of t] PTE_ADDR_table_entry [of t] t(3)
    by (simp add: links_def install_table_def is_leaf_def)
qed

lemma walk_fill_ok:
  assumes ok: "vm_ok T root s" and d: "T d = Some (Suc l, b)" "i < 512"
    and absent: "\<not> is_leaf (Suc l) (mem s (ent d i))" "\<not> pte_present (mem s (ent d i))"
  obtains ret T' s' where "walk_fill (ent d i) (x, s) = Some (ret, x, s')"
    "vm_ok T' root s'" "T \<subseteq>\<^sub>m T'" "in_use (pool s) \<subseteq> in_use (pool s')"
    "\<And>n. n < 0x1000000000 \<Longrightarrow> pview (mem s') root n = pview (mem s) root n"
    "ret = 0 \<Longrightarrow> \<exists>t. links (mem s') (Suc l) d i t" "ret = 0 \<or> ret = - ENOMEM"
proof -
  obtain t s1 where a: "alloc_page s = Some (t, s1)" "mem s1 = mem s" "vm_ok T root s1"
      "in_use (pool s) \<subseteq> in_use (pool s1)"
      "t \<noteq> 0 \<Longrightarrow> pg_aligned t \<and> T t = None \<and> PTE_ADDR t = t \<and> dune_pa2page t \<in> in_use (pool s1)"
    using alloc_page_ok [OF ok] by metis
  show thesis
  proof (cases "t = 0")
    case True
    then show thesis using that [of "- ENOMEM" s1 T] a by (simp add: walk_fill_def ENOMEM_def)
  next
    case False
    then have t: "pg_aligned t" "T t = None" "PTE_ADDR t = t" "dune_pa2page t \<in> in_use (pool s1)" using a(5) by auto
    note i = install_table_ok [OF a(3) d absent [folded a(2)] t]
    have p: "pool (install_table (ent d i) t s1) = pool s1" by (simp add: install_table_def)
    have le: "T \<subseteq>\<^sub>m T(t \<mapsto> (l, b * 512 + i))" using t(2) by (auto simp: map_le_def)
    show thesis
      using a False i by (intro that [OF _ i(1) le]) (auto simp: walk_fill_def p)
  qed
qed

lemma block_bounds:
  fixes x k q :: nat
  assumes "0 < k"
  shows "(q * k + k - 1) div k = q" "x div k = q \<Longrightarrow> q * k \<le> x" "x div k = q \<Longrightarrow> x \<le> q * k + k - 1"
proof -
  have "q * k + k - 1 = q * k + (k - 1)" using assms by simp
  then show "(q * k + k - 1) div k = q" using assms div_mult_self3 [of k q "k - 1"] by simp
  show "q * k \<le> x" if "x div k = q" using that by auto
  show "x \<le> q * k + k - 1" if "x div k = q"
    using that assms dividend_less_div_times [of k x] by auto
qed

lemma nwalk_loop:
  "nwalk cb create h l dir a b ws = walk_loop (walk_slot cb create h l dir a b) [pidx l a ..< Suc (pidx l b)] ws"
  by (cases l) (simp_all only: nwalk.simps walk_slot_def [abs_def] refl if_True if_False nat.simps simp_thms diff_Suc_1)

lemma covered_mono: "covered c e l n \<Longrightarrow> a \<le> c \<Longrightarrow> e \<le> b \<Longrightarrow> covered a b l n"
  unfolding covered_def by (meson div_le_mono le_trans)

lemma levels_in_mono: "levels_in L root a b m \<Longrightarrow> a \<le> c \<Longrightarrow> e \<le> b \<Longrightarrow> levels_in L root c e m"
  unfolding levels_in_def using covered_mono by blast

lemma levels_in_effect:
  "levels_in L root a b m \<Longrightarrow> effect R create h root c e ret m m' \<Longrightarrow> levels_in L root a b m'"
  unfolding levels_in_def using effect_levels by metis

lemma walkedI:
  "res = Some (ret, x, s') \<Longrightarrow> A x \<Longrightarrow> vm_ok T' root s' \<Longrightarrow> T \<subseteq>\<^sub>m T' \<Longrightarrow> effect R create h root a b ret (mem s) (mem s') \<Longrightarrow>
   walked A R create h root a b s res T"
  unfolding walked_def by blast

section \<open>Results and simple invariants\<close>

lemma walk_loop_ret:
  assumes "\<And>i s r s'. f i s = Some (r, s') \<Longrightarrow> r \<in> Z" "walk_loop f is s = Some (r, s')" "0 \<in> Z"
  shows "r \<in> Z"
  using assms(2)
proof (induction "is" arbitrary: s)
  case Nil
  then show ?case using assms(3) by simp
next
  case (Cons i "is")
  then show ?case using assms(1) by (auto simp: bind_Some_iff split: if_splits)
qed

lemma page_walk_ret:
  assumes cb: "\<And>pte va l ws r ws'. cb pte va l ws = Some (r, ws') \<Longrightarrow> r \<in> Z" and z: "0 \<in> Z"
    and e: "create \<noteq> CREATE_NONE \<Longrightarrow> - ENOMEM \<in> Z"
  shows "page_walk cb create l dir sva eva ws = Some (r, ws') \<Longrightarrow> r \<in> Z"
proof (induction l arbitrary: dir sva eva ws r ws')
  case 0
  show ?case
    by (rule walk_loop_ret [OF _ 0 [unfolded page_walk.simps] z]) (use cb z in \<open>auto simp: Let_def split: if_splits\<close>)
next
  case (Suc l)
  have fill: "walk_fill p ws = Some (r, ws') \<Longrightarrow> create \<noteq> CREATE_NONE \<Longrightarrow> r \<in> Z" for p ws r and ws' :: "'a \<times> dune"
    using e z by (auto simp: walk_fill_def bind_Some_iff split: if_splits)
  show ?case
    by (rule walk_loop_ret [OF _ Suc.prems [unfolded page_walk.simps] z])
      (auto simp: Let_def bind_Some_iff z dest: cb fill Suc.IH split: if_splits)
qed

lemma walk_loop_inv:
  assumes "\<And>i s r s'. f i s = Some (r, s') \<Longrightarrow> I s \<Longrightarrow> I s'" "walk_loop f is s = Some (r, s')" "I s"
  shows "I s'"
  using assms(2,3)
proof (induction "is" arbitrary: s)
  case (Cons i "is")
  then show ?case using assms(1) by (auto simp: bind_Some_iff split: if_splits)
qed simp

text \<open>
  A predicate that the callback and the allocation of a table keep is kept by the whole walk.
\<close>

locale walk_invariant =
  fixes cb :: "'a page_walk_cb" and I :: "'a \<times> dune \<Rightarrow> bool"
  assumes cb_inv: "cb pte va l ws = Some (r, ws') \<Longrightarrow> I ws \<Longrightarrow> I ws'"
    and fill_inv: "walk_fill pte ws = Some (r, ws') \<Longrightarrow> I ws \<Longrightarrow> I ws'"
begin

lemma page_walk_inv: "page_walk cb create l dir sva eva ws = Some (r, ws') \<Longrightarrow> I ws \<Longrightarrow> I ws'"
proof (induction l arbitrary: dir sva eva ws r ws')
  case 0
  show ?case
    by (rule walk_loop_inv [where I = I, OF _ 0(1) [unfolded page_walk.simps] 0(2)])
      (auto simp: Let_def dest: cb_inv split: if_splits)
next
  case (Suc l)
  show ?case
    by (rule walk_loop_inv [where I = I, OF _ Suc.prems(1) [unfolded page_walk.simps] Suc.prems(2)])
      (auto simp: Let_def bind_Some_iff dest: cb_inv fill_inv Suc.IH split: if_splits)
qed

end

lemma fill_frame:
  assumes "walk_fill pte ws = Some (r, ws')"
  shows "tlb_log (snd ws') = tlb_log (snd ws)" "pgroot (snd ws') = pgroot (snd ws)"
  using assms by (auto simp: walk_fill_def alloc_page_def install_table_def bind_Some_iff split: if_splits)

lemma small_covered:
  assumes wf: "pt_wf T root m" and ab: "a \<le> b" "b < 0x1000000000" and n: "n < 0x1000000000"
    and small: "\<forall>n. a \<le> n \<longrightarrow> n \<le> b \<longrightarrow> fst (pview m root n) = 0"
  shows "covered a b (fst (pview m root n)) n \<longleftrightarrow> a \<le> n \<and> n \<le> b"
proof
  let ?l = "fst (pview m root n)"
  let ?K = "(512::nat) ^ ?l"
  assume c: "covered a b ?l n"
  define p where "p = max a (n div ?K * ?K)"
  have eq: "p div ?K = n div ?K"
  proof (cases "a \<le> n div ?K * ?K")
    case True
    then show ?thesis by (simp add: p_def)
  next
    case False
    then have "n div ?K \<le> a div ?K"
      using div_le_mono [of "n div ?K * ?K" a ?K] by simp
    then show ?thesis using c False by (simp add: p_def covered_def max_def)
  qed
  have "n div ?K * ?K \<le> b div ?K * ?K" using c by (simp add: covered_def)
  also have "\<dots> \<le> b" by simp
  finally have p: "a \<le> p" "p \<le> b" using ab by (simp_all add: p_def)
  then have "pview m root p = pview m root n"
    using pview_same_leaf [OF wf n _ eq] ab by simp
  then have "?l = 0" using small p by metis
  then show "a \<le> n \<and> n \<le> b" using c by (simp add: covered_def)
next
  assume "a \<le> n \<and> n \<le> b"
  then show "covered a b (fst (pview m root n)) n" using small by (simp add: covered_def)
qed

section \<open>The interface and its client\<close>

locale leaf_callback =
  fixes cb :: "'a page_walk_cb" and A :: "'a \<Rightarrow> bool" and L :: "nat set" and R :: leaf_rel
  assumes cb_run: "\<lbrakk>A x; pool_inv (pool s); thread_ok (pool s); l \<in> L\<rbrakk> \<Longrightarrow>
      \<exists>ret x' s'. cb pte va l (x, s) = Some (ret, x', s') \<and> A x' \<and>
        pool_inv (pool s') \<and> thread_ok (pool s') \<and> in_use (pool s) \<subseteq> in_use (pool s') \<and>
        (ret = 0 \<and> (\<exists>v. mem s' = (mem s)(pte := v) \<and> R l va (mem s pte) v) \<or>
         ret \<noteq> 0 \<and> mem s' = mem s)"
    and L_0: "0 \<in> L"
    and R_leaf: "\<lbrakk>l \<in> L; R l va e v; is_leaf l e\<rbrakk> \<Longrightarrow> is_leaf l v"
begin

lemma leaf_step:
  assumes ax: "A x" and ok: "vm_ok T root s" and d: "T d = Some (l, P)" "i < 512" and leaf: "is_leaf l (mem s (ent d i))"
    and l: "l \<in> L" and vis: "visited create l (mem s (ent d i))"
    and c: "c div 512 ^ l = P * 512 + i" "e div 512 ^ l = P * 512 + i" "c < 0x1000000000"
  shows "walked A R create h root c e s (cb (ent d i) (va_of h ((P * 512 + i) * 512 ^ l)) l (x, s)) T"
proof -
  note o = vm_okD [OF ok]
  obtain ret x' s' where r: "cb (ent d i) (va_of h ((P * 512 + i) * 512 ^ l)) l (x, s) = Some (ret, x', s')" "A x'"
      "pool_inv (pool s')" "thread_ok (pool s')" "in_use (pool s) \<subseteq> in_use (pool s')"
      "ret = 0 \<and> (\<exists>v. mem s' = (mem s)(ent d i := v) \<and> R l (va_of h ((P * 512 + i) * 512 ^ l)) (mem s (ent d i)) v) \<or>
       ret \<noteq> 0 \<and> mem s' = mem s"
    using cb_run [OF ax o(2,3) l, of "ent d i" "va_of h ((P * 512 + i) * 512 ^ l)"] by metis
  have used: "tables_used T (pool s')" by (rule tables_used_mono [OF o(4) r(5)])
  show ?thesis
  proof (cases "ret = 0")
    case False
    then have "vm_ok T root s'" using r used o by (simp add: vm_ok_def)
    moreover have "effect R create h root c e ret (mem s) (mem s')"
      using r False by (intro effect_none) auto
    ultimately show ?thesis by (rule walkedI [where A = A, OF r(1,2) _ map_le_refl])
  next
    case True
    then obtain v where v: "mem s' = (mem s)(ent d i := v)" "R l (va_of h ((P * 512 + i) * 512 ^ l)) (mem s (ent d i)) v"
      using r(6) by auto
    have lv: "is_leaf l v" by (rule R_leaf [OF l v(2) leaf])
    have ok': "vm_ok T root s'"
      using pt_wf_leaf_write [where m = "mem s", OF o(1) d leaf lv] v r used by (simp add: vm_ok_def)
    have view: "pview (mem s') root n = (if n div 512 ^ l = P * 512 + i then (l, v) else pview (mem s) root n)"
      and old: "pview (mem s) root n = (if n div 512 ^ l = P * 512 + i then (l, mem s (ent d i)) else pview (mem s) root n)"
      if "n < 0x1000000000" for n
      using pview_leaf_write [where m = "mem s", OF o(1) d leaf lv that]
        pview_leaf_write [where m = "mem s", OF o(1) d leaf leaf that] v(1) by simp_all
    have "effect R create h root c e ret (mem s) (mem s')"
      unfolding effect_def
    proof (intro allI impI)
      fix n :: nat assume n: "n < 0x1000000000"
      have lc: "fst (pview (mem s) root c) \<le> l" using old [OF c(3)] c(1) by simp
      show "if covered c e (fst (pview (mem s) root n)) n
         then leaf_post R create h n (pview (mem s) root n) (pview (mem s') root n) \<or>
              ret \<noteq> 0 \<and> pview (mem s') root n = pview (mem s) root n
         else pview (mem s') root n = pview (mem s) root n"
      proof (cases "n div 512 ^ l = P * 512 + i")
        case True
        then have "pview (mem s) root n = (l, mem s (ent d i))" "pview (mem s') root n = (l, v)"
          using old [OF n] view [OF n] by simp_all
        then show ?thesis using True c vis v(2) by (simp add: covered_def leaf_post_def)
      next
        case False
        then have "\<not> covered c e (fst (pview (mem s) root n)) n"
          using covered_block [OF o(1) lc _ c(3) n] c by auto
        then show ?thesis using view [OF n] False by simp
      qed
    qed
    then show ?thesis by (rule walkedI [where A = A, OF r(1,2) ok' map_le_refl])
  qed
qed

lemma descend:
  assumes ax: "A x" and ok: "vm_ok T root s" and d: "T dir = Some (Suc l, P)" "i < 512"
    and nl: "\<not> is_leaf (Suc l) (mem s (ent dir i))"
    and c: "c div 512 ^ Suc l = P * 512 + i" "e div 512 ^ Suc l = P * 512 + i" "c < 0x1000000000"
    and lev: "levels_in L root c e (mem s)"
    and rec: "\<And>d s T x. \<lbrakk>A x; vm_ok T root s; T d = Some (l, P * 512 + i); levels_in L root c e (mem s)\<rbrakk> \<Longrightarrow>
        walked A R create h root c e s (f d (x, s)) T"
  shows "walked A R create h root c e s
     (if \<not> pte_present (mem s (ent dir i)) \<and> create = CREATE_NONE then Some (0, x, s)
      else do {
        (ret, ws) \<leftarrow> (if \<not> pte_present (mem s (ent dir i)) then walk_fill (ent dir i) (x, s) else Some (0, x, s));
        if ret \<noteq> 0 then Some (ret, ws) else f (PTE_ADDR (mem (snd ws) (ent dir i))) ws
      }) T"
proof (cases "pte_present (mem s (ent dir i))")
  case True
  then have "T (PTE_ADDR (mem s (ent dir i))) = Some (l, P * 512 + i)"
    using wf_child [OF vm_okD(1) [OF ok] d, of "PTE_ADDR (mem s (ent dir i))"] nl by (simp add: links_def)
  then show ?thesis using True rec [OF ax ok _ lev] by simp
next
  case absent: False
  note o = vm_okD [OF ok]
  show ?thesis
  proof (cases "create = CREATE_NONE")
    case True
    have "\<not> visited create (fst (pview (mem s) root n)) (snd (pview (mem s) root n))"
      if n: "n < 0x1000000000" and cov: "covered c e (fst (pview (mem s) root n)) n" for n
    proof -
      have "c div 512 ^ Suc (Suc l) = P"
        using c(1) d(2) by (simp add: div_pow_Suc [symmetric] del: power_Suc)
      then have "fst (pview (mem s) root c) \<le> Suc l"
        using pview_region(2) [OF o(1) _ c(3), of dir "Suc l"] d by simp
      then have nb: "n div 512 ^ Suc l = P * 512 + i"
        using covered_block [OF o(1) _ _ c(3) n cov, of "Suc l"] c by simp
      then have "n div 512 ^ Suc (Suc l) = P" "pidx (Suc l) n = i"
        using d(2) by (simp_all add: div_pow_Suc [symmetric] pidx_def del: power_Suc)
      then have "pview (mem s) root n = (0, 0)"
        using pview_region(1) [OF o(1) _ n, of dir "Suc l"] d absent nl by (simp add: view_at_Suc)
      then show ?thesis using True by (simp add: visited_def consts_def)
    qed
    then have "effect R create h root c e 0 (mem s) (mem s)"
      by (intro effect_refl_skip) auto
    then show ?thesis using True absent by (simp add: walkedI [where A = A, OF refl ax ok map_le_refl])
  next
    case False
    obtain ret T' s' where w: "walk_fill (ent dir i) (x, s) = Some (ret, x, s')"
        "vm_ok T' root s'" "T \<subseteq>\<^sub>m T'" "in_use (pool s) \<subseteq> in_use (pool s')"
        "\<And>n. n < 0x1000000000 \<Longrightarrow> pview (mem s') root n = pview (mem s) root n"
        "ret = 0 \<Longrightarrow> \<exists>t. links (mem s') (Suc l) dir i t" "ret = 0 \<or> ret = - ENOMEM"
      using walk_fill_ok [where s = s, OF ok d nl absent] by metis
    show ?thesis
    proof (cases "ret = 0")
      case False
      then have "effect R create h root c e ret (mem s) (mem s')" by (intro effect_none w(5)) auto
      then show ?thesis using False absent \<open>create \<noteq> CREATE_NONE\<close> w by (simp add: walkedI [where A = A, OF refl ax w(2,3)])
    next
      case True
      then obtain t where t: "links (mem s') (Suc l) dir i t" using w(6) by blast
      have "T' dir = Some (Suc l, P)" using w(3) d(1) by (auto simp: map_le_def dom_def)
      then have "T' t = Some (l, P * 512 + i)" using wf_child [OF vm_okD(1) [OF w(2)] _ d(2) t] by simp
      moreover have "levels_in L root c e (mem s')" using lev w(5) by (simp add: levels_in_def)
      ultimately have "walked A R create h root c e s' (f t (x, s')) T'" using rec [OF ax w(2)] by blast
      then obtain ret2 x2 s2 T2 where r2: "f t (x, s') = Some (ret2, x2, s2)" "A x2" "vm_ok T2 root s2" "T' \<subseteq>\<^sub>m T2"
          "effect R create h root c e ret2 (mem s') (mem s2)"
        unfolding walked_def by blast
      have "walked A R create h root c e s (f t (x, s')) T"
        by (rule walkedI [where A = A, OF r2(1-3) map_le_trans [OF w(3) r2(4)] effect_cong_pre [OF w(5) r2(5)]])
      then show ?thesis
        using True absent False w(1) t by (simp add: links_def)
    qed
  qed
qed

lemma slot_step:
  assumes ax: "A x" and ok: "vm_ok T root s" and d: "T dir = Some (l, P)" "i < 512" and P: "a div 512 ^ Suc l = P"
    and cr: "create = CREATE_NONE \<or> create = CREATE_NORMAL"
    and ce: "c = (if i = pidx l a then a else slot l a i)"
      "e = (if i = pidx l b then b else slot l a i + 512 ^ l - 1)"
    and c: "c div 512 ^ l = P * 512 + i" "e div 512 ^ l = P * 512 + i" "c < 0x1000000000"
    and lev: "levels_in L root c e (mem s)"
    and rec: "\<And>k d s T x. \<lbrakk>l = Suc k; A x; vm_ok T root s; T d = Some (k, P * 512 + i); levels_in L root c e (mem s)\<rbrakk> \<Longrightarrow>
        walked A R create h root c e s (nwalk cb create h k d c e (x, s)) T"
  shows "walked A R create h root c e s (walk_slot cb create h l dir a b i (x, s)) T"
proof -
  note o = vm_okD [OF ok]
  let ?e = "mem s (ent dir i)"
  have sl: "slot l a i = (P * 512 + i) * 512 ^ l" by (simp add: slot_def P del: power_Suc)
  have big: "create \<noteq> CREATE_BIG" "create \<noteq> CREATE_BIG_1GB" using cr by (auto simp: consts_def)
  have cP: "c div 512 ^ Suc l = P" "pidx l c = i"
    using c(1) d(2) by (simp_all add: div_pow_Suc [symmetric] pidx_def del: power_Suc)
  have cview: "pview (mem s) root c = view_at (mem s) l dir c"
    using pview_region(1) [OF o(1) _ c(3), of dir l] d cP by simp
  show ?thesis
  proof (cases "is_leaf l ?e")
    case True
    then have vc: "pview (mem s) root c = (l, ?e)"
      using cview cP(2) by (cases l) (simp_all add: view_at_0 view_at_Suc)
    have lL: "l \<in> L" using lev vc c(3) c unfolding levels_in_def covered_def by (metis fst_conv order_refl)
    show ?thesis
    proof (cases "visited create l ?e")
      case vis: True
      have "walk_slot cb create h l dir a b i (x, s) = cb (ent dir i) (va_of h ((P * 512 + i) * 512 ^ l)) l (x, s)"
      proof (cases "l = 0")
        case True
        then show ?thesis using vis sl by (simp add: walk_slot_def visited_def)
      next
        case False
        then have "l = 1 \<or> l = 2" "pte_big ?e" using \<open>is_leaf l ?e\<close> by (auto simp: is_leaf_def)
        then show ?thesis using sl by (elim disjE) (simp_all add: walk_slot_def)
      qed
      then show ?thesis using leaf_step [where s = s, OF ax ok d True lL vis c] by simp
    next
      case nvis: False
      then have l0: "l = 0" and z: "?e = 0" "create \<noteq> CREATE_NORMAL" by (auto simp: visited_def)
      have "\<not> visited create (fst (pview (mem s) root n)) (snd (pview (mem s) root n))"
        if "n < 0x1000000000" "covered c e (fst (pview (mem s) root n)) n" for n
        using covered_block [OF o(1) _ _ c(3) that, of 0] c l0 vc nvis by auto
      then have "effect R create h root c e 0 (mem s) (mem s)" by (intro effect_refl_skip) auto
      then show ?thesis using l0 z by (simp add: walk_slot_def walkedI [where A = A, OF refl ax ok map_le_refl])
    qed
  next
    case False
    then obtain k where k: "l = Suc k" by (cases l) (auto simp: is_leaf_def)
    have nb: "(l = 0) = False" "(l = 1 \<and> (create = CREATE_BIG \<or> pte_big ?e)) = False"
        "(l = 2 \<and> (create = CREATE_BIG_1GB \<or> pte_big ?e)) = False" "l - 1 = k"
      using False big k by (auto simp: is_leaf_def)
    have "walk_slot cb create h l dir a b i (x, s) =
       (if \<not> pte_present ?e \<and> create = CREATE_NONE then Some (0, x, s)
        else do {
          (ret, ws) \<leftarrow> (if \<not> pte_present ?e then walk_fill (ent dir i) (x, s) else Some (0, x, s));
          if ret \<noteq> 0 then Some (ret, ws)
          else (\<lambda>d ws. nwalk cb create h k d c e ws) (PTE_ADDR (mem (snd ws) (ent dir i))) ws
        })"
      unfolding walk_slot_def snd_conv nb if_False ce ..
    then show ?thesis
      using descend [where f = "\<lambda>d ws. nwalk cb create h k d c e ws", OF ax ok d(1) [unfolded k] d(2) False [unfolded k] c(1,2) [unfolded k] c(3) lev] rec [OF k]
      by simp
  qed
qed

lemma walked_loop:
  assumes step: "\<And>i s T x. \<lbrakk>i0 \<le> i; i \<le> ib; A x; vm_ok T root s; T dir = Some (l, P); levels_in L root (lo i) (hi i) (mem s)\<rbrakk> \<Longrightarrow>
        walked A R create h root (lo i) (hi i) s (f i (x, s)) T"
    and lohi: "\<And>i. i0 \<le> i \<Longrightarrow> i < ib \<Longrightarrow> lo (Suc i) = Suc (hi i) \<and> 512 ^ l dvd Suc (hi i) \<and> Suc (hi i) \<le> b"
    and ord: "\<And>i. i0 \<le> i \<Longrightarrow> i \<le> ib \<Longrightarrow> lo i \<le> hi i \<and> lo i div 512 ^ Suc l = P" "hi ib = b" "b div 512 ^ Suc l = P" "b < 0x1000000000"
    and i: "i0 \<le> i" "i \<le> ib" "lo i \<le> b"
    and ok: "A x" "vm_ok T root s" "T dir = Some (l, P)" "levels_in L root (lo i) b (mem s)"
  shows "walked A R create h root (lo i) b s (walk_loop f [i ..< Suc ib] (x, s)) T"
  using i ok
proof (induction "ib - i" arbitrary: i s T x)
  case 0
  then have ib: "i = ib" by simp
  have "walked A R create h root (lo i) (hi i) s (f i (x, s)) T"
    by (rule step) (use 0 ord(2) ib in auto)
  then obtain ret x1 s1 T1 where r1: "f i (x, s) = Some (ret, x1, s1)" "A x1" "vm_ok T1 root s1" "T \<subseteq>\<^sub>m T1"
      "effect R create h root (lo i) (hi i) ret (mem s) (mem s1)"
    unfolding walked_def by blast
  have "walk_loop f [i ..< Suc ib] (x, s) = Some (ret, x1, s1)" using r1(1) ib by simp
  then show ?case by (rule walkedI [where A = A, OF _ r1(2-4)]) (use r1(5) ord(2) ib in simp)
next
  case (Suc k)
  then have i: "i0 \<le> i" "i < ib" by auto
  note lh = lohi [OF i]
  have nx: "lo i \<le> hi i" "lo i div 512 ^ Suc l = P" using ord(1) [of i] i by auto
  have lv: "levels_in L root (lo i) (hi i) (mem s)"
    using levels_in_mono [OF Suc.prems(7), of "lo i" "hi i"] lh by simp
  have "walked A R create h root (lo i) (hi i) s (f i (x, s)) T"
    by (rule step) (use i Suc.prems lv in auto)
  then obtain ret x1 s1 T1 where r1: "f i (x, s) = Some (ret, x1, s1)" "A x1" "vm_ok T1 root s1" "T \<subseteq>\<^sub>m T1"
      "effect R create h root (lo i) (hi i) ret (mem s) (mem s1)"
    unfolding walked_def by blast
  have unf: "[i ..< Suc ib] = i # [Suc i ..< Suc ib]" using i by (simp add: upt_conv_Cons)
  show ?case
  proof (cases "ret = 0")
    case False
    then have "walk_loop f [i ..< Suc ib] (x, s) = Some (ret, x1, s1)" using r1(1) by (simp add: unf del: upt_Suc)
    moreover have "effect R create h root (lo i) b ret (mem s) (mem s1)"
      using effect_stop [OF r1(5) False] lh by simp
    ultimately show ?thesis by (rule walkedI [where A = A, OF _ r1(2-4)])
  next
    case True
    have lv1: "levels_in L root (lo (Suc i)) b (mem s1)"
      using levels_in_mono [OF levels_in_effect [OF Suc.prems(7) r1(5)], of "lo (Suc i)" b] lh nx by simp
    have "T1 dir = Some (l, P)" using r1(4) Suc.prems(6) by (auto simp: map_le_def dom_def)
    then have "walked A R create h root (lo (Suc i)) b s1 (walk_loop f [Suc i ..< Suc ib] (x1, s1)) T1"
      using Suc.hyps i lh lv1 r1(2,3) by (intro Suc.hyps(1)) auto
    then obtain ret2 x2 s2 T2 where r2: "walk_loop f [Suc i ..< Suc ib] (x1, s1) = Some (ret2, x2, s2)"
        "A x2" "vm_ok T2 root s2" "T1 \<subseteq>\<^sub>m T2" "effect R create h root (lo (Suc i)) b ret2 (mem s1) (mem s2)"
      unfolding walked_def by blast
    have "walk_loop f [i ..< Suc ib] (x, s) = Some (ret2, x2, s2)"
      using r1(1) r2(1) True by (simp add: unf del: upt_Suc)
    moreover have "effect R create h root (lo i) b ret2 (mem s) (mem s2)"
    proof (rule effect_trans)
      show "effect R create h root (lo i) (hi i) 0 (mem s) (mem s1)" using r1(5) True by simp
      show "effect R create h root (Suc (hi i)) b ret2 (mem s1) (mem s2)" using r2(5) lh by simp
      fix n :: nat assume n: "n < 0x1000000000" "covered (lo i) b (fst (pview (mem s) root n)) n"
      then have "fst (pview (mem s) root n) \<le> l"
        using covered_region [OF vm_okD(1) [OF Suc.prems(5)] Suc.prems(6) nx(2) ord(3) _ n] Suc.prems(3) ord(4) by simp
      then show "512 ^ fst (pview (mem s) root n) dvd Suc (hi i)"
        using lh by (metis dvd_trans le_imp_power_dvd)
    qed (use lh nx in auto)
    ultimately show ?thesis by (rule walkedI [where A = A, OF _ r2(2,3) map_le_trans [OF r1(4) r2(4)]])
  qed
qed

lemma nwalk_effect:
  assumes "A x" "vm_ok T root s" "T dir = Some (l, a div 512 ^ Suc l)" "b div 512 ^ Suc l = a div 512 ^ Suc l"
    "a \<le> b" "b < 0x1000000000" "create = CREATE_NONE \<or> create = CREATE_NORMAL" "levels_in L root a b (mem s)"
  shows "walked A R create h root a b s (nwalk cb create h l dir a b (x, s)) T"
  using assms
proof (induction l arbitrary: dir a b s T x rule: less_induct)
  case (less l)
  define P where "P = a div 512 ^ Suc l"
  let ?lo = "\<lambda>i. if i = pidx l a then a else slot l a i"
  let ?hi = "\<lambda>i. if i = pidx l b then b else slot l a i + 512 ^ l - 1"
  have sl: "slot l a i = (P * 512 + i) * 512 ^ l" for i by (simp add: slot_def P_def del: power_Suc)
  have da: "a div 512 ^ l = P * 512 + pidx l a" and db: "b div 512 ^ l = P * 512 + pidx l b"
    using pidx_split [of a l] pidx_split [of b l] less.prems(4) by (simp_all add: P_def)
  have le: "pidx l a \<le> pidx l b" using div_le_mono [OF less.prems(5), of "512 ^ l"] da db by simp
  have lo: "?lo i div 512 ^ l = P * 512 + i" for i using da by (simp add: sl)
  have pos: "0 < (512::nat) ^ l" by simp
  have hi: "?hi i div 512 ^ l = P * 512 + i" for i
    using db block_bounds(1) [OF pos] by (simp add: sl)
  have sp: "q \<le> q + 512 ^ l - Suc 0" for q :: nat using pos by linarith
  have ends: "?lo i \<le> ?hi i" if "i \<le> pidx l b" for i
    using block_bounds(2,3) [OF pos, of a "P * 512 + i"] block_bounds(2,3) [OF pos, of b "P * 512 + i"] da db
      less.prems(5) sp by (auto simp: sl)
  have hb: "?hi i \<le> b" "i < pidx l b \<Longrightarrow> Suc (?hi i) \<le> b" if "i \<le> pidx l b" for i
  proof -
    have "Suc (?hi i) \<le> b" if "i < pidx l b"
    proof -
      have "(P * 512 + Suc i) * 512 ^ l \<le> (P * 512 + pidx l b) * 512 ^ l" using that by (intro mult_le_mono1) simp
      then have "(P * 512 + Suc i) * 512 ^ l \<le> b" using block_bounds(2) [OF pos db] by linarith
      then show ?thesis using that pos by (simp add: sl)
    qed
    then show "i < pidx l b \<Longrightarrow> Suc (?hi i) \<le> b" "?hi i \<le> b" using that by (auto simp: le_less)
  qed
  have P_div: "x div 512 ^ Suc l = P" if "x div 512 ^ l = P * 512 + i" "i < 512" for x i
    using that by (simp add: div_pow_Suc [symmetric] del: power_Suc)
  have "walked A R create h root (?lo (pidx l a)) b s (walk_loop (walk_slot cb create h l dir a b) [pidx l a ..< Suc (pidx l b)] (x, s)) T"
  proof (rule walked_loop [where lo = ?lo and hi = ?hi and l = l and P = P])
    fix i s T x
    assume i: "pidx l a \<le> i" "i \<le> pidx l b" and ok: "A x" "vm_ok T root s" "T dir = Some (l, P)"
      and lev: "levels_in L root (?lo i) (?hi i) (mem s)"
    have i5: "i < 512" using i pidx_less [of l b] by linarith
    have lt: "?lo i < 0x1000000000" "?hi i < 0x1000000000"
      using ends [OF i(2)] hb(1) [OF i(2)] less.prems(6) by linarith+
    show "walked A R create h root (?lo i) (?hi i) s (walk_slot cb create h l dir a b i (x, s)) T"
      by (rule slot_step [OF ok i5 P_def [symmetric] less.prems(7) refl refl lo hi lt(1) lev], rule less.IH)
        (use lo [of i] hi [of i] ends [OF i(2)] lt less.prems(7) in \<open>auto simp del: power_Suc\<close>)
  next
    fix i assume i: "pidx l a \<le> i" "i < pidx l b"
    have "Suc (?hi i) = (P * 512 + Suc i) * 512 ^ l" using i pos by (simp add: sl)
    then show "?lo (Suc i) = Suc (?hi i) \<and> 512 ^ l dvd Suc (?hi i) \<and> Suc (?hi i) \<le> b"
      using i hb(2) [of i] by (simp add: sl)
  next
    fix i assume i: "pidx l a \<le> i" "i \<le> pidx l b"
    then have "i < 512" using pidx_less [of l b] by linarith
    then show "?lo i \<le> ?hi i \<and> ?lo i div 512 ^ Suc l = P"
      using ends [OF i(2)] P_div [OF lo] by blast
  qed (use less.prems le in \<open>auto simp: P_def simp del: power_Suc\<close>)
  then show ?case by (simp add: nwalk_loop)
qed

lemma page_walk_effect:
  assumes "A x" "vm_ok T root s" "vpn sva \<le> vpn eva" "create = CREATE_NONE \<or> create = CREATE_NORMAL"
    "levels_in L root (vpn sva) (vpn eva) (mem s)"
  shows "walked A R create (hi16 sva) root (vpn sva) (vpn eva) s (page_walk cb create 3 root sva eva (x, s)) T"
proof -
  have z: "vpn v div 512 ^ Suc 3 = 0" for v using vpn_less [of v] by simp
  show ?thesis
    unfolding page_walk_nwalk [OF order_refl]
    by (rule nwalk_effect) (use assms wf_root [OF vm_okD(5) [OF assms(2)]] vpn_less z in auto)
qed

lemma fill_walk_small:
  assumes "A x" and ok: "vm_ok T root s" and v: "vpn sva \<le> vpn eva"
    and small: "\<forall>n. vpn sva \<le> n \<longrightarrow> n \<le> vpn eva \<longrightarrow> fst (pview (mem s) root n) = 0"
  shows "\<exists>ret x' s' T'. page_walk cb CREATE_NORMAL 3 root sva eva (x, s) = Some (ret, x', s') \<and> vm_ok T' root s' \<and>
    (\<forall>n < 0x1000000000.
       if vpn sva \<le> n \<and> n \<le> vpn eva
       then (fst (pview (mem s') root n) = 0 \<and>
             R 0 (va_of (hi16 sva) n) (snd (pview (mem s) root n)) (snd (pview (mem s') root n))) \<or>
            ret \<noteq> 0 \<and> pview (mem s') root n = pview (mem s) root n
       else pview (mem s') root n = pview (mem s) root n)"
proof -
  have cov: "covered (vpn sva) (vpn eva) (fst (pview (mem s) root n)) n \<longleftrightarrow> vpn sva \<le> n \<and> n \<le> vpn eva"
    if "n < 0x1000000000" for n
    by (rule small_covered [OF vm_okD(1) [OF ok] v vpn_less that small])
  have lev: "levels_in L root (vpn sva) (vpn eva) (mem s)"
    using cov small L_0 by (auto simp: levels_in_def)
  obtain ret x' s' T' where w: "page_walk cb CREATE_NORMAL 3 root sva eva (x, s) = Some (ret, x', s')" "vm_ok T' root s'"
      "effect R CREATE_NORMAL (hi16 sva) root (vpn sva) (vpn eva) ret (mem s) (mem s')"
    using page_walk_effect [OF assms(1) ok v _ lev, of CREATE_NORMAL] unfolding walked_def by blast
  have "if vpn sva \<le> n \<and> n \<le> vpn eva
       then (fst (pview (mem s') root n) = 0 \<and>
             R 0 (va_of (hi16 sva) n) (snd (pview (mem s) root n)) (snd (pview (mem s') root n))) \<or>
            ret \<noteq> 0 \<and> pview (mem s') root n = pview (mem s) root n
       else pview (mem s') root n = pview (mem s) root n" if n: "n < 0x1000000000" for n
    using effect_cov [OF w(3) n] effect_frame [OF w(3) n] cov [OF n] small
    by (auto simp: leaf_post_def visited_def)
  then show ?thesis using w(1,2) by blast
qed

end

end
