(* ===== verification/Vm.thy ===== *)
theory Vm
  imports Walk_Effect
begin

text \<open>
  The operations of \<open>libdune/vm.c\<close> on top of the walks: mapping, protection, cloning, freeing,
  and the copy-on-write fault handler. The struct behind a callback's \<open>arg\<close> is the first
  component of the walked state, except for \<open>dune_vm_clone_fast\<close>, which keeps its struct in
  memory because two callbacks read it as different types.
\<close>

unbundle bit_operations_syntax

definition VA_START :: u64 where [consts_def]: "VA_START = 0"
definition VA_END :: u64 where [consts_def]: "VA_END = - 1"

section \<open>Protection\<close>

definition dune_vm_mprotect_helper :: "u64 page_walk_cb" where
  "dune_vm_mprotect_helper pte va level ws = (
     let (perm, s) = ws;
         e = mem s pte
     in Some (0, perm, wr pte (PTE_ADDR e OR (PTE_FLAGS e AND PTE_PS) OR perm) s))"

definition dune_vm_mprotect :: "u64 \<Rightarrow> u64 \<Rightarrow> u64 \<Rightarrow> u32 \<Rightarrow> dune \<Rightarrow> (int \<times> dune) option" where
  "dune_vm_mprotect root va len perm s = (
     if \<not> tst perm PERM_R \<and> tst perm PERM_W then Some (- EINVAL, s)
     else
       let perm = (if \<not> tst perm PERM_R then PERM_NONE else perm);
           pte_perm = get_pte_perm perm
       in do {
         (ret, _, s) \<leftarrow> dune_vm_page_walk_at root va (va + len - 1) dune_vm_mprotect_helper 3
            CREATE_NONE (pte_perm, s);
         if ret \<noteq> 0 then Some (ret, s) else Some (0, dune_flush_tlb s)
       })"

section \<open>Mapping physical ranges\<close>

record map_phys_data =
  data_perm :: u64
  data_va_base :: u64
  data_pa_base :: u64
  data_pte_count :: u64

definition dune_vm_map_phys_helper :: "map_phys_data page_walk_cb" where
  "dune_vm_map_phys_helper pte va level ws = (
     let (data, s) = ws
     in Some (0, data\<lparr>data_pte_count := data_pte_count data + 1\<rparr>,
          wr pte (PTE_ADDR (va - data_va_base data + data_pa_base data) OR data_perm data) s))"

definition create_mode :: "u32 \<Rightarrow> int" where
  "create_mode perm = (if tst perm PERM_BIG then CREATE_BIG
     else if tst perm PERM_BIG_1GB then CREATE_BIG_1GB else CREATE_NORMAL)"

definition dune_vm_map_phys :: "u64 \<Rightarrow> u64 \<Rightarrow> u64 \<Rightarrow> u64 \<Rightarrow> u32 \<Rightarrow> dune \<Rightarrow> (int \<times> dune) option" where
  "dune_vm_map_phys root va len pa prm s = (
     let data = \<lparr>data_perm = get_pte_perm prm, data_va_base = va, data_pa_base = pa, data_pte_count = 0\<rparr>;
         create = create_mode prm
     in do {
       (ret, _, s) \<leftarrow> dune_vm_page_walk_at root va (va + len - 1) dune_vm_map_phys_helper 3 create
          (data, s);
       Some (ret, s)
     })"

text \<open>
  The \<open>int pte_flags\<close> parameter: the caller's 64-bit flags are cut to 32 bits, then sign-extended
  by the assignment to \<open>data.perm\<close>.
\<close>

definition int_flags :: "u64 \<Rightarrow> u64" where
  "int_flags f = scast (ucast f :: u32)"

definition dune_vm_map_phys_with_pte_flags ::
    "u64 \<Rightarrow> u64 \<Rightarrow> u64 \<Rightarrow> u64 \<Rightarrow> u64 \<Rightarrow> u32 \<Rightarrow> dune \<Rightarrow> (int \<times> dune) option" where
  "dune_vm_map_phys_with_pte_flags root va len pa pte_flags prm s = (
     let data = \<lparr>data_perm = int_flags pte_flags, data_va_base = va, data_pa_base = pa, data_pte_count = 0\<rparr>;
         create = create_mode prm
     in do {
       (ret, _, s) \<leftarrow> dune_vm_page_walk_at root va (va + len - 1) dune_vm_map_phys_helper 3 create
          (data, s);
       Some (ret, s)
     })"

section \<open>Mapping pool pages\<close>

definition dune_vm_map_pages_helper :: "u64 page_walk_cb" where
  "dune_vm_map_pages_helper pte va level ws = (
     let (prm, s) = ws
     in do {
       (pg, p) \<leftarrow> dune_page_alloc (pool s);
       let s = s\<lparr>pool := p\<rparr>;
       case pg of
         None \<Rightarrow> Some (- ENOMEM, prm, s)
       | Some pg \<Rightarrow> Some (0, prm, wr pte (PTE_ADDR (dune_page2pa pg) OR prm) s)
     })"

definition dune_vm_map_pages_add_flags_helper :: "u64 page_walk_cb" where
  "dune_vm_map_pages_add_flags_helper pte va level ws = (
     let (flags, s) = ws
     in do {
       (pg, p) \<leftarrow> dune_page_alloc (pool s);
       let s = s\<lparr>pool := p\<rparr>;
       case pg of
         None \<Rightarrow> Some (- ENOMEM, flags, s)
       | Some pg \<Rightarrow> Some (0, flags, wr pte (mem s pte OR flags) s)
     })"

definition dune_vm_map_pages_add_flags :: "u64 \<Rightarrow> u64 \<Rightarrow> u64 \<Rightarrow> u32 \<Rightarrow> dune \<Rightarrow> (int \<times> dune) option" where
  "dune_vm_map_pages_add_flags root va len prm s = do {
     (ret, _, s) \<leftarrow> dune_vm_page_walk_at root va (va + len - 1) dune_vm_map_pages_add_flags_helper 3
        CREATE_NONE (get_pte_perm prm, s);
     Some (ret, s)
   }"

definition dune_vm_map_pages :: "u64 \<Rightarrow> u64 \<Rightarrow> u64 \<Rightarrow> u32 \<Rightarrow> dune \<Rightarrow> (int \<times> dune) option" where
  "dune_vm_map_pages root va len prm s = (
     if \<not> tst prm PERM_R \<and> tst prm (NOT PERM_R) then Some (- EINVAL, s)
     else do {
       (ret, _, s) \<leftarrow> dune_vm_page_walk_at root va (va + len - 1) dune_vm_map_pages_helper 3
          CREATE_NORMAL (get_pte_perm prm, s);
       Some (ret, s)
     })"

section \<open>Freeing\<close>

definition dune_vm_free_helper :: "unit page_walk_cb" where
  "dune_vm_free_helper pte va level ws = (
     let (_, s) = ws;
         pa = PTE_ADDR (mem s pte);
         pg = dune_pa2page pa
     in do {
       p \<leftarrow> (if dune_page_isfrompool pa (pool s) then dune_page_put pg (pool s) else Some (pool s));
       Some (0, (), wr pte 0 (s\<lparr>pool := p\<rparr>))
     })"

text \<open>Three walks, each entered one level lower, then the root. Their results are ignored.\<close>

definition dune_vm_free :: "u64 \<Rightarrow> dune \<Rightarrow> dune option" where
  "dune_vm_free root s = do {
     (_, _, s) \<leftarrow> dune_vm_page_walk_at root VA_START VA_END dune_vm_free_helper 3 CREATE_NONE ((), s);
     (_, _, s) \<leftarrow> dune_vm_page_walk_at root VA_START VA_END dune_vm_free_helper 2 CREATE_NONE ((), s);
     (_, _, s) \<leftarrow> dune_vm_page_walk_at root VA_START VA_END dune_vm_free_helper 1 CREATE_NONE ((), s);
     put_page root s
   }"

definition dune_vm_unmap :: "u64 \<Rightarrow> u64 \<Rightarrow> u64 \<Rightarrow> dune \<Rightarrow> dune option" where
  "dune_vm_unmap root va len s = do {
     (_, _, s) \<leftarrow> dune_vm_page_walk_at root va (va + len - 1) dune_vm_free_helper 3 CREATE_NONE ((), s);
     Some (dune_flush_tlb s)
   }"

section \<open>Cloning\<close>

definition dune_vm_clone_helper :: "u64 page_walk_cb" where
  "dune_vm_clone_helper pte va level ws = (
     let (newRoot, s) = ws;
         e = mem s pte;
         pg = dune_pa2page (PTE_ADDR e)
     in do {
       create_perm \<leftarrow>
         (if level = 0 then do { ensure (\<not> pte_big e); Some PERM_NONE }
          else if level = 1 then do { ensure (pte_big e); Some PERM_BIG }
          else do { ensure (level = 2); ensure (pte_big e); Some PERM_BIG_1GB });
       size \<leftarrow> pgsize level;
       (ret, s) \<leftarrow> dune_vm_map_phys_with_pte_flags newRoot va size (PTE_ADDR e) (PTE_FLAGS e)
          create_perm s;
       if ret \<noteq> 0 then Some (ret, newRoot, s)
       else if dune_page_isfrompool (PTE_ADDR (mem s pte)) (pool s) then do {
         p \<leftarrow> dune_page_get pg (pool s);
         Some (ret, newRoot, s\<lparr>pool := p\<rparr>)
       } else Some (ret, newRoot, s)
     })"

text \<open>A fresh, zeroed root; \<open>memset\<close> through a null pointer is a fault.\<close>

definition new_root :: "dune \<Rightarrow> (u64 \<times> dune) option" where
  "new_root s = do {
     (newRoot, s) \<leftarrow> alloc_page s;
     ensure (newRoot \<noteq> 0);
     Some (newRoot, s\<lparr>mem := memset_page newRoot 0 (mem s)\<rparr>)
   }"

definition dune_vm_clone_custom :: "u64 \<Rightarrow> u64 page_walk_cb \<Rightarrow> dune \<Rightarrow> (u64 \<times> dune) option" where
  "dune_vm_clone_custom root cb s = do {
     (newRoot, s) \<leftarrow> new_root s;
     (ret, _, s) \<leftarrow> dune_vm_page_walk_at root VA_START VA_END cb 3 CREATE_NONE (newRoot, s);
     if ret < 0 then do { s \<leftarrow> dune_vm_free newRoot s; Some (0, s) }
     else Some (newRoot, s)
   }"

definition dune_vm_clone :: "u64 \<Rightarrow> dune \<Rightarrow> (u64 \<times> dune) option" where
  "dune_vm_clone root s = do {
     (newRoot, s) \<leftarrow> new_root s;
     (ret, _, s) \<leftarrow> dune_vm_page_walk_at root VA_START VA_END dune_vm_clone_helper 3 CREATE_NONE (newRoot, s);
     if ret < 0 then do { s \<leftarrow> dune_vm_free newRoot s; Some (0, s) }
     else Some (newRoot, s)
   }"

text \<open>
  \<open>struct fast_clone_args\<close> lies at an address: the root in its first cell, the counter in the
  next. The loop over the 512 entries is the override of the new table's page.
\<close>

definition args_newRoot :: "u64 \<Rightarrow> u64" where "args_newRoot args = args"
definition args_pages_copied :: "u64 \<Rightarrow> u64" where "args_pages_copied args = args + 8"

primrec copy_cow_entries :: "u64 \<Rightarrow> u64 \<Rightarrow> nat list \<Rightarrow> memory \<Rightarrow> memory" where
  "copy_cow_entries newDir dir [] m = m"
| "copy_cow_entries newDir dir (i # is) m =
     copy_cow_entries newDir dir is
       (m(ent newDir i := (m (ent dir i) OR PTE_COW) AND NOT PTE_W))"

definition dune_vm_clone_last_level_page_helper :: "u64 page_walk_cb" where
  "dune_vm_clone_last_level_page_helper dir start_va level ws = (
     let (args, s) = ws
     in do {
       ensure (level = 0);
       (ret, _, newDir, s) \<leftarrow> dune_vm_lookup_internal (mem s (args_newRoot args)) start_va True False s;
       newDir \<leftarrow> newDir;
       let s = s\<lparr>mem := copy_cow_entries newDir dir [0 ..< 512] (mem s)\<rparr>;
       ensure (ret = 0);
       Some (ret, args, wr (args_pages_copied args) (mem s (args_pages_copied args) + 1) s)
     })"

text \<open>Both callbacks get the address of the struct; the first one takes it for the new root.\<close>

definition dune_vm_clone_fast :: "u64 \<Rightarrow> u64 \<Rightarrow> dune \<Rightarrow> (u64 \<times> dune) option" where
  "dune_vm_clone_fast args root s = do {
     (newRoot, s) \<leftarrow> new_root s;
     let s = wr (args_pages_copied args) 0 (wr (args_newRoot args) newRoot s);
     (ret, _, s) \<leftarrow> page_walk_batch dune_vm_clone_helper dune_vm_clone_last_level_page_helper
        CREATE_NONE 3 root VA_START VA_END (args, s);
     if ret < 0 then do { s \<leftarrow> dune_vm_free newRoot s; Some (0, s) }
     else Some (newRoot, s)
   }"

section \<open>The default fault handler\<close>

text \<open>
  \<open>memcpy(newPage, (void *)PGADDR(addr), PGSIZE)\<close> reads through the active page table: the
  hardware walk gives the physical page, or faults again if an entry is not present.
\<close>

fun hw_leaf :: "memory \<Rightarrow> nat \<Rightarrow> u64 \<Rightarrow> u64 \<Rightarrow> (nat \<times> u64) option" where
  "hw_leaf m 0 d va = (
     let e = m (ent d (PDX 0 va)) in if pte_present e then Some (0, e) else None)"
| "hw_leaf m (Suc l) d va = (
     let e = m (ent d (PDX (Suc l) va)) in
     if \<not> pte_present e then None
     else if Suc l \<le> 2 \<and> pte_big e then Some (Suc l, e)
     else hw_leaf m l (PTE_ADDR e) va)"

definition hw_page :: "memory \<Rightarrow> u64 \<Rightarrow> u64 \<Rightarrow> u64 option" where
  "hw_page m root va = do {
     (l, e) \<leftarrow> hw_leaf m 3 root va;
     let msk = mask (12 + 9 * l);
     Some ((PTE_ADDR e AND NOT msk) + (PGADDR va AND msk))
   }"

definition copy_page_from_va :: "u64 \<Rightarrow> u64 \<Rightarrow> dune \<Rightarrow> dune option" where
  "copy_page_from_va newPage va s = do {
     pa \<leftarrow> hw_page (mem s) (pgroot s) va;
     ensure (newPage \<noteq> 0);
     Some (s\<lparr>mem := memcpy_page newPage (\<lambda>off. mem s (pa + off)) (mem s)\<rparr>)
   }"

definition dune_vm_default_pgflt_handler :: "u64 \<Rightarrow> u64 \<Rightarrow> dune \<Rightarrow> dune option" where
  "dune_vm_default_pgflt_handler addr fec s = do {
     ensure (\<not> tst fec (FEC_P OR FEC_RSV));
     (rc, _, pte, s) \<leftarrow> dune_vm_lookup (pgroot s) addr False s;
     ensure (rc = 0);
     pte \<leftarrow> pte;
     let e = mem s pte;
     if tst fec FEC_W \<and> tst e PTE_COW then
       let pg = dune_pa2page (PTE_ADDR e);
           prm = (PTE_FLAGS e AND NOT PTE_COW) OR PTE_W
       in if dune_page_isfrompool (PTE_ADDR e) (pool s) \<and> page_ref (pool s) pg = 1 then
            Some (wr pte (PTE_ADDR e OR prm) s)
          else do {
            (newPage, s) \<leftarrow> alloc_page s;
            s \<leftarrow> copy_page_from_va newPage (PGADDR addr) s;
            p \<leftarrow> (if dune_page_isfrompool (PTE_ADDR (mem s pte)) (pool s)
                  then dune_page_put pg (pool s) else Some (pool s));
            let s = wr pte (PTE_ADDR newPage OR prm) (s\<lparr>pool := p\<rparr>);
            Some (dune_flush_tlb_one addr s)
          }
     else Some s
   }"

section \<open>Reference definitions\<close>

text \<open>
  The arguments of one mapping call, the lookup as one recursion over the levels, and a small
  state on which the properties are exercised: an empty root outside of the pool, four cores.
\<close>

definition at_data :: "u64 \<Rightarrow> u64 \<Rightarrow> u64 \<Rightarrow> map_phys_data \<Rightarrow> bool" where
  "at_data p va pa x \<longleftrightarrow> data_perm x = p \<and> data_va_base x = va \<and> data_pa_base x = pa"

primrec lookup_from :: "nat \<Rightarrow> u64 \<Rightarrow> u64 \<Rightarrow> bool \<Rightarrow> bool \<Rightarrow> dune \<Rightarrow> lookup_res option" where
  "lookup_from 0 d va create created s = Some (0, created, Some (ent d (PDX 0 va)), s)"
| "lookup_from (Suc l) d va create created s = (
     let pte = ent d (PDX (Suc l) va); e = mem s pte in
     if \<not> pte_present e then
       if \<not> create then Some (- ENOENT, created, None, s)
       else do { (t, s) \<leftarrow> lookup_create pte s; lookup_from l t va create True s }
     else if Suc l \<le> 2 \<and> pte_big e then Some (0, created, Some pte, s)
     else lookup_from l (PTE_ADDR e) va create created s)"

definition example_os :: host_os where
  "example_os = \<lparr>mmap_fixed = (\<lambda>base len huge. base), trylock_fails = (\<lambda>_ _. False)\<rparr>"

definition example_pool :: page_pool where
  "example_pool = \<lparr>num_pages = 0, pages_free = (\<lambda>_. []), page_ref = (\<lambda>_. 0), cpu_id = 0,
     max_cores = 4, last_stealed = - 1, rand_seed = 5323, host = example_os\<rparr>"

definition example_dune :: dune where
  "example_dune = \<lparr>mem = (\<lambda>_. 0), pool = example_pool, pgroot = 0x1000, tlb_log = []\<rparr>"

definition example_tables :: tables where
  "example_tables = [0x1000 \<mapsto> (3, 0)]"

section \<open>The callbacks meet the contract of the walk\<close>

abbreviation mprotect_rel :: "u64 \<Rightarrow> leaf_rel" where
  "mprotect_rel p \<equiv> \<lambda>l va e v. v = PTE_ADDR e OR (PTE_FLAGS e AND PTE_PS) OR p"

interpretation mprotect_cb: leaf_callback dune_vm_mprotect_helper "\<lambda>x. x = p" UNIV "mprotect_rel p" for p
  by unfold_locales
    (auto simp: dune_vm_mprotect_helper_def Let_def wr_def is_leaf_def pte_big_bit pte_bits)

abbreviation map_phys_rel :: "u64 \<Rightarrow> u64 \<Rightarrow> u64 \<Rightarrow> leaf_rel" where
  "map_phys_rel p va pa \<equiv> \<lambda>l v e e'. e' = PTE_ADDR (v - va + pa) OR p"

interpretation map_phys_cb: leaf_callback dune_vm_map_phys_helper "at_data p va pa" "{0}" "map_phys_rel p va pa" for p va pa
  by unfold_locales (auto simp: dune_vm_map_phys_helper_def wr_def is_leaf_def at_data_def)

abbreviation map_pages_rel :: "u64 \<Rightarrow> leaf_rel" where
  "map_pages_rel p \<equiv> \<lambda>l v e e'. \<exists>pg < MAX_PAGES. e' = PTE_ADDR (dune_page2pa pg) OR p"

lemma map_pages_helper_run:
  assumes "pool_inv (pool s)" "thread_ok (pool s)"
  shows "\<exists>ret s'. dune_vm_map_pages_helper pte va l (x, s) = Some (ret, x, s') \<and>
     pool_inv (pool s') \<and> thread_ok (pool s') \<and> in_use (pool s) \<subseteq> in_use (pool s') \<and>
     (ret = 0 \<and> (\<exists>v. mem s' = (mem s)(pte := v) \<and> map_pages_rel x l va (mem s pte) v) \<or>
      ret = - ENOMEM \<and> mem s' = mem s)"
proof -
  obtain r p' where r: "dune_page_alloc (pool s) = Some (r, p')" "alloc_spec (pool s) r p'" "thread_ok p'"
    using dune_page_alloc_total [OF assms] by blast
  have p': "pool_inv p'" using r(2) by (simp add: alloc_spec_def)
  show ?thesis
  proof (cases r)
    case None
    then show ?thesis
      using r p' alloc_spec_in_use [OF r(2)] by (simp add: dune_vm_map_pages_helper_def)
  next
    case (Some pg)
    then have "pg < MAX_PAGES"
      using r(2) pool_inv_num_pages [OF p'] by (simp add: alloc_spec_def)
    then show ?thesis
      using r p' alloc_spec_in_use [OF r(2)] Some
      by (auto simp: dune_vm_map_pages_helper_def wr_def intro!: exI [of _ "PTE_ADDR (dune_page2pa pg) OR x"])
  qed
qed

interpretation map_pages_cb: leaf_callback dune_vm_map_pages_helper "\<lambda>x. x = p" "{0}" "map_pages_rel p" for p
proof unfold_locales
  fix x :: u64 and s :: dune and l pte va
  assume "x = p" "pool_inv (pool s)" "thread_ok (pool s)" "l \<in> {0::nat}"
  then show "\<exists>ret x' s'. dune_vm_map_pages_helper pte va l (x, s) = Some (ret, x', s') \<and> x' = p \<and>
        pool_inv (pool s') \<and> thread_ok (pool s') \<and> in_use (pool s) \<subseteq> in_use (pool s') \<and>
        (ret = 0 \<and> (\<exists>v. mem s' = (mem s)(pte := v) \<and> map_pages_rel p l va (mem s pte) v) \<or> ret \<noteq> 0 \<and> mem s' = mem s)"
    using map_pages_helper_run [of s pte va l x] by (fastforce simp: ENOMEM_def)
qed (auto simp: is_leaf_def)

interpretation mprotect_log: walk_invariant dune_vm_mprotect_helper "\<lambda>ws. tlb_log (snd ws) = lg \<and> pgroot (snd ws) = rt" for lg rt
  by unfold_locales (auto simp: dune_vm_mprotect_helper_def Let_def wr_def fill_frame)

lemma mprotect_refines:
  assumes ok: "vm_ok T root s" and r: "tst prm PERM_R" and v: "vpn va \<le> vpn (va + len - 1)"
  shows "\<exists>s' T'. dune_vm_mprotect root va len prm s = Some (0, s') \<and> vm_ok T' root s' \<and>
    tlb_log s' = tlb_log s @ [Flush_All] \<and>
    (\<forall>n < 0x1000000000. pview (mem s') root n =
       (let (l, e) = pview (mem s) root n in
        if covered (vpn va) (vpn (va + len - 1)) l n \<and> (0 < l \<or> e \<noteq> 0)
        then (l, PTE_ADDR e OR (PTE_FLAGS e AND PTE_PS) OR get_pte_perm prm) else (l, e)))"
proof -
  let ?w = "page_walk dune_vm_mprotect_helper CREATE_NONE 3 root va (va + len - 1) (get_pte_perm prm, s)"
  have "walked (\<lambda>x. x = get_pte_perm prm) (mprotect_rel (get_pte_perm prm)) CREATE_NONE (hi16 va) root (vpn va) (vpn (va + len - 1)) s ?w T"
    by (rule mprotect_cb.page_walk_effect [OF refl ok v]) (auto simp: levels_in_def)
  then obtain ret x s1 T1 where w: "?w = Some (ret, x, s1)" "vm_ok T1 root s1"
      "effect (mprotect_rel (get_pte_perm prm)) CREATE_NONE (hi16 va) root (vpn va) (vpn (va + len - 1)) ret (mem s) (mem s1)"
    unfolding walked_def by blast
  have "ret \<in> {0}"
    by (rule page_walk_ret [OF _ _ _ w(1)]) (auto simp: dune_vm_mprotect_helper_def Let_def)
  moreover have "tlb_log s1 = tlb_log s"
    using mprotect_log.page_walk_inv [OF w(1), of "tlb_log s" "pgroot s"] by simp
  moreover have "pview (mem s1) root n =
       (let (l, e) = pview (mem s) root n in
        if covered (vpn va) (vpn (va + len - 1)) l n \<and> (0 < l \<or> e \<noteq> 0)
        then (l, PTE_ADDR e OR (PTE_FLAGS e AND PTE_PS) OR get_pte_perm prm) else (l, e))"
    if n: "n < 0x1000000000" for n
    using effect_cov [OF w(3) n] effect_frame [OF w(3) n] \<open>ret \<in> {0}\<close>
    by (cases "covered (vpn va) (vpn (va + len - 1)) (fst (pview (mem s) root n)) n")
      (auto simp: leaf_post_def visited_def consts_def prod_eq_iff split: if_splits prod.splits)
  ultimately show ?thesis
    using w(1,2) r by (auto simp: dune_vm_mprotect_def dune_vm_page_walk_at_def Let_def NPTLVLS_def dune_flush_tlb_def vm_ok_def)
qed

lemma map_phys_refines:
  assumes ok: "vm_ok T root s" and b: "\<not> tst prm PERM_BIG" "\<not> tst prm PERM_BIG_1GB" and v: "vpn va \<le> vpn (va + len - 1)"
    and small: "\<forall>n. vpn va \<le> n \<longrightarrow> n \<le> vpn (va + len - 1) \<longrightarrow> fst (pview (mem s) root n) = 0"
  shows "\<exists>ret s' T'. dune_vm_map_phys root va len pa prm s = Some (ret, s') \<and> vm_ok T' root s' \<and>
    (ret = 0 \<or> ret = - ENOMEM) \<and>
    (\<forall>n < 0x1000000000.
        if vpn va \<le> n \<and> n \<le> vpn (va + len - 1)
        then pview (mem s') root n = (0, PTE_ADDR (va_of (hi16 va) n - va + pa) OR get_pte_perm prm) \<or>
             ret \<noteq> 0 \<and> pview (mem s') root n = pview (mem s) root n
        else pview (mem s') root n = pview (mem s) root n)"
proof -
  let ?d = "\<lparr>data_perm = get_pte_perm prm, data_va_base = va, data_pa_base = pa, data_pte_count = 0\<rparr>"
  have d: "at_data (get_pte_perm prm) va pa ?d" by (simp add: at_data_def)
  obtain ret x s' T' where w: "page_walk dune_vm_map_phys_helper CREATE_NORMAL 3 root va (va + len - 1) (?d, s) = Some (ret, x, s')"
     "vm_ok T' root s'" and view: "\<forall>n < 0x1000000000.
       if vpn va \<le> n \<and> n \<le> vpn (va + len - 1)
       then (fst (pview (mem s') root n) = 0 \<and> snd (pview (mem s') root n) = PTE_ADDR (va_of (hi16 va) n - va + pa) OR get_pte_perm prm) \<or>
            ret \<noteq> 0 \<and> pview (mem s') root n = pview (mem s) root n
       else pview (mem s') root n = pview (mem s) root n"
    using map_phys_cb.fill_walk_small [OF d ok v small] by blast
  have "ret \<in> {0, - ENOMEM}"
    by (rule page_walk_ret [OF _ _ _ w(1)]) (auto simp: dune_vm_map_phys_helper_def)
  then show ?thesis
    using w b view by (auto simp: dune_vm_map_phys_def create_mode_def dune_vm_page_walk_at_def NPTLVLS_def prod_eq_iff)
qed

lemma map_pages_refines:
  assumes ok: "vm_ok T root s" and r: "tst prm PERM_R" and v: "vpn va \<le> vpn (va + len - 1)"
    and small: "\<forall>n. vpn va \<le> n \<longrightarrow> n \<le> vpn (va + len - 1) \<longrightarrow> fst (pview (mem s) root n) = 0"
  shows "\<exists>ret s' T'. dune_vm_map_pages root va len prm s = Some (ret, s') \<and> vm_ok T' root s' \<and>
    (ret = 0 \<or> ret = - ENOMEM) \<and>
    (\<forall>n < 0x1000000000.
        if vpn va \<le> n \<and> n \<le> vpn (va + len - 1)
        then (\<exists>pg < MAX_PAGES. pview (mem s') root n = (0, PTE_ADDR (dune_page2pa pg) OR get_pte_perm prm)) \<or>
             ret \<noteq> 0 \<and> pview (mem s') root n = pview (mem s) root n
        else pview (mem s') root n = pview (mem s) root n)"
proof -
  obtain ret x s' T' where w: "page_walk dune_vm_map_pages_helper CREATE_NORMAL 3 root va (va + len - 1) (get_pte_perm prm, s) = Some (ret, x, s')"
     "vm_ok T' root s'" and view: "\<forall>n < 0x1000000000.
       if vpn va \<le> n \<and> n \<le> vpn (va + len - 1)
       then (fst (pview (mem s') root n) = 0 \<and> (\<exists>pg < MAX_PAGES. snd (pview (mem s') root n) = PTE_ADDR (dune_page2pa pg) OR get_pte_perm prm)) \<or>
            ret \<noteq> 0 \<and> pview (mem s') root n = pview (mem s) root n
       else pview (mem s') root n = pview (mem s) root n"
    using map_pages_cb.fill_walk_small [OF refl ok v small] by blast
  have "ret \<in> {0, - ENOMEM}"
    by (rule page_walk_ret [OF _ _ _ w(1)])
      (auto simp: dune_vm_map_pages_helper_def Let_def bind_Some_iff split: option.splits prod.splits)
  then show ?thesis
    using w r view by (fastforce simp: dune_vm_map_pages_def dune_vm_page_walk_at_def NPTLVLS_def prod_eq_iff)
qed

abbreviation add_flags_rel :: "u64 \<Rightarrow> leaf_rel" where
  "add_flags_rel f \<equiv> \<lambda>l va e v. v = e OR f"

lemma add_flags_helper_run:
  assumes "pool_inv (pool s)" "thread_ok (pool s)"
  shows "\<exists>ret s'. dune_vm_map_pages_add_flags_helper pte va l (x, s) = Some (ret, x, s') \<and>
     pool_inv (pool s') \<and> thread_ok (pool s') \<and> in_use (pool s) \<subseteq> in_use (pool s') \<and>
     (ret = 0 \<and> mem s' = (mem s)(pte := mem s pte OR x) \<or> ret = - ENOMEM \<and> mem s' = mem s)"
proof -
  obtain r p' where r: "dune_page_alloc (pool s) = Some (r, p')" "alloc_spec (pool s) r p'" "thread_ok p'"
    using dune_page_alloc_total [OF assms] by blast
  then have "pool_inv p'" by (simp add: alloc_spec_def)
  then show ?thesis
    using r alloc_spec_in_use [OF r(2)] by (cases r) (simp_all add: dune_vm_map_pages_add_flags_helper_def wr_def)
qed

interpretation add_flags_cb: leaf_callback dune_vm_map_pages_add_flags_helper "\<lambda>x. x = f" UNIV "add_flags_rel f" for f
proof unfold_locales
  fix x :: u64 and s :: dune and l pte va
  assume "x = f" "pool_inv (pool s)" "thread_ok (pool s)" "l \<in> (UNIV :: nat set)"
  then show "\<exists>ret x' s'. dune_vm_map_pages_add_flags_helper pte va l (x, s) = Some (ret, x', s') \<and> x' = f \<and>
        pool_inv (pool s') \<and> thread_ok (pool s') \<and> in_use (pool s) \<subseteq> in_use (pool s') \<and>
        (ret = 0 \<and> (\<exists>v. mem s' = (mem s)(pte := v) \<and> add_flags_rel f l va (mem s pte) v) \<or> ret \<noteq> 0 \<and> mem s' = mem s)"
    using add_flags_helper_run [of s pte va l x] by (fastforce simp: ENOMEM_def)
qed (auto simp: is_leaf_def pte_big_bit bit_or_iff)

text \<open>The effect of adding flags to a range: on success, to every entry of the range that is not empty.\<close>

lemma add_flags_refines:
  assumes ok: "vm_ok T root s" and v: "vpn va \<le> vpn (va + len - 1)"
  shows "\<exists>ret s' T'. dune_vm_map_pages_add_flags root va len prm s = Some (ret, s') \<and> vm_ok T' root s' \<and>
    (\<forall>n < 0x1000000000. let (l, e) = pview (mem s) root n; added = (l, e OR get_pte_perm prm) in
       if covered (vpn va) (vpn (va + len - 1)) l n \<and> (0 < l \<or> e \<noteq> 0)
       then pview (mem s') root n = added \<or> ret \<noteq> 0 \<and> pview (mem s') root n = (l, e)
       else pview (mem s') root n = (l, e))"
proof -
  let ?w = "page_walk dune_vm_map_pages_add_flags_helper CREATE_NONE 3 root va (va + len - 1) (get_pte_perm prm, s)"
  have "walked (\<lambda>x. x = get_pte_perm prm) (add_flags_rel (get_pte_perm prm)) CREATE_NONE (hi16 va) root (vpn va) (vpn (va + len - 1)) s ?w T"
    by (rule add_flags_cb.page_walk_effect [OF refl ok v]) (auto simp: levels_in_def)
  then obtain ret x s' T' where w: "?w = Some (ret, x, s')" "vm_ok T' root s'"
      "effect (add_flags_rel (get_pte_perm prm)) CREATE_NONE (hi16 va) root (vpn va) (vpn (va + len - 1)) ret (mem s) (mem s')"
    unfolding walked_def by blast
  have "\<forall>n < 0x1000000000. let (l, e) = pview (mem s) root n; added = (l, e OR get_pte_perm prm) in
       if covered (vpn va) (vpn (va + len - 1)) l n \<and> (0 < l \<or> e \<noteq> 0)
       then pview (mem s') root n = added \<or> ret \<noteq> 0 \<and> pview (mem s') root n = (l, e)
       else pview (mem s') root n = (l, e)"
  proof (intro allI impI)
    fix n :: nat
    assume n: "n < 0x1000000000"
    obtain l e l' e' where p: "pview (mem s) root n = (l, e)" "pview (mem s') root n = (l', e')" by (metis surj_pair)
    show "let (l, e) = pview (mem s) root n; added = (l, e OR get_pte_perm prm) in
       if covered (vpn va) (vpn (va + len - 1)) l n \<and> (0 < l \<or> e \<noteq> 0)
       then pview (mem s') root n = added \<or> ret \<noteq> 0 \<and> pview (mem s') root n = (l, e)
       else pview (mem s') root n = (l, e)"
      using w(3) n p unfolding effect_def
      by (auto simp: leaf_post_def visited_def CREATE_NONE_def CREATE_NORMAL_def split: if_splits)
  qed
  then show ?thesis
    using w(1,2) by (auto simp: dune_vm_map_pages_add_flags_def dune_vm_page_walk_at_def NPTLVLS_def)
qed

lemma lookup_pde_from: "lookup_pde pde va create created s = lookup_from (Suc 0) pde va create created s"
  unfolding lookup_pde_def Let_def lookup_from.simps One_nat_def by (auto intro!: Option.bind_cong)

lemma lookup_pdpte_from: "lookup_pdpte pdpte va create created s = lookup_from (Suc (Suc 0)) pdpte va create created s"
  unfolding lookup_pdpte_def Let_def lookup_pde_from lookup_from.simps(2) [of "Suc 0"] numeral_2_eq_2 by auto

lemma lookup_internal_from:
  "dune_vm_lookup_internal root va create created s = lookup_from 3 root va create created s"
  unfolding dune_vm_lookup_internal_def Let_def lookup_pdpte_from numeral_3_eq_3 lookup_from.simps(2) [of "Suc (Suc 0)"] by simp

lemma lookup_create_ok:
  assumes ok: "vm_ok T root s" and d: "T d = Some (Suc l, b)" "i < 512"
    and absent: "\<not> is_leaf (Suc l) (mem s (ent d i))" "\<not> pte_present (mem s (ent d i))"
    and run: "lookup_create (ent d i) s = Some (t, s')"
  shows "vm_ok (T(t \<mapsto> (l, b * 512 + i))) root s'" "T t = None"
    "\<And>n. n < 0x1000000000 \<Longrightarrow> pview (mem s') root n = pview (mem s) root n" "links (mem s') (Suc l) d i t"
proof -
  obtain t1 s1 where a: "alloc_page s = Some (t1, s1)" "mem s1 = mem s" "vm_ok T root s1"
      "t1 \<noteq> 0 \<Longrightarrow> pg_aligned t1 \<and> T t1 = None \<and> PTE_ADDR t1 = t1 \<and> dune_pa2page t1 \<in> in_use (pool s1)"
    using alloc_page_ok [OF ok] by metis
  then have t: "t \<noteq> 0" "t1 = t" "s' = install_table (ent d i) t s1"
    using run by (auto simp: lookup_create_def split: if_splits)
  then have f: "pg_aligned t" "T t = None" "PTE_ADDR t = t" "dune_pa2page t \<in> in_use (pool s1)" using a(4) by auto
  note i = install_table_ok [OF a(3) d absent [folded a(2)] f]
  show "vm_ok (T(t \<mapsto> (l, b * 512 + i))) root s'" "T t = None" "links (mem s') (Suc l) d i t"
    "\<And>n. n < 0x1000000000 \<Longrightarrow> pview (mem s') root n = pview (mem s) root n"
    using i f t a(2) by simp_all
qed

lemma lookup_from_ok:
  assumes "vm_ok T root s" "T d = Some (l, vpn va div 512 ^ Suc l)"
    and "\<not> (0 < fst (pview (mem s) root (vpn va)) \<and> \<not> pte_present (snd (pview (mem s) root (vpn va))))"
    and "lookup_from l d va create created s = Some (ret, cr, out, s')"
  shows "\<exists>T'. vm_ok T' root s' \<and> T \<subseteq>\<^sub>m T' \<and> (\<forall>n < 0x1000000000. pview (mem s') root n = pview (mem s) root n) \<and>
     (\<not> create \<longrightarrow> s' = s) \<and>
     (case out of None \<Rightarrow> ret = - ENOENT \<and> \<not> create \<and> pt_leaf (mem s) l d (vpn va) = None
      | Some a \<Rightarrow> ret = 0 \<and> (\<exists>k d'. T' d' = Some (k, vpn va div 512 ^ Suc k) \<and> a = ent d' (pidx k (vpn va)) \<and> is_leaf k (mem s' a)))"
  using assms
proof (induction l arbitrary: d T s created)
  case 0
  then have "out = Some (ent d (pidx 0 (vpn va)))" "ret = 0" "s' = s" by (auto simp: PDX_vpn)
  then show ?case using 0 by (intro exI [of _ T]) (auto simp: is_leaf_def intro!: exI [of _ "0::nat"] exI [of _ d])
next
  case (Suc l)
  note o = vm_okD [OF Suc.prems(1)]
  let ?n = "vpn va"
  let ?i = "pidx (Suc l) ?n"
  let ?e = "mem s (ent d ?i)"
  have l3: "Suc l \<le> 3" using wf_level [OF o(5) Suc.prems(2)] .
  note pdx = PDX_vpn [OF l3, of va]
  have view: "pview (mem s) root ?n = view_at (mem s) (Suc l) d ?n"
    by (rule pview_region(1) [OF o(1) Suc.prems(2) vpn_less])
  consider (leaf) "is_leaf (Suc l) ?e" "pte_present ?e"
    | (link) "\<not> is_leaf (Suc l) ?e" "pte_present ?e"
    | (absent) "\<not> is_leaf (Suc l) ?e" "\<not> pte_present ?e"
    using Suc.prems(3) view by (cases "is_leaf (Suc l) ?e"; cases "pte_present ?e") (simp_all add: view_at_Suc)
  then show ?case
  proof cases
    case leaf
    then have "out = Some (ent d ?i)" "ret = 0" "s' = s" using Suc.prems(4) by (auto simp: pdx is_leaf_def Let_def)
    then show ?thesis using Suc.prems leaf by (intro exI [of _ T]) (auto intro!: exI [of _ "Suc l"] exI [of _ d])
  next
    case link
    have run: "lookup_from l (PTE_ADDR ?e) va create created s = Some (ret, cr, out, s')"
      using Suc.prems(4) link by (auto simp: pdx is_leaf_def Let_def)
    have "T (PTE_ADDR ?e) = Some (l, ?n div 512 ^ Suc l)"
      by (rule wf_child_pidx [OF o(1) Suc.prems(2)]) (use link in \<open>simp add: links_def\<close>)
    note ih = Suc.IH [OF Suc.prems(1) this Suc.prems(3) run]
    have "pt_leaf (mem s) (Suc l) d ?n = pt_leaf (mem s) l (PTE_ADDR ?e) ?n"
      using link by (simp add: pt_leaf_Suc)
    then show ?thesis by (simp only: ih)
  next
    case absent
    show ?thesis
    proof (cases create)
      case False
      then have "out = None" "ret = - ENOENT" "s' = s" using Suc.prems(4) absent by (auto simp: pdx Let_def)
      then show ?thesis using Suc.prems False absent by (intro exI [of _ T]) (auto simp: pt_leaf_Suc)
    next
      case True
      then obtain t s1 where c: "lookup_create (ent d ?i) s = Some (t, s1)"
          and run: "lookup_from l t va create True s1 = Some (ret, cr, out, s')"
        using Suc.prems(4) absent by (auto simp: pdx Let_def bind_Some_iff)
      note k = lookup_create_ok [OF Suc.prems(1,2) pidx_less absent c]
      have T1: "(T(t \<mapsto> (l, ?n div 512 ^ Suc (Suc l) * 512 + ?i))) t = Some (l, ?n div 512 ^ Suc l)"
        using pidx_split [of ?n "Suc l"] by simp
      have le: "T \<subseteq>\<^sub>m T(t \<mapsto> (l, ?n div 512 ^ Suc (Suc l) * 512 + ?i))" using k(2) by (auto simp: map_le_def)
      have nb: "\<not> (0 < fst (pview (mem s1) root ?n) \<and> \<not> pte_present (snd (pview (mem s1) root ?n)))"
        using Suc.prems(3) k(3) [OF vpn_less] by simp
      obtain T' where T': "vm_ok T' root s'" "T(t \<mapsto> (l, ?n div 512 ^ Suc (Suc l) * 512 + ?i)) \<subseteq>\<^sub>m T'"
          "\<forall>n < 0x1000000000. pview (mem s') root n = pview (mem s1) root n"
          "case out of None \<Rightarrow> ret = - ENOENT \<and> \<not> create \<and> pt_leaf (mem s1) l t ?n = None
           | Some a \<Rightarrow> ret = 0 \<and> (\<exists>k d'. T' d' = Some (k, ?n div 512 ^ Suc k) \<and> a = ent d' (pidx k ?n) \<and> is_leaf k (mem s' a))"
        using Suc.IH [OF k(1) T1 nb run] by blast
      then show ?thesis
        using True k(3) map_le_trans [OF le T'(2)] by (intro exI [of _ T']) (auto split: option.splits)
    qed
  qed
qed

lemma example_dune_ok: "vm_ok example_tables 0x1000 example_dune"
proof -
  have "pt_wf example_tables 0x1000 (\<lambda>_. 0)"
    by (auto simp: pt_wf_def tab_wf_def example_tables_def links_def pte_present_bit pg_aligned_def PGADDR_def split: if_splits)
  moreover have "pool_inv example_pool" "thread_ok example_pool"
    by (simp_all add: pool_inv_def thread_ok_def example_pool_def free_mset_def consts_def)
  moreover have "tables_used example_tables example_pool"
    by (auto simp: tables_used_def example_tables_def consts_def split: if_splits)
  ultimately show ?thesis by (simp add: vm_ok_def example_dune_def)
qed

lemma example_view: "pview (mem example_dune) 0x1000 n = (0, 0)"
  by (simp add: pview_view_at view_at_Suc example_dune_def is_leaf_def pte_present_bit pte_big_bit numeral_3_eq_3)

section \<open>Properties\<close>

text \<open>
  C1: on a well-formed table, \<open>dune_vm_map_phys\<close> with normal pages over a range without big pages
  always returns; with result 0 every page of the range is mapped to the corresponding physical
  page with exactly the flags of the permission, the only other result is \<open>-ENOMEM\<close> and then a
  page of the range is either mapped or as before; no page outside of the range changes; and the
  table stays well-formed.
\<close>

theorem vm_map_phys_correct:
  assumes "vm_ok T root s" "\<not> tst prm PERM_BIG" "\<not> tst prm PERM_BIG_1GB" "vpn va \<le> vpn (va + len - 1)"
    "\<forall>n. vpn va \<le> n \<longrightarrow> n \<le> vpn (va + len - 1) \<longrightarrow> fst (pview (mem s) root n) = 0"
  shows "\<exists>ret s' T'. dune_vm_map_phys root va len pa prm s = Some (ret, s') \<and> vm_ok T' root s' \<and>
    (ret = 0 \<or> ret = - ENOMEM) \<and>
    (\<forall>n < 0x1000000000.
        if vpn va \<le> n \<and> n \<le> vpn (va + len - 1)
        then pview (mem s') root n = (0, PTE_ADDR (va_of (hi16 va) n - va + pa) OR get_pte_perm prm) \<or>
             ret \<noteq> 0 \<and> pview (mem s') root n = pview (mem s) root n
        else pview (mem s') root n = pview (mem s) root n)"
  by (rule map_phys_refines [OF assms])

theorem vm_map_phys_correct_witness:
  "\<exists>ret s' T'. dune_vm_map_phys 0x1000 0x400000 0x3000 0x7000 (PERM_R OR PERM_W) example_dune = Some (ret, s') \<and>
    vm_ok T' 0x1000 s' \<and> (ret = 0 \<or> ret = - ENOMEM) \<and>
    (ret = 0 \<longrightarrow> pview (mem s') 0x1000 0x401 = (0, PTE_ADDR (va_of 0 0x401 - 0x400000 + 0x7000) OR get_pte_perm (PERM_R OR PERM_W)))"
proof -
  have v: "vpn 0x400000 = 0x400" "vpn (0x400000 + 0x3000 - 1) = 0x402" "hi16 0x400000 = 0"
    by (simp_all add: vpn_def hi16_def)
  have "\<not> tst (PERM_R OR PERM_W) PERM_BIG" "\<not> tst (PERM_R OR PERM_W) PERM_BIG_1GB"
    by (simp_all add: tst_def consts_def)
  from vm_map_phys_correct [OF example_dune_ok this, where va = "0x400000" and len = "0x3000" and pa = "0x7000"]
  obtain ret s' T' where r: "dune_vm_map_phys 0x1000 0x400000 0x3000 0x7000 (PERM_R OR PERM_W) example_dune = Some (ret, s')"
      "vm_ok T' 0x1000 s'" "ret = 0 \<or> ret = - ENOMEM"
    and view: "\<forall>n < 0x1000000000.
        if 0x400 \<le> n \<and> n \<le> 0x402
        then pview (mem s') 0x1000 n = (0, PTE_ADDR (va_of 0 n - 0x400000 + 0x7000) OR get_pte_perm (PERM_R OR PERM_W)) \<or>
             ret \<noteq> 0 \<and> pview (mem s') 0x1000 n = pview (mem example_dune) 0x1000 n
        else pview (mem s') 0x1000 n = pview (mem example_dune) 0x1000 n"
    unfolding v by (auto simp: example_view)
  have "ret = 0 \<longrightarrow> pview (mem s') 0x1000 0x401 = (0, PTE_ADDR (va_of 0 0x401 - 0x400000 + 0x7000) OR get_pte_perm (PERM_R OR PERM_W))"
    using spec [OF view, of "0x401"] by auto
  then show ?thesis using r by blast
qed

end
