(* ===== verification/Apic.thy ===== *)
theory Apic
  imports Vm
begin

text \<open>
  The local APIC and posted interrupts of \<open>libdune/apic.c\<close>: the table from cores to APIC ids, the
  posted-interrupt descriptors with their request and outstanding-notification bits, and the writes to the
  interrupt command register. What the APIC answers on successive reads of that register is an
  argument.
\<close>

unbundle bit_operations_syntax

section \<open>State\<close>

definition NUM_CORES :: u32 where [consts_def]: "NUM_CORES = 128"
definition POSTED_INTR_VECTOR :: u32 where [consts_def]: "POSTED_INTR_VECTOR = 0xF2"
definition APIC_DEST_PHYSICAL :: u32 where [consts_def]: "APIC_DEST_PHYSICAL = 0"
definition APIC_DM_FIXED :: u32 where [consts_def]: "APIC_DM_FIXED = 0"
definition APIC_ICR :: u32 where [consts_def]: "APIC_ICR = 0x300"
definition APIC_ICR2 :: u32 where [consts_def]: "APIC_ICR2 = 0x310"
definition APIC_ICR_BUSY :: u32 where [consts_def]: "APIC_ICR_BUSY = 0x01000"
definition PERM_NOCOW :: u32 where [consts_def]: "PERM_NOCOW = PERM_USR3"

record posted_interrupt_desc =
  pi_vectors :: "u32 list"
  pi_extra :: "u32 list"

record apic =
  apic_routing :: "int list"
  pi_descs :: "u32 \<Rightarrow> posted_interrupt_desc"
  apic_writes :: "(u32 \<times> u32) list"

section \<open>Operations\<close>

definition apic_write :: "u32 \<Rightarrow> u32 \<Rightarrow> apic \<Rightarrow> apic" where
  "apic_write reg v a = a\<lparr>apic_writes := apic_writes a @ [(reg, v)]\<rparr>"

text \<open>The APIC id from the value of the id register.\<close>

definition dune_apic_id :: "u32 \<Rightarrow> u32" where
  "dune_apic_id raw = drop_bit 24 raw AND 0xFF"

definition dune_setup_apic :: "nat \<Rightarrow> u64 \<Rightarrow> apic \<times> dune \<Rightarrow> (apic \<times> dune) option" where
  "dune_setup_apic nprocs buf st = (
     let (a, s) = st;
         a = a\<lparr>apic_routing := replicate nprocs (- 1)\<rparr>
     in do {
       (ret, s) \<leftarrow> dune_vm_map_pages_add_flags (pgroot s) buf PGSIZE PERM_NOCOW s;
       ensure (ret = 0);
       Some (a, s)
     })"

definition dune_apic_init_rt_entry :: "nat \<Rightarrow> u32 \<Rightarrow> apic \<Rightarrow> apic option" where
  "dune_apic_init_rt_entry core_id raw a = do {
     ensure (core_id < length (apic_routing a));
     Some (a\<lparr>apic_routing := (apic_routing a)[core_id := uint (dune_apic_id raw)]\<rparr>)
   }"

text \<open>The result and the error flag; the table is only as long as the machine has processors.\<close>

definition dune_apic_id_for_cpu :: "u32 \<Rightarrow> apic \<Rightarrow> (u32 \<times> bool) option" where
  "dune_apic_id_for_cpu cpu a = (
     if cpu \<ge> NUM_CORES then Some (0, True)
     else do {
       ensure (unat cpu < length (apic_routing a));
       let r = apic_routing a ! unat cpu;
       Some (if r = - 1 then (0, True) else (of_int r, False))
     })"

definition prepare_ICR :: "u32 \<Rightarrow> u32 \<Rightarrow> u32 \<Rightarrow> u32" where
  "prepare_ICR shortcut vector dest = shortcut OR dest OR APIC_DM_FIXED OR vector"

definition prepare_ICR2 :: "u32 \<Rightarrow> u32" where
  "prepare_ICR2 dmask = push_bit 24 dmask"

text \<open>Polling the command register: a bounded number of reads, after which the program dies.\<close>

function xapic_wait_icr_idle :: "(nat \<Rightarrow> u32) \<Rightarrow> nat \<Rightarrow> unit option" where
  "xapic_wait_icr_idle icr wait_loops = (
     if \<not> tst (icr wait_loops) APIC_ICR_BUSY then Some ()
     else if wait_loops + 1 \<ge> 1000000000 then None
     else xapic_wait_icr_idle icr (wait_loops + 1))"
  by pat_completeness auto

termination by (relation "measure (\<lambda>(_, n). 1000000000 - n)") auto

declare xapic_wait_icr_idle.simps [simp del]

definition default_send_IPI_dest_field ::
    "(nat \<Rightarrow> u32) \<Rightarrow> u32 \<Rightarrow> u32 \<Rightarrow> u32 \<Rightarrow> apic \<Rightarrow> apic option" where
  "default_send_IPI_dest_field icr dmask vector dest a = do {
     xapic_wait_icr_idle icr 0;
     Some (apic_write APIC_ICR (prepare_ICR 0 vector dest) (apic_write APIC_ICR2 (prepare_ICR2 dmask) a))
   }"

definition apic_send_ipi :: "(nat \<Rightarrow> u32) \<Rightarrow> u32 \<Rightarrow> u32 \<Rightarrow> apic \<Rightarrow> apic option" where
  "apic_send_ipi icr apicid vector a = default_send_IPI_dest_field icr apicid vector APIC_DEST_PHYSICAL a"

text \<open>The old bit and the bit array with the bit set; bit 32 is the lowest bit of the second word.\<close>

definition test_and_set_bit :: "nat \<Rightarrow> u32 list \<Rightarrow> bool \<times> u32 list" where
  "test_and_set_bit nr ws =
     (bit (ws ! (nr div 32)) (nr mod 32), ws[nr div 32 := ws ! (nr div 32) OR push_bit (nr mod 32) 1])"

definition dune_apic_send_posted_ipi :: "(nat \<Rightarrow> u32) \<Rightarrow> u8 \<Rightarrow> u32 \<Rightarrow> apic \<Rightarrow> apic option" where
  "dune_apic_send_posted_ipi icr vector destination_core a = (
     let desc = pi_descs a destination_core;
         (old, vs) = test_and_set_bit (unat vector) (pi_vectors desc);
         desc = desc\<lparr>pi_vectors := vs\<rparr>;
         a = a\<lparr>pi_descs := (pi_descs a)(destination_core := desc)\<rparr>
     in if old then Some a
        else
          let (old, ex) = test_and_set_bit 0 (pi_extra desc);
              desc = desc\<lparr>pi_extra := ex\<rparr>;
              a = a\<lparr>pi_descs := (pi_descs a)(destination_core := desc)\<rparr>
          in if old then Some a
             else do {
               (destination_apic_id, error) \<leftarrow> dune_apic_id_for_cpu destination_core a;
               if error then Some a
               else apic_send_ipi icr destination_apic_id POSTED_INTR_VECTOR a
             })"

section \<open>Abstraction\<close>

definition desc_wf :: "posted_interrupt_desc \<Rightarrow> bool" where
  "desc_wf d \<longleftrightarrow> length (pi_vectors d) = 8 \<and> length (pi_extra d) = 8"

definition pi_requests :: "posted_interrupt_desc \<Rightarrow> nat set" where
  "pi_requests d = {v. v < 256 \<and> bit (pi_vectors d ! (v div 32)) (v mod 32)}"

definition pi_on :: "posted_interrupt_desc \<Rightarrow> bool" where
  "pi_on d \<longleftrightarrow> bit (pi_extra d ! 0) 0"

text \<open>A request is never left without an outstanding notification.\<close>

definition pi_notified :: "posted_interrupt_desc \<Rightarrow> bool" where
  "pi_notified d \<longleftrightarrow> (pi_requests d \<noteq> {} \<longrightarrow> pi_on d)"

definition routed :: "u32 \<Rightarrow> apic \<Rightarrow> bool" where
  "routed core a \<longleftrightarrow> core < NUM_CORES \<and> apic_routing a ! unat core \<noteq> - 1"

definition idle_desc :: posted_interrupt_desc where
  "idle_desc = \<lparr>pi_vectors = replicate 8 0, pi_extra = replicate 8 0\<rparr>"

definition example_apic :: apic where
  "example_apic = \<lparr>apic_routing = [4, 6, - 1, - 1], pi_descs = (\<lambda>_. idle_desc), apic_writes = []\<rparr>"

section \<open>Lemmas\<close>

lemma bit_index: "v < 256 \<Longrightarrow> v div 32 < (8 :: nat)"
  by simp

lemma set_bit_old:
  fixes ws :: "u32 list"
  assumes "i div 32 < length ws"
  shows "bit ((ws[i div 32 := ws ! (i div 32) OR push_bit (i mod 32) 1]) ! (v div 32)) (v mod 32) \<longleftrightarrow>
     v = i \<or> bit (ws ! (v div 32)) (v mod 32)"
proof -
  have v: "v = i \<longleftrightarrow> v div 32 = i div 32 \<and> v mod 32 = i mod 32" by (metis div_mult_mod_eq)
  show ?thesis
    using assms by (cases "v div 32 = i div 32") (auto simp: bit_or_iff bit_exp_iff v)
qed

lemma post_request:
  assumes "desc_wf d" "i < 256"
  shows "pi_requests (d\<lparr>pi_vectors := snd (test_and_set_bit i (pi_vectors d))\<rparr>) = insert i (pi_requests d)"
    "fst (test_and_set_bit i (pi_vectors d)) \<longleftrightarrow> i \<in> pi_requests d"
    "desc_wf (d\<lparr>pi_vectors := snd (test_and_set_bit i (pi_vectors d))\<rparr>)"
    "pi_on (d\<lparr>pi_vectors := ws\<rparr>) = pi_on d"
  using assms bit_index [of i] set_bit_old [of i "pi_vectors d"]
  by (auto simp: pi_requests_def test_and_set_bit_def desc_wf_def pi_on_def)

lemma post_on:
  assumes "desc_wf d"
  shows "pi_on (d\<lparr>pi_extra := snd (test_and_set_bit 0 (pi_extra d))\<rparr>)"
    "fst (test_and_set_bit 0 (pi_extra d)) \<longleftrightarrow> pi_on d"
    "desc_wf (d\<lparr>pi_extra := snd (test_and_set_bit 0 (pi_extra d))\<rparr>)"
    "pi_requests (d\<lparr>pi_extra := ws\<rparr>) = pi_requests d"
  using assms set_bit_old [of 0 "pi_extra d" 0]
  by (auto simp: pi_requests_def test_and_set_bit_def desc_wf_def pi_on_def)

lemma send_posted_ipi_cases:
  fixes vector :: u8
  assumes wf: "desc_wf (pi_descs a core)"
  defines "d1 \<equiv> (pi_descs a core)\<lparr>pi_vectors := snd (test_and_set_bit (unat vector) (pi_vectors (pi_descs a core)))\<rparr>"
  defines "d2 \<equiv> d1\<lparr>pi_extra := snd (test_and_set_bit 0 (pi_extra d1))\<rparr>"
  shows "dune_apic_send_posted_ipi icr vector core a = (
    if unat vector \<in> pi_requests (pi_descs a core) then Some (a\<lparr>pi_descs := (pi_descs a)(core := d1)\<rparr>)
    else if pi_on (pi_descs a core) then Some (a\<lparr>pi_descs := (pi_descs a)(core := d2)\<rparr>)
    else do {
      (aid, error) \<leftarrow> dune_apic_id_for_cpu core a;
      if error then Some (a\<lparr>pi_descs := (pi_descs a)(core := d2)\<rparr>)
      else apic_send_ipi icr aid POSTED_INTR_VECTOR (a\<lparr>pi_descs := (pi_descs a)(core := d2)\<rparr>)
    })"
proof -
  have v: "unat vector < 256" using unat_less_exp [of vector] by simp
  have r: "dune_apic_id_for_cpu core (a\<lparr>pi_descs := x\<rparr>) = dune_apic_id_for_cpu core a" for x
    by (simp add: dune_apic_id_for_cpu_def)
  have u: "(a\<lparr>pi_descs := (pi_descs a)(core := x)\<rparr>)\<lparr>pi_descs := (pi_descs (a\<lparr>pi_descs := (pi_descs a)(core := x)\<rparr>))(core := y)\<rparr>
      = a\<lparr>pi_descs := (pi_descs a)(core := y)\<rparr>" for x y by simp
  show ?thesis
    using post_request [OF wf v] post_on [of d1] r
    unfolding dune_apic_send_posted_ipi_def Let_def split_beta d1_def [symmetric] u
    by (simp add: d1_def d2_def cong: if_cong)
qed

lemma requests_posted:
  fixes vector :: u8
  assumes "desc_wf d"
  defines "d1 \<equiv> d\<lparr>pi_vectors := snd (test_and_set_bit (unat vector) (pi_vectors d))\<rparr>"
  defines "d2 \<equiv> d1\<lparr>pi_extra := snd (test_and_set_bit 0 (pi_extra d1))\<rparr>"
  shows "pi_requests d1 = insert (unat vector) (pi_requests d)" "pi_requests d2 = insert (unat vector) (pi_requests d)"
    "pi_on d1 = pi_on d" "pi_on d2" "desc_wf d1" "desc_wf d2"
proof -
  have v: "unat vector < 256" using unat_less_exp [of vector] by simp
  note r = post_request [OF assms(1) v]
  show 1: "pi_requests d1 = insert (unat vector) (pi_requests d)" "pi_on d1 = pi_on d" "desc_wf d1"
    unfolding d1_def using r by simp_all
  show "pi_requests d2 = insert (unat vector) (pi_requests d)" "pi_on d2" "desc_wf d2"
    unfolding d2_def using post_on [OF 1(3)] 1(1) by simp_all
qed

section \<open>Properties\<close>

text \<open>
  C13: posting an interrupt to a core of the machine, with the command register free, records the request
  in that core's descriptor and no other; it keeps the rule that a recorded request has a notification
  outstanding; and it writes the command register, with the core's APIC id and the
  notification vector, exactly when neither bit was set before and the core has a route.
\<close>

theorem posted_ipi_effect:
  assumes "desc_wf (pi_descs a core)" "pi_notified (pi_descs a core)" "unat core < length (apic_routing a)"
    "\<not> tst (icr 0) APIC_ICR_BUSY"
  shows "\<exists>a'. dune_apic_send_posted_ipi icr vector core a = Some a' \<and>
    pi_requests (pi_descs a' core) = insert (unat vector) (pi_requests (pi_descs a core)) \<and>
    desc_wf (pi_descs a' core) \<and> pi_on (pi_descs a' core) \<and>
    (\<forall>c. c \<noteq> core \<longrightarrow> pi_descs a' c = pi_descs a c) \<and> apic_routing a' = apic_routing a \<and>
    apic_writes a' = apic_writes a @
      (if \<not> pi_on (pi_descs a core) \<and> routed core a
       then [(APIC_ICR2, push_bit 24 (of_int (apic_routing a ! unat core))), (APIC_ICR, 0xF2)] else [])"
proof -
  have idle: "xapic_wait_icr_idle icr 0 = Some ()" using assms(4) by (subst xapic_wait_icr_idle.simps) simp
  have on: "unat vector \<in> pi_requests (pi_descs a core) \<Longrightarrow> pi_on (pi_descs a core)"
    using assms(2) by (auto simp: pi_notified_def)
  show ?thesis
    unfolding send_posted_ipi_cases [OF assms(1)]
    using requests_posted [OF assms(1), of vector] on assms(3)
    by (auto simp: dune_apic_id_for_cpu_def apic_send_ipi_def default_send_IPI_dest_field_def idle routed_def
        apic_write_def prepare_ICR_def prepare_ICR2_def consts_def not_le ensure_def Let_def)
qed

theorem posted_ipi_effect_witness:
  "\<exists>a'. dune_apic_send_posted_ipi (\<lambda>_. 0) 0xf1 1 example_apic = Some a' \<and> pi_on (pi_descs a' 1) \<and>
    pi_requests (pi_descs a' 1) = {0xf1} \<and> apic_writes a' = [(0x310, 0x6000000), (0x300, 0xF2)]"
proof -
  have d: "pi_descs example_apic 1 = idle_desc" "desc_wf idle_desc" "pi_requests idle_desc = {}" "\<not> pi_on idle_desc"
    by (auto simp: example_apic_def desc_wf_def idle_desc_def pi_requests_def pi_on_def bit_index)
  show ?thesis
    using posted_ipi_effect [of example_apic 1 "\<lambda>_. 0" "0xf1"] d
    by (auto simp: pi_notified_def routed_def tst_def consts_def) (auto simp: example_apic_def consts_def)
qed




end
