(* ===== verification/Ipi_Ring.thy ===== *)
theory Ipi_Ring
  imports Dune_Prelude
begin

text \<open>
  The inter-processor message rings of \<open>libdune/ipi_call.c\<close>: one ring per (target, source) pair,
  head and tail as free-running 64-bit counters over a buffer of four messages. The sequential
  operations refine a bounded FIFO queue; a step relation interleaves the loads and stores of one
  sender with those of the receiver.
\<close>

unbundle bit_operations_syntax

section \<open>Messages and rings\<close>

datatype ipi_call_message_type = CALL_TYPE_NON_BATCHABLE | CALL_TYPE_BATCHABLE

record ipi_message =
  msg_func :: u64
  msg_type :: ipi_call_message_type
  msg_arg :: u64

record ipi_ring =
  ring_head :: u64
  ring_tail :: u64
  ring_buf :: "nat \<Rightarrow> ipi_message"

datatype ipi_func_phase = PHASE_NONE | PHASE1 | PHASE2

record ipi_percpu_ring =
  rings :: "nat \<Rightarrow> ipi_ring"
  phase :: ipi_func_phase

type_synonym cpu_rings = "nat \<Rightarrow> ipi_percpu_ring"

definition IPI_INVALID_NUMBER :: u64 where [consts_def]: "IPI_INVALID_NUMBER = 0xffffffffffffffff"
definition IPI_VECTOR :: u8 where [consts_def]: "IPI_VECTOR = 0xf1"
definition IPI_MAX_CPUS :: nat where [consts_def]: "IPI_MAX_CPUS = 128"
definition IPI_MESSAGE_RINGBUF_SIZE :: u64 where [consts_def]: "IPI_MESSAGE_RINGBUF_SIZE = 4"

definition slot_of :: "u64 \<Rightarrow> nat" where
  "slot_of n = unat (n mod IPI_MESSAGE_RINGBUF_SIZE)"

definition get_ring :: "nat \<Rightarrow> nat \<Rightarrow> cpu_rings \<Rightarrow> ipi_ring" where
  "get_ring target src cr = rings (cr target) src"

definition set_ring :: "nat \<Rightarrow> nat \<Rightarrow> ipi_ring \<Rightarrow> cpu_rings \<Rightarrow> cpu_rings" where
  "set_ring target src r cr = cr(target := (cr target)\<lparr>rings := (rings (cr target))(src := r)\<rparr>)"

definition set_phase :: "nat \<Rightarrow> ipi_func_phase \<Rightarrow> cpu_rings \<Rightarrow> cpu_rings" where
  "set_phase target p cr = cr(target := (cr target)\<lparr>phase := p\<rparr>)"

section \<open>Operations\<close>

text \<open>The body of a send on one ring: the call number, or the invalid number when it is full.\<close>

definition ring_send :: "ipi_message \<Rightarrow> ipi_ring \<Rightarrow> (u64 \<times> ipi_ring) option" where
  "ring_send msg r = (
     let head = ring_head r;
         tail = ring_tail r
     in if \<not> head \<le> tail then None
        else if tail - head \<ge> IPI_MESSAGE_RINGBUF_SIZE then Some (IPI_INVALID_NUMBER, r)
        else Some (tail, r\<lparr>ring_buf := (ring_buf r)(slot_of tail := msg), ring_tail := tail + 1\<rparr>))"

definition dune_queue_ipi_call_fast ::
    "nat \<Rightarrow> nat \<Rightarrow> ipi_message \<Rightarrow> cpu_rings \<Rightarrow> (u64 \<times> cpu_rings) option" where
  "dune_queue_ipi_call_fast src_core target_core msg cr = do {
     (n, r) \<leftarrow> ring_send msg (get_ring target_core src_core cr);
     Some (n, set_ring target_core src_core r cr)
   }"

text \<open>The copy loop of a collect, and the collect of one ring.\<close>

definition ring_msgs :: "u64 \<Rightarrow> nat \<Rightarrow> ipi_ring \<Rightarrow> ipi_message list" where
  "ring_msgs head n r = map (\<lambda>i. ring_buf r (slot_of (head + of_nat i))) [0 ..< n]"

definition ring_collect :: "ipi_ring \<Rightarrow> (ipi_message list \<times> ipi_ring) option" where
  "ring_collect r = (
     let head = ring_head r;
         tail = ring_tail r
     in if head = tail then Some ([], r)
        else if \<not> tail > head then None
        else
          let n_msgs = tail - head
          in Some (ring_msgs head (unat n_msgs) r, r\<lparr>ring_head := head + n_msgs\<rparr>))"

definition dune_collect_ipi_messages ::
    "nat \<Rightarrow> nat \<Rightarrow> cpu_rings \<Rightarrow> (ipi_message list \<times> cpu_rings) option" where
  "dune_collect_ipi_messages target_core src_core cr = do {
     (msgs, r) \<leftarrow> ring_collect (get_ring target_core src_core cr);
     Some (msgs, set_ring target_core src_core r cr)
   }"

definition dune_queue_ipi_call_empty :: "nat \<Rightarrow> nat \<Rightarrow> cpu_rings \<Rightarrow> bool option" where
  "dune_queue_ipi_call_empty src_core target_core cr = (
     let r = get_ring target_core src_core cr
     in if \<not> ring_head r \<le> ring_tail r then None else Some (ring_head r \<ge> ring_tail r))"

definition dune_queue_ipi_call_head :: "nat \<Rightarrow> nat \<Rightarrow> cpu_rings \<Rightarrow> u64" where
  "dune_queue_ipi_call_head src_core target_core cr = ring_head (get_ring target_core src_core cr)"

definition dune_queue_ipi_call_tail :: "nat \<Rightarrow> nat \<Rightarrow> cpu_rings \<Rightarrow> u64" where
  "dune_queue_ipi_call_tail src_core target_core cr = ring_tail (get_ring target_core src_core cr)"

definition dune_queued_ipi_phase :: "nat \<Rightarrow> cpu_rings \<Rightarrow> ipi_func_phase" where
  "dune_queued_ipi_phase target_core cr = phase (cr target_core)"

definition dune_ipi_call_number_collected :: "nat \<Rightarrow> nat \<Rightarrow> u64 \<Rightarrow> cpu_rings \<Rightarrow> bool" where
  "dune_ipi_call_number_collected src_core target_core call_num cr \<longleftrightarrow>
     ring_head (get_ring target_core src_core cr) > call_num"

definition dune_queued_ipi_need_interrupt :: "nat \<Rightarrow> cpu_rings \<Rightarrow> bool" where
  "dune_queued_ipi_need_interrupt target_core cr \<longleftrightarrow> dune_queued_ipi_phase target_core cr \<noteq> PHASE1"

text \<open>
  The blocking send: the 64-bit call number is stored in a \<open>bool\<close>, and the loop ends once that is
  true.
\<close>

partial_function (option) dune_queue_ipi_call ::
    "nat \<Rightarrow> nat \<Rightarrow> ipi_message \<Rightarrow> cpu_rings \<Rightarrow> cpu_rings option" where
  "dune_queue_ipi_call src_core target_core msg cr = do {
     (n, cr) \<leftarrow> dune_queue_ipi_call_fast src_core target_core msg cr;
     let succeeded = (n \<noteq> 0);
     if succeeded then Some cr else dune_queue_ipi_call src_core target_core msg cr
   }"

section \<open>The interrupt handler\<close>

primrec collect_all :: "nat \<Rightarrow> nat list \<Rightarrow> cpu_rings \<Rightarrow> (ipi_message list \<times> cpu_rings) option" where
  "collect_all cpu [] cr = Some ([], cr)"
| "collect_all cpu (i # is) cr = do {
     (msgs, cr) \<leftarrow> dune_collect_ipi_messages cpu i cr;
     (rest, cr) \<leftarrow> collect_all cpu is cr;
     Some (msgs @ rest, cr)
   }"

text \<open>
  One round: collect from every core, run the non-batchable messages in order, then hand the
  batchable ones to the registered batch function, if there are any. The functions called are a
  parameter of the model: what they do to the rest of the machine.
\<close>

definition handle_messages ::
    "(ipi_message \<Rightarrow> 'w \<Rightarrow> 'w) \<Rightarrow> (ipi_message list \<Rightarrow> 'w \<Rightarrow> 'w) \<Rightarrow> ipi_message list \<Rightarrow> 'w \<Rightarrow> 'w" where
  "handle_messages call batch_ipi_call msgs w = (
     let buf_batchable = filter (\<lambda>m. msg_type m = CALL_TYPE_BATCHABLE) msgs;
         buf_nonbatchable = filter (\<lambda>m. msg_type m \<noteq> CALL_TYPE_BATCHABLE) msgs;
         w = fold call buf_nonbatchable w
     in if buf_batchable \<noteq> [] then batch_ipi_call buf_batchable w else w)"

definition dune_ipi_interrupt_handler ::
    "(ipi_message \<Rightarrow> 'w \<Rightarrow> 'w) \<Rightarrow> (ipi_message list \<Rightarrow> 'w \<Rightarrow> 'w) \<Rightarrow> nat \<Rightarrow> cpu_rings \<times> 'w \<Rightarrow>
     (cpu_rings \<times> 'w) option" where
  "dune_ipi_interrupt_handler call batch_ipi_call cpu_id st = (
     let (cr, w) = st;
         cr = set_phase cpu_id PHASE1 cr
     in do {
       (buf, cr) \<leftarrow> collect_all cpu_id [0 ..< IPI_MAX_CPUS] cr;
       let w = handle_messages call batch_ipi_call buf w;
       let cr = set_phase cpu_id PHASE2 cr;
       (buf, cr) \<leftarrow> collect_all cpu_id [0 ..< IPI_MAX_CPUS] cr;
       let w = handle_messages call batch_ipi_call buf w;
       Some (set_phase cpu_id PHASE_NONE cr, w)
     })"

section \<open>The interleaving of one sender with the receiver\<close>

text \<open>
  The loads and stores of \<open>dune_queue_ipi_call_fast\<close> and \<open>dune_collect_ipi_messages\<close> on one
  ring, one at a time: the sender has loaded the head, then also the tail, then stored the message;
  the receiver has loaded the head, then also the tail and copied some of the messages. The ghost
  lists record what was accepted and what was handed to the handler.
\<close>

datatype sender = S_Idle | S_Head ipi_message u64 | S_Tail ipi_message u64 u64 | S_Stored ipi_message u64

datatype receiver = R_Idle | R_Head u64 | R_Copy u64 u64 "ipi_message list"

record spsc =
  the_ring :: ipi_ring
  sender_pc :: sender
  receiver_pc :: receiver
  sent :: "ipi_message list"
  delivered :: "ipi_message list"

inductive spsc_step :: "spsc \<Rightarrow> spsc \<Rightarrow> bool" where
  send_head: "sender_pc c = S_Idle \<Longrightarrow>
    spsc_step c (c\<lparr>sender_pc := S_Head m (ring_head (the_ring c))\<rparr>)"
| send_tail: "sender_pc c = S_Head m h \<Longrightarrow>
    spsc_step c (c\<lparr>sender_pc := S_Tail m h (ring_tail (the_ring c))\<rparr>)"
| send_full: "sender_pc c = S_Tail m h t \<Longrightarrow> t - h \<ge> IPI_MESSAGE_RINGBUF_SIZE \<Longrightarrow>
    spsc_step c (c\<lparr>sender_pc := S_Idle\<rparr>)"
| send_store: "sender_pc c = S_Tail m h t \<Longrightarrow> \<not> t - h \<ge> IPI_MESSAGE_RINGBUF_SIZE \<Longrightarrow>
    spsc_step c (c\<lparr>sender_pc := S_Stored m t,
      the_ring := (the_ring c)\<lparr>ring_buf := (ring_buf (the_ring c))(slot_of t := m)\<rparr>\<rparr>)"
| send_publish: "sender_pc c = S_Stored m t \<Longrightarrow>
    spsc_step c (c\<lparr>sender_pc := S_Idle, sent := sent c @ [m],
      the_ring := (the_ring c)\<lparr>ring_tail := ring_tail (the_ring c) + 1\<rparr>\<rparr>)"
| recv_head: "receiver_pc c = R_Idle \<Longrightarrow>
    spsc_step c (c\<lparr>receiver_pc := R_Head (ring_head (the_ring c))\<rparr>)"
| recv_empty: "receiver_pc c = R_Head h \<Longrightarrow> h = ring_tail (the_ring c) \<Longrightarrow>
    spsc_step c (c\<lparr>receiver_pc := R_Idle\<rparr>)"
| recv_tail: "receiver_pc c = R_Head h \<Longrightarrow> h \<noteq> ring_tail (the_ring c) \<Longrightarrow>
    spsc_step c (c\<lparr>receiver_pc := R_Copy h (ring_tail (the_ring c)) []\<rparr>)"
| recv_copy: "receiver_pc c = R_Copy h t ms \<Longrightarrow> of_nat (length ms) < t - h \<Longrightarrow>
    spsc_step c (c\<lparr>receiver_pc :=
      R_Copy h t (ms @ [ring_buf (the_ring c) (slot_of (h + of_nat (length ms)))])\<rparr>)"
| recv_release: "receiver_pc c = R_Copy h t ms \<Longrightarrow> of_nat (length ms) = t - h \<Longrightarrow>
    spsc_step c (c\<lparr>receiver_pc := R_Idle, delivered := delivered c @ ms,
      the_ring := (the_ring c)\<lparr>ring_head := ring_head (the_ring c) + (t - h)\<rparr>\<rparr>)"

section \<open>Abstraction and invariants\<close>

definition ring_ok :: "ipi_ring \<Rightarrow> bool" where
  "ring_ok r \<longleftrightarrow> ring_head r \<le> ring_tail r \<and> ring_tail r - ring_head r \<le> IPI_MESSAGE_RINGBUF_SIZE"

definition pending :: "ipi_ring \<Rightarrow> ipi_message list" where
  "pending r = ring_msgs (ring_head r) (unat (ring_tail r - ring_head r)) r"

definition ring_room :: "ipi_ring \<Rightarrow> nat" where
  "ring_room r = 2 ^ 64 - 1 - unat (ring_tail r)"

text \<open>A run of sends (\<open>Some m\<close>) and collects (\<open>None\<close>), with what was accepted and what was handed out.\<close>

primrec fifo_run ::
    "('m \<Rightarrow> 'q \<Rightarrow> (u64 \<times> 'q) option) \<Rightarrow> ('q \<Rightarrow> ('m list \<times> 'q) option) \<Rightarrow>
     'm option list \<Rightarrow> 'q \<Rightarrow> ('m list \<times> 'm list \<times> 'q) option" where
  "fifo_run put drain [] q = Some ([], [], q)"
| "fifo_run put drain (x # xs) q = (case x of
     Some m \<Rightarrow> do {
       (n, q) \<leftarrow> put m q;
       (acc, out, q) \<leftarrow> fifo_run put drain xs q;
       Some (if n = IPI_INVALID_NUMBER then acc else m # acc, out, q)
     }
   | None \<Rightarrow> do {
       (ms, q) \<leftarrow> drain q;
       (acc, out, q) \<leftarrow> fifo_run put drain xs q;
       Some (acc, ms @ out, q)
     })"

text \<open>The invariant of the interleaving: the ring, the sender and the receiver.\<close>

definition spsc_init :: spsc where
  "spsc_init = \<lparr>the_ring = \<lparr>ring_head = 0, ring_tail = 0, ring_buf = (\<lambda>_. \<lparr>msg_func = 0, msg_type = CALL_TYPE_NON_BATCHABLE, msg_arg = 0\<rparr>)\<rparr>,
     sender_pc = S_Idle, receiver_pc = R_Idle, sent = [], delivered = []\<rparr>"

abbreviation hd_n :: "spsc \<Rightarrow> nat" where "hd_n c \<equiv> unat (ring_head (the_ring c))"

abbreviation tl_n :: "spsc \<Rightarrow> nat" where "tl_n c \<equiv> unat (ring_tail (the_ring c))"

definition sender_ok :: "spsc \<Rightarrow> bool" where
  "sender_ok c \<longleftrightarrow> (case sender_pc c of
     S_Idle \<Rightarrow> True
   | S_Head m h \<Rightarrow> unat h \<le> hd_n c
   | S_Tail m h t \<Rightarrow> unat h \<le> hd_n c \<and> t = ring_tail (the_ring c)
   | S_Stored m t \<Rightarrow> t = ring_tail (the_ring c) \<and> tl_n c < hd_n c + 4 \<and> ring_buf (the_ring c) (tl_n c mod 4) = m)"

definition receiver_ok :: "spsc \<Rightarrow> bool" where
  "receiver_ok c \<longleftrightarrow> (case receiver_pc c of
     R_Idle \<Rightarrow> True
   | R_Head h \<Rightarrow> h = ring_head (the_ring c)
   | R_Copy h t ms \<Rightarrow> h = ring_head (the_ring c) \<and> hd_n c < unat t \<and> unat t \<le> tl_n c \<and>
       length ms \<le> unat t - hd_n c \<and> ms = take (length ms) (drop (hd_n c) (sent c)))"

definition spsc_inv :: "spsc \<Rightarrow> bool" where
  "spsc_inv c \<longleftrightarrow> hd_n c \<le> tl_n c \<and> tl_n c \<le> hd_n c + 4 \<and> tl_n c = length (sent c) \<and>
     delivered c = take (hd_n c) (sent c) \<and>
     (\<forall>i. hd_n c \<le> i \<longrightarrow> i < tl_n c \<longrightarrow> ring_buf (the_ring c) (i mod 4) = sent c ! i)"

text \<open>A machine whose rings are all empty, and a message.\<close>

definition example_msg :: ipi_message where
  "example_msg = \<lparr>msg_func = 0x400000, msg_type = CALL_TYPE_BATCHABLE, msg_arg = 7\<rparr>"

definition example_rings :: cpu_rings where
  "example_rings = (\<lambda>_. \<lparr>rings = (\<lambda>_. the_ring spsc_init), phase = PHASE_NONE\<rparr>)"

section \<open>One ring as a bounded queue\<close>

text \<open>The contract: a queue of at most \<open>cap\<close> messages, good for \<open>room\<close> more messages.\<close>

locale bounded_fifo =
  fixes put :: "'m \<Rightarrow> 'q \<Rightarrow> (u64 \<times> 'q) option"
    and drain :: "'q \<Rightarrow> ('m list \<times> 'q) option"
    and contents :: "'q \<Rightarrow> 'm list"
    and ok :: "'q \<Rightarrow> bool"
    and room :: "'q \<Rightarrow> nat"
    and cap :: nat
  assumes put_room: "ok q \<Longrightarrow> length (contents q) < cap \<Longrightarrow> 0 < room q \<Longrightarrow>
      \<exists>n q'. put m q = Some (n, q') \<and> n \<noteq> IPI_INVALID_NUMBER \<and> ok q' \<and> contents q' = contents q @ [m] \<and> room q' = room q - 1"
    and put_full: "ok q \<Longrightarrow> cap \<le> length (contents q) \<Longrightarrow> put m q = Some (IPI_INVALID_NUMBER, q)"
    and drain_all: "ok q \<Longrightarrow> \<exists>q'. drain q = Some (contents q, q') \<and> ok q' \<and> contents q' = [] \<and> room q' = room q"
    and bounded: "ok q \<Longrightarrow> length (contents q) \<le> cap"

context bounded_fifo
begin

lemma put_cases:
  assumes "ok q" "0 < room q"
  obtains n q' where "put m q = Some (n, q')" "ok q'" "room q - 1 \<le> room q'"
    "contents q' = contents q @ (if n = IPI_INVALID_NUMBER then [] else [m])"
proof (cases "length (contents q) < cap")
  case True
  show ?thesis using put_room [OF assms(1) True assms(2), of m] that by auto
next
  case False
  then have "put m q = Some (IPI_INVALID_NUMBER, q)" by (simp add: put_full assms(1))
  then show ?thesis using that assms(1) by simp
qed

lemma run_in_order:
  "ok q \<Longrightarrow> length xs \<le> room q \<Longrightarrow>
   \<exists>acc out q'. fifo_run put drain xs q = Some (acc, out, q') \<and> ok q' \<and> contents q @ acc = out @ contents q'"
proof (induction xs arbitrary: q)
  case Nil
  then show ?case by simp
next
  case (Cons x xs)
  show ?case
  proof (cases x)
    case None
    obtain q1 where q1: "drain q = Some (contents q, q1)" "ok q1" "contents q1 = []" "room q1 = room q"
      using drain_all [OF Cons.prems(1)] by blast
    then show ?thesis using Cons.IH [of q1] Cons.prems(2) None by auto
  next
    case (Some m)
    have "0 < room q" using Cons.prems(2) by simp
    then obtain n q1 where q1: "put m q = Some (n, q1)" "ok q1" "room q - 1 \<le> room q1"
        "contents q1 = contents q @ (if n = IPI_INVALID_NUMBER then [] else [m])"
      using put_cases [OF Cons.prems(1)] by metis
    have "length xs \<le> room q1" using q1(3) Cons.prems(2) by simp
    then obtain acc out q' where "fifo_run put drain xs q1 = Some (acc, out, q')" "ok q'"
        "contents q1 @ acc = out @ contents q'"
      using Cons.IH [OF q1(2)] by blast
    then show ?thesis using q1(1,4) Some by (cases "n = IPI_INVALID_NUMBER") auto
  qed
qed

end

lemma slot_of_unat: "slot_of n = unat n mod 4"
  by (simp add: slot_of_def unat_mod consts_def)

lemma slot_of_add:
  fixes h :: u64
  assumes "unat h + i < 2 ^ 64"
  shows "slot_of (h + of_nat i) = (unat h + i) mod 4"
proof -
  have "i < 2 ^ 64" using assms by simp
  then have "unat (of_nat i :: u64) = i" by (simp add: unat_of_nat_small)
  then have "unat (h + of_nat i) = unat h + i"
    using assms by (simp add: unat_add_lem [THEN iffD1])
  then show ?thesis by (simp add: slot_of_unat)
qed

lemma ring_msgs_unat:
  fixes r :: ipi_ring
  assumes "unat h + n < 2 ^ 64"
  shows "ring_msgs h n r = map (\<lambda>i. ring_buf r (i mod 4)) [unat h ..< unat h + n]"
proof -
  have "ring_msgs h n r = map (\<lambda>i. ring_buf r ((i + unat h) mod 4)) [0 ..< n]"
    unfolding ring_msgs_def using assms by (auto simp: slot_of_add add.commute intro!: map_cong)
  also have "\<dots> = map (\<lambda>i. ring_buf r (i mod 4)) (map (\<lambda>i. i + unat h) [0 ..< n])" by simp
  also have "map (\<lambda>i. i + unat h) [0 ..< n] = [unat h ..< unat h + n]"
    by (simp add: map_add_upt add.commute)
  finally show ?thesis .
qed

lemma ring_ok_unat:
  "ring_ok r \<longleftrightarrow> unat (ring_head r) \<le> unat (ring_tail r) \<and> unat (ring_tail r) \<le> unat (ring_head r) + 4"
  by (auto simp: ring_ok_def word_le_nat_alt unat_sub consts_def)

lemma pending_unat:
  assumes "ring_ok r"
  shows "pending r = map (\<lambda>i. ring_buf r (i mod 4)) [unat (ring_head r) ..< unat (ring_tail r)]"
proof -
  let ?h = "unat (ring_head r)" and ?t = "unat (ring_tail r)"
  have le: "?h \<le> ?t" using assms by (simp add: ring_ok_unat)
  then have n: "unat (ring_tail r - ring_head r) = ?t - ?h" by (simp add: unat_sub word_le_nat_alt)
  have "?h + (?t - ?h) < 2 ^ 64" using le unat_less_exp [of "ring_tail r"] by simp
  then have "ring_msgs (ring_head r) (?t - ?h) r = map (\<lambda>i. ring_buf r (i mod 4)) [?h ..< ?h + (?t - ?h)]"
    by (rule ring_msgs_unat)
  then show ?thesis using le by (simp add: pending_def n)
qed

lemma length_pending: "ring_ok r \<Longrightarrow> length (pending r) = unat (ring_tail r) - unat (ring_head r)"
  by (simp add: pending_unat)

lemma mod4_distinct: "j < i \<Longrightarrow> i < j + 4 \<Longrightarrow> i mod 4 \<noteq> j mod (4::nat)"
proof
  assume "j < i" "i < j + 4" "i mod 4 = j mod 4"
  then have "4 dvd i - j" by (simp add: mod_eq_dvd_iff_nat)
  with \<open>j < i\<close> \<open>i < j + 4\<close> show False by (auto simp: dvd_def) presburger
qed

lemma ring_send_room:
  assumes ok: "ring_ok r" and len: "length (pending r) < 4" and room: "0 < ring_room r"
  shows "\<exists>r'. ring_send m r = Some (ring_tail r, r') \<and> ring_tail r \<noteq> IPI_INVALID_NUMBER \<and> ring_ok r' \<and>
     pending r' = pending r @ [m] \<and> ring_room r' = ring_room r - 1"
proof -
  let ?h = "unat (ring_head r)" and ?t = "unat (ring_tail r)"
  let ?r = "r\<lparr>ring_buf := (ring_buf r)(slot_of (ring_tail r) := m), ring_tail := ring_tail r + 1\<rparr>"
  have le: "?h \<le> ?t" "?t < ?h + 4" using ok len by (auto simp: ring_ok_unat length_pending)
  have lt: "?t + 1 < 2 ^ 64" using room by (simp add: ring_room_def)
  then have t1: "unat (ring_tail r + 1) = ?t + 1" by (simp add: unat_add_lem [THEN iffD1])
  have ok': "ring_ok ?r" using le by (simp add: ring_ok_unat t1)
  have "i mod 4 \<noteq> ?t mod 4" if "?h \<le> i" "i < ?t" for i
    using mod4_distinct [of i ?t] that le by force
  then have pend: "pending ?r = pending r @ [m]"
    unfolding pending_unat [OF ok'] pending_unat [OF ok] using le by (simp add: t1 slot_of_unat)
  have "\<not> ring_tail r - ring_head r \<ge> IPI_MESSAGE_RINGBUF_SIZE"
    using le by (simp add: word_le_nat_alt unat_sub consts_def)
  moreover have "ring_head r \<le> ring_tail r" using le by (simp add: word_le_nat_alt)
  ultimately have "ring_send m r = Some (ring_tail r, ?r)" by (simp add: ring_send_def Let_def)
  moreover have "ring_tail r \<noteq> IPI_INVALID_NUMBER" using lt by (auto simp: consts_def)
  ultimately show ?thesis using ok' pend by (auto simp: ring_room_def t1)
qed

lemma ring_send_full:
  assumes "ring_ok r" "4 \<le> length (pending r)"
  shows "ring_send m r = Some (IPI_INVALID_NUMBER, r)"
  using assms by (simp add: ring_send_def ring_ok_unat length_pending word_le_nat_alt unat_sub consts_def)

lemma ring_collect_all:
  assumes "ring_ok r"
  shows "ring_collect r = Some (pending r, r\<lparr>ring_head := ring_tail r\<rparr>)"
  using assms by (auto simp: ring_collect_def pending_def ring_msgs_def ring_ok_def Let_def)

lemma ring_drained [simp]: "ring_ok (r\<lparr>ring_head := ring_tail r\<rparr>)" "pending (r\<lparr>ring_head := ring_tail r\<rparr>) = []"
    "ring_room (r\<lparr>ring_head := h\<rparr>) = ring_room r"
  by (simp_all add: ring_ok_def pending_def ring_msgs_def ring_room_def consts_def)

interpretation ring_fifo: bounded_fifo ring_send ring_collect pending ring_ok ring_room 4
proof unfold_locales
  fix q :: ipi_ring and m
  show "\<exists>n q'. ring_send m q = Some (n, q') \<and> n \<noteq> IPI_INVALID_NUMBER \<and> ring_ok q' \<and>
      pending q' = pending q @ [m] \<and> ring_room q' = ring_room q - 1"
    if "ring_ok q" "length (pending q) < 4" "0 < ring_room q"
    using ring_send_room [OF that] by blast
  show "ring_send m q = Some (IPI_INVALID_NUMBER, q)" if "ring_ok q" "4 \<le> length (pending q)"
    using ring_send_full [OF that] .
  show "\<exists>q'. ring_collect q = Some (pending q, q') \<and> ring_ok q' \<and> pending q' = [] \<and> ring_room q' = ring_room q"
    if "ring_ok q" by (simp add: ring_collect_all [OF that])
  show "length (pending q) \<le> 4" if "ring_ok q" using that by (auto simp: ring_ok_unat length_pending)
qed

section \<open>Sender and receiver interleaved\<close>

lemmas spsc_defs = sender_ok_def receiver_ok_def spsc_inv_def

lemma unat_sub_small: "unat h \<le> unat t \<Longrightarrow> unat (t - h) = unat t - unat h" for h t :: u64
  by (simp add: unat_sub word_le_nat_alt)

lemma store_keeps:
  assumes inv: "spsc_inv c" "sender_ok c" and pc: "sender_pc c = S_Tail m h t"
    and room: "\<not> t - h \<ge> IPI_MESSAGE_RINGBUF_SIZE"
  shows "tl_n c < hd_n c + 4"
    "\<forall>i. hd_n c \<le> i \<longrightarrow> i < tl_n c \<longrightarrow> ((ring_buf (the_ring c))(slot_of t := m)) (i mod 4) = sent c ! i"
proof -
  have t: "t = ring_tail (the_ring c)" "unat h \<le> hd_n c" "hd_n c \<le> tl_n c"
    using inv pc by (auto simp: spsc_defs)
  then have "unat (t - h) = unat t - unat h" by (intro unat_sub_small) simp
  then show lt: "tl_n c < hd_n c + 4" using room t by (simp add: word_le_nat_alt consts_def)
  show "\<forall>i. hd_n c \<le> i \<longrightarrow> i < tl_n c \<longrightarrow> ((ring_buf (the_ring c))(slot_of t := m)) (i mod 4) = sent c ! i"
  proof (intro allI impI)
    fix i assume i: "hd_n c \<le> i" "i < tl_n c"
    then have "i mod 4 \<noteq> tl_n c mod 4" using mod4_distinct [of i "tl_n c"] lt by force
    then show "((ring_buf (the_ring c))(slot_of t := m)) (i mod 4) = sent c ! i"
      using inv(1) i t(1) by (simp add: slot_of_unat spsc_inv_def)
  qed
qed

lemma publish_tail:
  assumes "spsc_inv c" "length (sent c) + 1 < 2 ^ 64"
  shows "unat (ring_tail (the_ring c) + 1) = tl_n c + 1"
  using assms by (simp add: spsc_inv_def unat_add_lem [THEN iffD1])

lemma copy_slot:
  assumes inv: "spsc_inv c" "receiver_ok c" and pc: "receiver_pc c = R_Copy h t ms"
    and more: "of_nat (length ms) < t - h"
  shows "length ms < unat t - hd_n c"
    "ring_buf (the_ring c) (slot_of (h + of_nat (length ms))) = sent c ! (hd_n c + length ms)"
proof -
  have t: "h = ring_head (the_ring c)" "hd_n c < unat t" "unat t \<le> tl_n c" "length ms \<le> unat t - hd_n c"
    using inv pc by (auto simp: receiver_ok_def)
  have small: "hd_n c + length ms < 2 ^ 64" using t unat_less_exp [of t] by simp
  have "unat (of_nat (length ms) :: u64) = length ms" using small by (simp add: unat_of_nat_small)
  then show lt: "length ms < unat t - hd_n c"
    using more t by (simp add: word_less_nat_alt unat_sub_small)
  show "ring_buf (the_ring c) (slot_of (h + of_nat (length ms))) = sent c ! (hd_n c + length ms)"
    using inv(1) t lt small by (simp add: slot_of_add spsc_inv_def)
qed

lemma release_head:
  assumes inv: "spsc_inv c" "receiver_ok c" and pc: "receiver_pc c = R_Copy h t ms"
    and all: "of_nat (length ms) = t - h"
  shows "unat (ring_head (the_ring c) + (t - h)) = unat t" "ms = take (unat t - hd_n c) (drop (hd_n c) (sent c))"
proof -
  have t: "h = ring_head (the_ring c)" "hd_n c < unat t" "length ms \<le> unat t - hd_n c"
      "ms = take (length ms) (drop (hd_n c) (sent c))"
    using inv pc by (auto simp: receiver_ok_def)
  show "unat (ring_head (the_ring c) + (t - h)) = unat t" using t(1) by simp
  have "length ms < 2 ^ 64" using t unat_less_exp [of t] by simp
  then have "length ms = unat t - hd_n c"
    using arg_cong [OF all, of unat] t by (simp add: unat_of_nat_small unat_sub_small)
  then show "ms = take (unat t - hd_n c) (drop (hd_n c) (sent c))" using t(4) by simp
qed

lemma spsc_step_inv:
  assumes "spsc_step c c'" "spsc_inv c" "sender_ok c" "receiver_ok c" "length (sent c') < 2 ^ 64"
  shows "spsc_inv c' \<and> sender_ok c' \<and> receiver_ok c'"
  using assms
proof (cases rule: spsc_step.cases)
  case (send_store m h t)
  note k = store_keeps [OF assms(2,3) send_store(2,3)]
  show ?thesis using assms(2-4) k send_store by (auto simp: spsc_defs slot_of_unat split: receiver.splits)
next
  case (send_publish m t)
  then have len: "length (sent c) + 1 < 2 ^ 64" using assms(5) by simp
  note k = publish_tail [OF assms(2) len]
  have "i = length (sent c)" if "i < Suc (length (sent c))" "\<not> i < length (sent c)" for i using that by simp
  then show ?thesis using assms(2-4) k send_publish
    by (auto simp: spsc_defs nth_append less_Suc_eq split: receiver.splits)
next
  case (recv_tail h)
  then have "ring_head (the_ring c) \<noteq> ring_tail (the_ring c)" using assms(4) by (simp add: receiver_ok_def)
  then have "hd_n c < tl_n c" using assms(2) by (metis spsc_inv_def le_neq_implies_less word_eq_unat)
  then show ?thesis using assms(2-4) recv_tail by (auto simp: spsc_defs split: sender.splits)
next
  case (recv_copy h t ms)
  note k = copy_slot [OF assms(2,4) recv_copy(2,3)]
  show ?thesis using assms(2-4) k recv_copy by (auto simp: spsc_defs take_Suc_conv_app_nth split: sender.splits)
next
  case (recv_release h t ms)
  note k = release_head [OF assms(2,4) recv_release(2,3)]
  have t: "hd_n c < unat t" "unat t \<le> tl_n c" using assms(4) recv_release by (auto simp: receiver_ok_def)
  then have "take (hd_n c) (sent c) @ take (unat t - hd_n c) (drop (hd_n c) (sent c)) = take (unat t) (sent c)"
    by (metis le_add_diff_inverse less_imp_le take_add)
  then have "delivered c' = take (hd_n c') (sent c')" using assms(2) k recv_release by (simp add: spsc_inv_def)
  then have "spsc_inv c'" using assms(2) k(1) t recv_release(1) by (simp add: spsc_inv_def)
  moreover have "receiver_ok c'" using recv_release(1) by (simp add: receiver_ok_def)
  moreover have "sender_ok c'" using assms(3) k(1) t recv_release(1) by (simp add: sender_ok_def split: sender.splits)
  ultimately show ?thesis by blast
qed (auto simp: spsc_defs split: sender.splits receiver.splits)

lemma spsc_reach_inv:
  assumes "spsc_step\<^sup>*\<^sup>* spsc_init c" "length (sent c) < 2 ^ 64"
  shows "spsc_inv c \<and> sender_ok c \<and> receiver_ok c"
  using assms
proof (induction rule: rtranclp_induct)
  case base
  show ?case by (simp add: spsc_defs spsc_init_def)
next
  case (step c c')
  have "length (sent c) \<le> length (sent c')" using step.hyps(2) by cases auto
  then show ?case using step spsc_step_inv by (meson le_less_trans)
qed

section \<open>The rings of all cores\<close>

lemma get_set_ring [simp]:
  "get_ring t s (set_ring t' s' r cr) = (if t = t' \<and> s = s' then r else get_ring t s cr)"
  "get_ring t s (set_phase t' p cr) = get_ring t s cr"
  "phase (set_ring t' s' r cr t) = phase (cr t)"
  by (simp_all add: get_ring_def set_ring_def set_phase_def)

interpretation core_fifo: bounded_fifo "dune_queue_ipi_call_fast src tgt" "dune_collect_ipi_messages tgt src"
  "\<lambda>cr. pending (get_ring tgt src cr)" "\<lambda>cr. ring_ok (get_ring tgt src cr)" "\<lambda>cr. ring_room (get_ring tgt src cr)" 4
  for src tgt
proof unfold_locales
  fix q :: cpu_rings and m
  let ?r = "get_ring tgt src q"
  show "\<exists>n q'. dune_queue_ipi_call_fast src tgt m q = Some (n, q') \<and> n \<noteq> IPI_INVALID_NUMBER \<and>
      ring_ok (get_ring tgt src q') \<and> pending (get_ring tgt src q') = pending ?r @ [m] \<and>
      ring_room (get_ring tgt src q') = ring_room ?r - 1"
    if "ring_ok ?r" "length (pending ?r) < 4" "0 < ring_room ?r"
    using ring_send_room [OF that, of m] by (auto simp: dune_queue_ipi_call_fast_def)
  show "dune_queue_ipi_call_fast src tgt m q = Some (IPI_INVALID_NUMBER, q)"
    if "ring_ok ?r" "4 \<le> length (pending ?r)"
    using ring_send_full [OF that, of m] by (simp add: dune_queue_ipi_call_fast_def set_ring_def get_ring_def)
  show "\<exists>q'. dune_collect_ipi_messages tgt src q = Some (pending ?r, q') \<and> ring_ok (get_ring tgt src q') \<and>
      pending (get_ring tgt src q') = [] \<and> ring_room (get_ring tgt src q') = ring_room ?r"
    if "ring_ok ?r" by (simp add: dune_collect_ipi_messages_def ring_collect_all [OF that])
  show "length (pending ?r) \<le> 4" if "ring_ok ?r" using ring_fifo.bounded [OF that] .
qed

lemma collect_all_ok:
  assumes "distinct is" "\<forall>i\<in>set is. ring_ok (get_ring cpu i cr)"
  shows "\<exists>cr'. collect_all cpu is cr = Some (concat (map (\<lambda>i. pending (get_ring cpu i cr)) is), cr') \<and>
    (\<forall>t s. get_ring t s cr' = (if t = cpu \<and> s \<in> set is then (get_ring t s cr)\<lparr>ring_head := ring_tail (get_ring t s cr)\<rparr> else get_ring t s cr)) \<and>
    (\<forall>t. phase (cr' t) = phase (cr t))"
  using assms
proof (induction "is" arbitrary: cr)
  case Nil
  then show ?case by simp
next
  case (Cons i "is")
  let ?r = "get_ring cpu i cr"
  define cr1 where "cr1 = set_ring cpu i (?r\<lparr>ring_head := ring_tail ?r\<rparr>) cr"
  have c: "dune_collect_ipi_messages cpu i cr = Some (pending ?r, cr1)"
    using Cons.prems(2) by (simp add: dune_collect_ipi_messages_def ring_collect_all cr1_def)
  have same: "map (\<lambda>j. pending (get_ring cpu j cr1)) is = map (\<lambda>j. pending (get_ring cpu j cr)) is"
    using Cons.prems(1) by (auto simp: cr1_def)
  have "\<forall>j\<in>set is. ring_ok (get_ring cpu j cr1)" using Cons.prems by (auto simp: cr1_def)
  from Cons.IH [OF _ this] obtain cr' where cr':
      "collect_all cpu is cr1 = Some (concat (map (\<lambda>j. pending (get_ring cpu j cr1)) is), cr')"
      "\<And>t s. get_ring t s cr' = (if t = cpu \<and> s \<in> set is then (get_ring t s cr1)\<lparr>ring_head := ring_tail (get_ring t s cr1)\<rparr> else get_ring t s cr1)"
      "\<And>t. phase (cr' t) = phase (cr1 t)"
    using Cons.prems(1) by auto
  show ?case
    using Cons.prems(1) by (auto simp: c cr' same) (auto simp: cr1_def)
qed

lemma handle_no_messages [simp]: "handle_messages call batch [] w = w"
  by (simp add: handle_messages_def)

lemma phase_set_phase [simp]: "phase (set_phase t p cr u) = (if u = t then p else phase (cr u))"
  by (simp add: set_phase_def)

section \<open>Properties\<close>

text \<open>
  C5: between one source and one target core, whatever sequence of sends and collects is run, no
  assertion fires, and the messages handed to the target so far, followed by the ones still in
  the ring, are exactly the accepted messages in the order in which they were sent. The bound is the
  number of sends left before the 64-bit tail would wrap.
\<close>

theorem ipi_messages_in_order:
  assumes "ring_ok (get_ring tgt src cr)" "length xs \<le> ring_room (get_ring tgt src cr)"
  shows "\<exists>acc out cr'. fifo_run (dune_queue_ipi_call_fast src tgt) (dune_collect_ipi_messages tgt src) xs cr = Some (acc, out, cr') \<and>
    ring_ok (get_ring tgt src cr') \<and>
    pending (get_ring tgt src cr) @ acc = out @ pending (get_ring tgt src cr')"
  by (rule core_fifo.run_in_order [OF assms])

lemma example_rings_ok [simp]: "ring_ok (get_ring t s example_rings)" "ring_room (get_ring t s example_rings) = 2 ^ 64 - 1"
    "pending (get_ring t s example_rings) = []"
  by (simp_all add: example_rings_def get_ring_def spsc_init_def ring_ok_def ring_room_def pending_def ring_msgs_def)

theorem ipi_messages_in_order_witness:
  "\<exists>acc out cr'. fifo_run (dune_queue_ipi_call_fast 1 2) (dune_collect_ipi_messages 2 1) [Some example_msg, None, Some example_msg] example_rings = Some (acc, out, cr') \<and>
    ring_ok (get_ring 2 1 cr') \<and> acc = out @ pending (get_ring 2 1 cr')"
  using ipi_messages_in_order [of 2 1 example_rings "[Some example_msg, None, Some example_msg]"] by simp

text \<open>
  C4: with the loads and stores of one sender interleaved in any way with those of the receiver,
  what has been delivered is always an initial part of what was sent, at most four messages are in
  flight, and neither side's assertion on head and tail can fail.
\<close>

theorem ipi_ring_concurrent:
  assumes "spsc_step\<^sup>*\<^sup>* spsc_init c" "length (sent c) < 2 ^ 64"
  shows "delivered c = take (length (delivered c)) (sent c) \<and> length (sent c) \<le> length (delivered c) + 4 \<and>
    (\<forall>m h t. sender_pc c = S_Tail m h t \<longrightarrow> h \<le> t) \<and>
    (\<forall>h. receiver_pc c = R_Head h \<longrightarrow> h \<noteq> ring_tail (the_ring c) \<longrightarrow> h < ring_tail (the_ring c))"
proof -
  have inv: "spsc_inv c" "sender_ok c" "receiver_ok c" using spsc_reach_inv [OF assms] by auto
  have d: "delivered c = take (hd_n c) (sent c)" "hd_n c \<le> length (sent c)" "length (sent c) \<le> hd_n c + 4"
      "hd_n c \<le> tl_n c"
    using inv(1) by (auto simp: spsc_inv_def)
  have "length (delivered c) = hd_n c" using d by simp
  moreover have "h \<le> t" if "sender_pc c = S_Tail m h t" for m h t
    using inv(2) that d(4) by (simp add: sender_ok_def word_le_nat_alt)
  moreover have "h < ring_tail (the_ring c)" if "receiver_pc c = R_Head h" "h \<noteq> ring_tail (the_ring c)" for h
    using inv(3) that d(4) by (simp add: receiver_ok_def word_less_nat_alt word_eq_unat)
  ultimately show ?thesis using d by simp
qed

theorem ipi_ring_concurrent_witness:
  "\<exists>c. spsc_step\<^sup>*\<^sup>* spsc_init c \<and> sender_pc c = S_Tail example_msg 0 0 \<and> delivered c = take (length (delivered c)) (sent c) \<and>
    (\<forall>m h t. sender_pc c = S_Tail m h t \<longrightarrow> h \<le> t)"
proof -
  let ?a = "spsc_init\<lparr>sender_pc := S_Head example_msg 0\<rparr>" and ?b = "spsc_init\<lparr>sender_pc := S_Tail example_msg 0 0\<rparr>"
  have "spsc_step spsc_init ?a" using send_head [of spsc_init example_msg] by (simp add: spsc_init_def)
  moreover have "spsc_step ?a ?b" using send_tail [of ?a example_msg 0] by (simp add: spsc_init_def)
  ultimately have r: "spsc_step\<^sup>*\<^sup>* spsc_init ?b" by (meson rtranclp.rtrancl_into_rtrancl rtranclp.rtrancl_refl)
  moreover have "length (sent ?b) < 2 ^ 64" by (simp add: spsc_init_def)
  ultimately show ?thesis using ipi_ring_concurrent [of ?b] by (intro exI [of _ ?b]) simp
qed







text \<open>
  C17: the blocking send tests a call number as if it were a truth value. The first message on a
  fresh ring gets the number 0, reads as a failure, and is queued twice; a message for a full ring
  gets the invalid number, reads as a success, and is dropped.
\<close>

theorem ipi_blocking_send_misreads:
  "(ring_head (get_ring tgt src cr) = 0 \<and> ring_tail (get_ring tgt src cr) = 0 \<longrightarrow>
     (\<exists>cr'. dune_queue_ipi_call src tgt m cr = Some cr' \<and> pending (get_ring tgt src cr') = [m, m])) \<and>
   (ring_ok (get_ring tgt src cr) \<and> length (pending (get_ring tgt src cr)) = 4 \<longrightarrow>
     dune_queue_ipi_call src tgt m cr = Some cr)"
proof (intro conjI impI)
  let ?r = "get_ring tgt src cr"
  assume z: "ring_head ?r = 0 \<and> ring_tail ?r = 0"
  let ?r1 = "?r\<lparr>ring_buf := (ring_buf ?r)(0 := m), ring_tail := 1\<rparr>"
  let ?r2 = "?r1\<lparr>ring_buf := (ring_buf ?r1)(1 := m), ring_tail := 2\<rparr>"
  have s: "ring_send m ?r = Some (0, ?r1)" "ring_send m ?r1 = Some (1, ?r2)"
    using z by (simp_all add: ring_send_def consts_def slot_of_unat word_le_nat_alt)
  have "dune_queue_ipi_call src tgt m cr = Some (set_ring tgt src ?r2 (set_ring tgt src ?r1 cr))"
    by (simp add: dune_queue_ipi_call.simps dune_queue_ipi_call_fast_def s)
  moreover have "pending ?r2 = [m, m]"
    using z by (simp add: pending_def ring_msgs_def slot_of_unat upt_rec)
  ultimately show "\<exists>cr'. dune_queue_ipi_call src tgt m cr = Some cr' \<and> pending (get_ring tgt src cr') = [m, m]"
    by simp
next
  assume "ring_ok (get_ring tgt src cr) \<and> length (pending (get_ring tgt src cr)) = 4"
  then have "dune_queue_ipi_call_fast src tgt m cr = Some (IPI_INVALID_NUMBER, cr)"
    using core_fifo.put_full by simp
  then show "dune_queue_ipi_call src tgt m cr = Some cr"
    by (simp add: dune_queue_ipi_call.simps consts_def)
qed

theorem ipi_blocking_send_misreads_witness:
  "\<exists>cr'. dune_queue_ipi_call 1 2 example_msg example_rings = Some cr' \<and> pending (get_ring 2 1 cr') = [example_msg, example_msg]"
  using ipi_blocking_send_misreads [of 2 1 example_rings example_msg]
  by (simp add: example_rings_def get_ring_def spsc_init_def)

end
