(* ===== verification/Address_Map.thy ===== *)
theory Address_Map
  imports Dune_Prelude
begin

text \<open>
  The three views of an address: the host virtual address of the process, the guest physical address
  the kernel module assigns to it (\<open>hva_to_gpa\<close>, \<open>gpa_to_hva\<close> of \<open>kern/ept.c\<close>), and the library's
  own conversion (\<open>dune_va_to_pa\<close> of \<open>libdune/dune.h\<close>) from the layout the module reports.
\<close>

unbundle bit_operations_syntax

section \<open>Layout\<close>

record mm_struct =
  mm_mmap_base :: u64
  mm_start_stack :: u64

record dune_layout =
  phys_limit :: u64
  base_map :: u64
  base_stack :: u64

definition GPA_STACK_SIZE :: u64 where [consts_def]: "GPA_STACK_SIZE = 0x40000000"
definition GPA_MAP_SIZE :: u64 where [consts_def]: "GPA_MAP_SIZE = 0x1000000000 - GPA_STACK_SIZE"
definition GPA_APIC_PAGE :: u64 where [consts_def]: "GPA_APIC_PAGE = 0x400000000000 - 4096"
definition GPA_POSTED_INTR_DESCS :: u64 where [consts_def]: "GPA_POSTED_INTR_DESCS = 0x200000000000"
definition GPA_PV_INFO_PAGES :: u64 where [consts_def]: "GPA_PV_INFO_PAGES = 0x400000000000 - 4096 * 1024"
definition APIC_BASE :: u64 where [consts_def]: "APIC_BASE = 0xfffffffffffff000"
definition POSTED_INTR_DESCS_BASE :: u64 where [consts_def]: "POSTED_INTR_DESCS_BASE = GPA_POSTED_INTR_DESCS"
definition PV_INFO_PAGES_BASE :: u64 where [consts_def]: "PV_INFO_PAGES_BASE = GPA_PV_INFO_PAGES"
definition ADDR_INVAL :: u64 where [consts_def]: "ADDR_INVAL = - 1"

definition LG_ALIGN :: "u64 \<Rightarrow> u64" where
  "LG_ALIGN addr = (addr + 0x40000000 - 1) AND NOT 0x3fffffff"

definition phys_end :: "nat \<Rightarrow> u64" where
  "phys_end x86_phys_bits = push_bit x86_phys_bits 1"

definition dune_get_layout :: "nat \<Rightarrow> mm_struct \<Rightarrow> dune_layout" where
  "dune_get_layout x86_phys_bits mm = \<lparr>phys_limit = phys_end x86_phys_bits,
     base_map = LG_ALIGN (mm_mmap_base mm) - GPA_MAP_SIZE,
     base_stack = LG_ALIGN (mm_start_stack mm) - GPA_STACK_SIZE\<rparr>"

section \<open>The kernel module's conversions\<close>

definition hva_to_gpa :: "nat \<Rightarrow> mm_struct \<Rightarrow> u64 \<Rightarrow> u64" where
  "hva_to_gpa x86_phys_bits mm hva = (
     let pend = phys_end x86_phys_bits;
         mmap_start = LG_ALIGN (mm_mmap_base mm) - GPA_MAP_SIZE;
         stack_start = LG_ALIGN (mm_start_stack mm) - GPA_STACK_SIZE
     in if hva \<ge> stack_start then
          if hva - stack_start \<ge> GPA_STACK_SIZE then ADDR_INVAL
          else hva - stack_start + pend - GPA_STACK_SIZE
        else if hva \<ge> mmap_start then
          if hva - mmap_start \<ge> GPA_MAP_SIZE then ADDR_INVAL
          else hva - mmap_start + pend - GPA_STACK_SIZE - GPA_MAP_SIZE
        else if hva \<ge> pend - GPA_STACK_SIZE - GPA_MAP_SIZE then ADDR_INVAL
        else hva)"

text \<open>The pages that are not backed by process memory: the APIC and the per-core windows of 256 pages.\<close>

definition gpa_window :: "u64 \<Rightarrow> nat \<Rightarrow> u64 \<Rightarrow> bool" where
  "gpa_window base n gpa \<longleftrightarrow> PGADDR gpa \<ge> base \<and> PGADDR gpa < base + 4096 * of_nat n"

definition gpa_to_hva :: "nat \<Rightarrow> mm_struct \<Rightarrow> u64 \<Rightarrow> u64" where
  "gpa_to_hva x86_phys_bits mm gpa = (
     let pend = phys_end x86_phys_bits
     in if PGADDR gpa = GPA_APIC_PAGE then 0
        else if gpa_window GPA_POSTED_INTR_DESCS 256 gpa then 0
        else if gpa_window GPA_PV_INFO_PAGES 256 gpa then 0
        else if gpa < pend - GPA_STACK_SIZE - GPA_MAP_SIZE then gpa
        else if gpa < pend - GPA_STACK_SIZE then
          gpa - (pend - GPA_STACK_SIZE - GPA_MAP_SIZE) + LG_ALIGN (mm_mmap_base mm) - GPA_MAP_SIZE
        else if gpa < pend then
          gpa - (pend - GPA_STACK_SIZE) + LG_ALIGN (mm_start_stack mm) - GPA_STACK_SIZE
        else ADDR_INVAL)"

section \<open>The library's conversion\<close>

definition dune_mmap_addr_to_pa :: "dune_layout \<Rightarrow> u64 \<Rightarrow> u64" where
  "dune_mmap_addr_to_pa L ptr = (ptr - base_map L) + (phys_limit L - GPA_STACK_SIZE - GPA_MAP_SIZE)"

definition dune_stack_addr_to_pa :: "dune_layout \<Rightarrow> u64 \<Rightarrow> u64" where
  "dune_stack_addr_to_pa L ptr = ptr - base_stack L + phys_limit L - GPA_STACK_SIZE"

definition dune_va_to_pa :: "dune_layout \<Rightarrow> u64 \<Rightarrow> u64" where
  "dune_va_to_pa L ptr = (
     if PGADDR ptr = APIC_BASE then GPA_APIC_PAGE
     else if gpa_window POSTED_INTR_DESCS_BASE 256 ptr then
       GPA_POSTED_INTR_DESCS + (PGADDR ptr - POSTED_INTR_DESCS_BASE)
     else if gpa_window PV_INFO_PAGES_BASE 256 ptr then
       GPA_PV_INFO_PAGES + (PGADDR ptr - PV_INFO_PAGES_BASE)
     else if ptr \<ge> base_stack L then dune_stack_addr_to_pa L ptr
     else if ptr \<ge> base_map L then dune_mmap_addr_to_pa L ptr
     else ptr)"

text \<open>Guest physical addresses that the module answers with a window rather than with process memory.\<close>

definition gpa_special :: "u64 \<Rightarrow> bool" where
  "gpa_special gpa \<longleftrightarrow> PGADDR gpa = GPA_APIC_PAGE \<or> gpa_window GPA_POSTED_INTR_DESCS 256 gpa \<or>
     gpa_window GPA_PV_INFO_PAGES 256 gpa"

definition va_special :: "u64 \<Rightarrow> bool" where
  "va_special ptr \<longleftrightarrow> PGADDR ptr = APIC_BASE \<or> gpa_window POSTED_INTR_DESCS_BASE 256 ptr \<or>
     gpa_window PV_INFO_PAGES_BASE 256 ptr"

definition example_mm :: mm_struct where
  "example_mm = \<lparr>mm_mmap_base = 0x7f0000000000, mm_start_stack = 0x7ffd00000000\<rparr>"

section \<open>Lemmas\<close>

text \<open>An offset below a bound, rebased: it stays below the shifted bound and comes back.\<close>

lemma rebase:
  fixes off base size pend :: u64
  assumes "off < size" "size \<le> pend"
  shows "off + pend - size < pend" "pend - size \<le> off + pend - size"
proof -
  have o: "unat off < unat size" "unat size \<le> unat pend" using assms by (simp_all add: word_less_nat_alt word_le_nat_alt)
  have e: "off + pend - size = pend - (size - off)" by simp
  have "unat (size - off) = unat size - unat off" using o by (simp add: unat_sub word_le_nat_alt)
  moreover have "unat (pend - (size - off)) = unat pend - (unat size - unat off)"
    using o calculation by (simp add: unat_sub word_le_nat_alt)
  moreover have "unat (pend - size) = unat pend - unat size" using o by (simp add: unat_sub word_le_nat_alt)
  ultimately show "off + pend - size < pend" "pend - size \<le> off + pend - size"
    unfolding e using o by (simp_all add: word_less_nat_alt word_le_nat_alt)
qed

lemma phys_end_ge:
  assumes "36 \<le> b" "b < 64"
  shows "0x1000000000 \<le> phys_end b"
proof -
  have "unat (phys_end b) = 2 ^ b"
  proof -
    have "phys_end b = of_nat (2 ^ b)" by (simp add: phys_end_def push_bit_eq_mult)
    moreover have "(2::nat) ^ b < 2 ^ LENGTH(64)" using assms by (intro power_strict_increasing) simp_all
    ultimately show ?thesis by (simp only: unat_of_nat_small)
  qed
  moreover have "(2::nat) ^ 36 \<le> 2 ^ b" using assms by (intro power_increasing) simp_all
  ultimately show ?thesis by (simp add: word_le_nat_alt)
qed

lemma window_sizes:
  assumes "0x1000000000 \<le> (p :: u64)"
  shows "GPA_STACK_SIZE \<le> p" "GPA_MAP_SIZE \<le> p - GPA_STACK_SIZE" "p - GPA_STACK_SIZE - GPA_MAP_SIZE \<le> p - GPA_STACK_SIZE"
    "p - GPA_STACK_SIZE \<le> p"
proof -
  have u: "unat (0x1000000000 :: u64) \<le> unat p" using assms by (simp only: word_le_nat_alt)
  show 1: "GPA_STACK_SIZE \<le> p" using u by (simp add: consts_def word_le_nat_alt)
  have d: "unat (p - GPA_STACK_SIZE) = unat p - 0x40000000" using 1 by (simp add: unat_sub consts_def)
  show 2: "GPA_MAP_SIZE \<le> p - GPA_STACK_SIZE" unfolding word_le_nat_alt d using u by (simp add: consts_def)
  show "p - GPA_STACK_SIZE - GPA_MAP_SIZE \<le> p - GPA_STACK_SIZE" using 2 by (simp add: word_sub_le)
  show "p - GPA_STACK_SIZE \<le> p" using 1 by (simp add: word_sub_le)
qed

lemma hva_roundtrip:
  assumes b: "36 \<le> b" "b < 64" and g: "hva_to_gpa b mm hva \<noteq> ADDR_INVAL" and ns: "\<not> gpa_special (hva_to_gpa b mm hva)"
  shows "gpa_to_hva b mm (hva_to_gpa b mm hva) = hva"
proof -
  let ?p = "phys_end b" and ?S = "LG_ALIGN (mm_start_stack mm) - GPA_STACK_SIZE" and ?M = "LG_ALIGN (mm_mmap_base mm) - GPA_MAP_SIZE"
  note sz = window_sizes [OF phys_end_ge [OF b]]
  have spec: "gpa_to_hva b mm gpa = (if gpa < ?p - GPA_STACK_SIZE - GPA_MAP_SIZE then gpa
        else if gpa < ?p - GPA_STACK_SIZE then gpa - (?p - GPA_STACK_SIZE - GPA_MAP_SIZE) + LG_ALIGN (mm_mmap_base mm) - GPA_MAP_SIZE
        else if gpa < ?p then gpa - (?p - GPA_STACK_SIZE) + LG_ALIGN (mm_start_stack mm) - GPA_STACK_SIZE
        else ADDR_INVAL)" if "\<not> gpa_special gpa" for gpa
    using that by (simp add: gpa_to_hva_def gpa_special_def Let_def)
  consider (stack) "?S \<le> hva" "hva - ?S < GPA_STACK_SIZE" "hva_to_gpa b mm hva = hva - ?S + ?p - GPA_STACK_SIZE"
    | (mmap) "hva - ?M < GPA_MAP_SIZE" "hva_to_gpa b mm hva = hva - ?M + (?p - GPA_STACK_SIZE) - GPA_MAP_SIZE"
    | (direct) "hva < ?p - GPA_STACK_SIZE - GPA_MAP_SIZE" "hva_to_gpa b mm hva = hva"
    using g by (auto simp: hva_to_gpa_def Let_def not_le split: if_splits)
  then show ?thesis
  proof cases
    case stack
    note r = rebase [OF stack(2) sz(1)]
    have "\<not> hva_to_gpa b mm hva < ?p - GPA_STACK_SIZE" "hva_to_gpa b mm hva < ?p" using r stack(3) by simp_all
    moreover from this have "\<not> hva_to_gpa b mm hva < ?p - GPA_STACK_SIZE - GPA_MAP_SIZE" using sz(3) by auto
    ultimately have "gpa_to_hva b mm (hva_to_gpa b mm hva) =
        hva_to_gpa b mm hva - (?p - GPA_STACK_SIZE) + LG_ALIGN (mm_start_stack mm) - GPA_STACK_SIZE"
      unfolding spec [OF ns] by simp
    then show ?thesis unfolding stack(3) by simp
  next
    case mmap
    note r = rebase [OF mmap(1) sz(2)]
    have "\<not> hva_to_gpa b mm hva < ?p - GPA_STACK_SIZE - GPA_MAP_SIZE" "hva_to_gpa b mm hva < ?p - GPA_STACK_SIZE" using r mmap(2) by simp_all
    then have "gpa_to_hva b mm (hva_to_gpa b mm hva) =
        hva_to_gpa b mm hva - (?p - GPA_STACK_SIZE - GPA_MAP_SIZE) + LG_ALIGN (mm_mmap_base mm) - GPA_MAP_SIZE"
      unfolding spec [OF ns] by simp
    then show ?thesis unfolding mmap(2) by simp
  next
    case direct
    then show ?thesis unfolding spec [OF ns] by simp
  qed
qed

section \<open>Properties\<close>

text \<open>
  C10: the module's translation is reversible: a process address that has a guest physical address
  outside of the APIC and per-core windows comes back from it unchanged, on every processor with 36 to 63
  physical address bits. In particular no two such addresses share a guest physical address.
\<close>

theorem gpa_translation_reversible:
  assumes "36 \<le> b" "b < 64" "hva_to_gpa b mm hva \<noteq> ADDR_INVAL" "\<not> gpa_special (hva_to_gpa b mm hva)"
  shows "gpa_to_hva b mm (hva_to_gpa b mm hva) = hva"
  using assms by (rule hva_roundtrip)

theorem gpa_translation_reversible_witness:
  "hva_to_gpa 39 example_mm 0x7efff0000000 = 0x7fb0000000 \<and> gpa_to_hva 39 example_mm (hva_to_gpa 39 example_mm 0x7efff0000000) = 0x7efff0000000"
proof -
  have g: "hva_to_gpa 39 example_mm 0x7efff0000000 = 0x7fb0000000"
    by (simp add: hva_to_gpa_def example_mm_def phys_end_def LG_ALIGN_def consts_def push_bit_eq_mult)
  then show ?thesis
    using gpa_translation_reversible [of 39 example_mm "0x7efff0000000"]
    by (simp add: gpa_special_def gpa_window_def PGADDR_def consts_def)
qed

text \<open>
  C11: the library and the module agree: outside of the windows, what \<open>dune_va_to_pa\<close> computes from
  the layout the module reports is the guest physical address under which the module will look
  up the page.
\<close>

theorem library_and_module_agree:
  assumes "\<not> va_special hva" "hva_to_gpa b mm hva \<noteq> ADDR_INVAL"
  shows "dune_va_to_pa (dune_get_layout b mm) hva = hva_to_gpa b mm hva"
  using assms
  by (auto simp: va_special_def dune_va_to_pa_def dune_get_layout_def hva_to_gpa_def Let_def
      dune_stack_addr_to_pa_def dune_mmap_addr_to_pa_def split: if_splits)

theorem library_and_module_agree_witness:
  "dune_va_to_pa (dune_get_layout 39 example_mm) 0x7efff0000000 = 0x7fb0000000"
proof -
  have g: "hva_to_gpa 39 example_mm 0x7efff0000000 = 0x7fb0000000"
    by (simp add: hva_to_gpa_def example_mm_def phys_end_def LG_ALIGN_def consts_def push_bit_eq_mult)
  then show ?thesis
    using library_and_module_agree [of "0x7efff0000000" 39 example_mm]
    by (simp add: va_special_def gpa_window_def PGADDR_def consts_def)
qed

text \<open>
  C19: on a processor with 46 physical address bits the windows lie inside the stack area: the top
  page of that area has the guest physical address of the APIC page, so the module does not
  translate it back.
\<close>

theorem apic_page_shadows_stack:
  assumes "stack_start = LG_ALIGN (mm_start_stack mm) - GPA_STACK_SIZE" "stack_start \<le> stack_start + GPA_STACK_SIZE - 4096"
  shows "hva_to_gpa 46 mm (stack_start + GPA_STACK_SIZE - 4096) = GPA_APIC_PAGE \<and> gpa_to_hva 46 mm GPA_APIC_PAGE = 0"
  using assms by (simp add: hva_to_gpa_def gpa_to_hva_def phys_end_def consts_def push_bit_eq_mult PGADDR_def Let_def)

theorem apic_page_shadows_stack_witness:
  "hva_to_gpa 46 example_mm 0x7ffcfffff000 = GPA_APIC_PAGE \<and> gpa_to_hva 46 example_mm GPA_APIC_PAGE = 0"
  using apic_page_shadows_stack [of "LG_ALIGN (mm_start_stack example_mm) - GPA_STACK_SIZE" example_mm]
  by (simp add: example_mm_def LG_ALIGN_def consts_def)

end
