(* ===== verification/Ept.thy ===== *)
theory Ept
  imports Page_View Address_Map
begin

text \<open>
  The extended page tables of the kernel module (\<open>kern/ept.c\<close>): the entries, the lookup that creates
  tables on demand, the fault path that maps a page of the process, and the notifier
  callbacks that unmap pages and age them. The tables live in a memory of 8-byte cells addressed
  physically; what the host kernel answers (its page allocator, the process's areas and pages) is a
  parameter. The locks have no counterpart: each operation runs to its end.
\<close>

unbundle bit_operations_syntax

section \<open>Entries\<close>

definition EPTE_READ :: u64 where [consts_def]: "EPTE_READ = 0x01"
definition EPTE_WRITE :: u64 where [consts_def]: "EPTE_WRITE = 0x02"
definition EPTE_EXEC :: u64 where [consts_def]: "EPTE_EXEC = 0x04"
definition EPTE_IPAT :: u64 where [consts_def]: "EPTE_IPAT = 0x40"
definition EPTE_SZ :: u64 where [consts_def]: "EPTE_SZ = 0x80"
definition EPTE_A :: u64 where [consts_def]: "EPTE_A = 0x100"
definition EPTE_D :: u64 where [consts_def]: "EPTE_D = 0x200"
definition EPTE_PFNMAP :: u64 where [consts_def]: "EPTE_PFNMAP = 0x400"
definition EPTE_FULL :: u64 where [consts_def]: "EPTE_FULL = EPTE_READ OR EPTE_WRITE OR EPTE_EXEC"
definition EPTE_NONE :: u64 where [consts_def]: "EPTE_NONE = 0"
definition EPTE_TYPE_UC :: u64 where [consts_def]: "EPTE_TYPE_UC = 0"
definition EPTE_TYPE_WC :: u64 where [consts_def]: "EPTE_TYPE_WC = 1"
definition EPTE_TYPE_WB :: u64 where [consts_def]: "EPTE_TYPE_WB = 6"
definition VMX_EPT_FAULT_WRITE :: u64 where [consts_def]: "VMX_EPT_FAULT_WRITE = 0x02"
definition APIC_DEFAULT_PHYS_BASE :: u64 where [consts_def]: "APIC_DEFAULT_PHYS_BASE = 0xfee00000"
definition HUGE_PAGE_SIZE :: u64 where [consts_def]: "HUGE_PAGE_SIZE = 2097152"

definition EPTE_TYPE :: "u64 \<Rightarrow> u64" where
  "EPTE_TYPE n = push_bit 3 (n AND 0x7)"

definition epte_addr :: "u64 \<Rightarrow> u64" where
  "epte_addr epte = epte AND NOT 0xfff"

definition epte_flags :: "u64 \<Rightarrow> u64" where
  "epte_flags epte = epte AND 0xfff"

definition epte_present :: "u64 \<Rightarrow> bool" where
  "epte_present epte \<longleftrightarrow> tst epte EPTE_FULL"

definition epte_big :: "u64 \<Rightarrow> bool" where
  "epte_big epte \<longleftrightarrow> tst epte EPTE_SZ"

definition ADDR_TO_IDX :: "u64 \<Rightarrow> nat \<Rightarrow> nat" where
  "ADDR_TO_IDX la n = unat (drop_bit (12 + 9 * n) la AND 0x1ff)"

section \<open>The host kernel and the state of an instance\<close>

datatype cachemode = Cache_WB | Cache_WC | Cache_Other

record vm_area =
  vma_is_anonymous :: bool
  vma_io_or_pfnmap :: bool
  vma_cachemode :: cachemode

text \<open>
  The host: the process layout, its areas, its pages (by frame number, with the head and order of the
  compound page a frame belongs to), the walk of the host's own tables (by attempt), and the regions
  the module allocated.
\<close>

record host_kernel =
  hk_phys_bits :: nat
  hk_mm :: mm_struct
  num_possible_cpus :: nat
  find_vma :: "u64 \<Rightarrow> vm_area option"
  get_user_pages_fast :: "u64 \<Rightarrow> bool \<Rightarrow> u64 option"
  compound_head :: "u64 \<Rightarrow> u64"
  compound_order :: "u64 \<Rightarrow> nat"
  follow_pte :: "u64 \<Rightarrow> nat \<Rightarrow> int \<times> u64"
  fixup_user_fault :: "u64 \<Rightarrow> bool \<Rightarrow> nat \<Rightarrow> int \<times> bool"
  posted_interrupt_desc_region :: u64
  tlb_info_region :: u64

datatype ept_sync = Sync_Addr u64 | Sync_Context

record ept =
  emem :: memory
  ept_root :: u64
  ept_ad_enabled :: bool
  kpages :: "u64 list"
  host_ref :: "u64 \<Rightarrow> int"
  page_dirty :: "u64 set"
  pgtbl_pages_created :: nat
  host_huge_pages_connected :: nat
  host_4k_pages_connected :: nat
  sync_log :: "ept_sync list"

definition ewr :: "u64 \<Rightarrow> u64 \<Rightarrow> ept \<Rightarrow> ept" where
  "ewr a v s = s\<lparr>emem := (emem s)(a := v)\<rparr>"

text \<open>The host's reference counts are those of the head of a compound page.\<close>

definition get_page :: "host_kernel \<Rightarrow> u64 \<Rightarrow> ept \<Rightarrow> ept" where
  "get_page K pfn s = s\<lparr>host_ref := (host_ref s)(compound_head K pfn := host_ref s (compound_head K pfn) + 1)\<rparr>"

definition put_host_page :: "host_kernel \<Rightarrow> u64 \<Rightarrow> ept \<Rightarrow> ept" where
  "put_host_page K pfn s = s\<lparr>host_ref := (host_ref s)(compound_head K pfn := host_ref s (compound_head K pfn) - 1)\<rparr>"

definition free_page :: "u64 \<Rightarrow> ept \<Rightarrow> ept" where
  "free_page p s = s\<lparr>kpages := p # kpages s\<rparr>"

section \<open>Lookup\<close>

text \<open>
  The loop from the level given first down to \<open>level\<close>: the result, the address of the entry,
  and the state. A big entry on the way ends it at that entry.
\<close>

primrec ept_lookup_from :: "nat \<Rightarrow> u64 \<Rightarrow> u64 \<Rightarrow> nat \<Rightarrow> bool \<Rightarrow> ept \<Rightarrow> int \<times> u64 option \<times> ept" where
  "ept_lookup_from 0 dir gpa level create s = (0, Some (ent dir (ADDR_TO_IDX gpa level)), s)"
| "ept_lookup_from (Suc i) dir gpa level create s = (
     if \<not> level < Suc i then (0, Some (ent dir (ADDR_TO_IDX gpa level)), s)
     else
       let a = ent dir (ADDR_TO_IDX gpa (Suc i));
           next = (\<lambda>s.
             if epte_big (emem s a) then
               if Suc i \<noteq> 1 \<and> Suc i \<noteq> 2 then (- EINVAL, None, s)
               else (0, Some (ent dir (ADDR_TO_IDX gpa (Suc i))), s)
             else ept_lookup_from i (epte_addr (emem s a)) gpa level create s)
       in if \<not> epte_present (emem s a) then
            if \<not> create then (- ENOENT, None, s)
            else (case kpages s of
              [] \<Rightarrow> (- ENOMEM, None, s)
            | p # ps \<Rightarrow> next (ewr a (epte_addr p OR EPTE_FULL)
                (s\<lparr>kpages := ps, pgtbl_pages_created := pgtbl_pages_created s + 1, emem := memset_page p 0 (emem s)\<rparr>)))
          else next s)"

definition ept_lookup_gpa :: "u64 \<Rightarrow> nat \<Rightarrow> bool \<Rightarrow> ept \<Rightarrow> int \<times> u64 option \<times> ept" where
  "ept_lookup_gpa gpa level create s = ept_lookup_from 3 (ept_root s) gpa level create s"

definition ept_lookup :: "host_kernel \<Rightarrow> u64 \<Rightarrow> nat \<Rightarrow> bool \<Rightarrow> ept \<Rightarrow> int \<times> u64 option \<times> ept" where
  "ept_lookup K hva level create s = (
     let gpa = hva_to_gpa (hk_phys_bits K) (hk_mm K) hva
     in if gpa = ADDR_INVAL then (- EINVAL, None, s) else ept_lookup_gpa gpa level create s)"

section \<open>Releasing\<close>

definition free_ept_page :: "host_kernel \<Rightarrow> u64 \<Rightarrow> ept \<Rightarrow> ept" where
  "free_ept_page K epte s = (
     let page = drop_bit 12 (epte_addr epte)
     in if tst epte EPTE_PFNMAP then s
        else
          let s = (if tst epte EPTE_WRITE then s\<lparr>page_dirty := insert page (page_dirty s)\<rparr> else s)
          in put_host_page K page s)"

text \<open>The variant that takes the page lock to mark it dirty differs in that lock only.\<close>

definition free_ept_page_lock :: "host_kernel \<Rightarrow> u64 \<Rightarrow> ept \<Rightarrow> ept" where
  "free_ept_page_lock K epte s = free_ept_page K epte s"

text \<open>The loop bodies of the four nested loops, innermost first.\<close>

definition free_pte :: "host_kernel \<Rightarrow> u64 \<Rightarrow> nat \<Rightarrow> ept \<Rightarrow> ept" where
  "free_pte K pte l s = (
     let e = emem s (ent pte l) in if \<not> epte_present e then s else free_ept_page_lock K e s)"

definition free_pmd :: "host_kernel \<Rightarrow> u64 \<Rightarrow> nat \<Rightarrow> ept \<Rightarrow> ept" where
  "free_pmd K pmd k s = (
     let e = emem s (ent pmd k); pte = epte_addr e
     in if \<not> epte_present e then s
        else if tst (epte_flags e) EPTE_SZ then free_ept_page_lock K e s
        else free_page pte (fold (free_pte K pte) [0 ..< 512] s))"

definition free_pud :: "host_kernel \<Rightarrow> u64 \<Rightarrow> nat \<Rightarrow> ept \<Rightarrow> ept" where
  "free_pud K pud j s = (
     let e = emem s (ent pud j); pmd = epte_addr e
     in if \<not> epte_present e then s
        else if tst (epte_flags e) EPTE_SZ then free_ept_page_lock K e s
        else free_page pmd (fold (free_pmd K pmd) [0 ..< 512] s))"

definition free_pgd :: "host_kernel \<Rightarrow> u64 \<Rightarrow> nat \<Rightarrow> ept \<Rightarrow> ept" where
  "free_pgd K pgd i s = (
     let e = emem s (ent pgd i); pud = epte_addr e
     in if \<not> epte_present e then s else free_page pud (fold (free_pud K pud) [0 ..< 512] s))"

definition vmx_free_ept :: "host_kernel \<Rightarrow> u64 \<Rightarrow> ept \<Rightarrow> ept" where
  "vmx_free_ept K root s = free_page root (fold (free_pgd K root) [0 ..< 512] s)"

definition ept_clear_epte :: "host_kernel \<Rightarrow> u64 \<Rightarrow> ept \<Rightarrow> int \<times> ept" where
  "ept_clear_epte K epte s = (
     if emem s epte = EPTE_NONE then (0, s)
     else (1, ewr epte EPTE_NONE (free_ept_page K (emem s epte) s)))"

definition clear_pte :: "host_kernel \<Rightarrow> u64 \<Rightarrow> nat \<Rightarrow> ept \<Rightarrow> ept" where
  "clear_pte K pte i s = (
     let e = emem s (ent pte i) in if \<not> epte_present e then s else free_ept_page K e s)"

definition ept_clear_l1_epte :: "host_kernel \<Rightarrow> u64 \<Rightarrow> ept \<Rightarrow> int \<times> ept" where
  "ept_clear_l1_epte K epte s = (
     let pte = epte_addr (emem s epte)
     in if emem s epte = EPTE_NONE then (0, s)
        else (1, ewr epte EPTE_NONE (free_page pte (fold (clear_pte K pte) [0 ..< 512] s))))"

definition clear_pmd :: "host_kernel \<Rightarrow> u64 \<Rightarrow> nat \<Rightarrow> ept \<Rightarrow> ept" where
  "clear_pmd K pmd i s = (
     let e = emem s (ent pmd i); pte = epte_addr e
     in if \<not> epte_present e then s
        else if tst (epte_flags e) EPTE_SZ then free_ept_page K e s
        else free_page pte (fold (clear_pte K pte) [0 ..< 512] s))"

definition ept_clear_l2_epte :: "host_kernel \<Rightarrow> u64 \<Rightarrow> ept \<Rightarrow> int \<times> ept" where
  "ept_clear_l2_epte K epte s = (
     let pmd = epte_addr (emem s epte)
     in if emem s epte = EPTE_NONE then (0, s)
        else (1, ewr epte EPTE_NONE (free_page pmd (fold (clear_pmd K pmd) [0 ..< 512] s))))"

section \<open>Mapping\<close>

definition ad_flags :: "bool \<Rightarrow> u64 \<Rightarrow> ept \<Rightarrow> u64" where
  "ad_flags make_write flags s = (
     let flags = (if make_write then flags OR EPTE_WRITE else flags)
     in if ept_ad_enabled s then
          let flags = flags OR EPTE_A in if make_write then flags OR EPTE_D else flags
        else flags)"

definition ept_map_apic_page :: "host_kernel \<Rightarrow> bool \<Rightarrow> u64 \<Rightarrow> ept \<Rightarrow> int \<times> ept" where
  "ept_map_apic_page K make_write gpa s = (
     case ept_lookup_gpa gpa 0 True s of
       (ret, Some epte, s) \<Rightarrow>
         let flags = ad_flags make_write (EPTE_READ OR EPTE_TYPE EPTE_TYPE_UC OR EPTE_IPAT OR EPTE_PFNMAP) s;
             s = (if epte_present (emem s epte) then snd (ept_clear_epte K epte s) else s)
         in (0, ewr epte (epte_addr APIC_DEFAULT_PHYS_BASE OR flags) s)
     | (ret, None, s) \<Rightarrow> (ret, s))"

definition ept_map_posted_intr_desc_page :: "host_kernel \<Rightarrow> bool \<Rightarrow> u64 \<Rightarrow> ept \<Rightarrow> int \<times> ept" where
  "ept_map_posted_intr_desc_page K make_write gpa s = (
     case ept_lookup_gpa gpa 0 True s of
       (ret, Some epte, s) \<Rightarrow>
         let flags = EPTE_READ OR EPTE_WRITE OR EPTE_TYPE EPTE_TYPE_WB;
             addr = posted_interrupt_desc_region K + (gpa - GPA_POSTED_INTR_DESCS)
         in (0, ewr epte (epte_addr addr OR flags) s)
     | (ret, None, s) \<Rightarrow> (ret, s))"

definition ept_map_tlb_info_page :: "host_kernel \<Rightarrow> bool \<Rightarrow> u64 \<Rightarrow> ept \<Rightarrow> int \<times> ept" where
  "ept_map_tlb_info_page K make_write gpa s = (
     case ept_lookup_gpa gpa 0 True s of
       (ret, Some epte, s) \<Rightarrow>
         let flags = EPTE_READ OR EPTE_WRITE OR EPTE_TYPE EPTE_TYPE_WB;
             addr = tlb_info_region K + (gpa - GPA_PV_INFO_PAGES)
         in (0, ewr epte (epte_addr addr OR flags) s)
     | (ret, None, s) \<Rightarrow> (ret, s))"

text \<open>The frame behind an address of a remapped area, at the given attempt.\<close>

definition hva_to_pfn_remapped :: "host_kernel \<Rightarrow> u64 \<Rightarrow> bool \<Rightarrow> nat \<Rightarrow> int \<times> u64" where
  "hva_to_pfn_remapped K hva make_write k = (
     let (r, pfn) = follow_pte K hva (2 * k)
     in if r \<noteq> 0 then
          let (r, unlocked) = fixup_user_fault K hva make_write k
          in if unlocked then (- EAGAIN, 0)
             else if r \<noteq> 0 then (r, 0)
             else
               let (r, pfn) = follow_pte K hva (2 * k + 1)
               in if r \<noteq> 0 then (r, 0) else (r, pfn)
        else (r, pfn))"

partial_function (option) remapped_loop :: "host_kernel \<Rightarrow> u64 \<Rightarrow> bool \<Rightarrow> nat \<Rightarrow> (int \<times> u64) option" where
  "remapped_loop K hva make_write k = (
     let (ret, pfn) = hva_to_pfn_remapped K hva make_write k
     in if ret = - EAGAIN then remapped_loop K hva make_write (k + 1) else Some (ret, pfn))"

definition ept_set_pfnmap_epte :: "host_kernel \<Rightarrow> bool \<Rightarrow> u64 \<Rightarrow> u64 \<Rightarrow> ept \<Rightarrow> (int \<times> ept) option" where
  "ept_set_pfnmap_epte K make_write gpa hva s = (
     if PGADDR gpa = GPA_APIC_PAGE then Some (ept_map_apic_page K make_write gpa s)
     else if gpa_window GPA_POSTED_INTR_DESCS (num_possible_cpus K) gpa then
       Some (ept_map_posted_intr_desc_page K make_write gpa s)
     else if gpa_window GPA_PV_INFO_PAGES (num_possible_cpus K) gpa then
       Some (ept_map_tlb_info_page K make_write gpa s)
     else (case find_vma K hva of
       None \<Rightarrow> Some (- EFAULT, s)
     | Some vma \<Rightarrow>
         if \<not> vma_io_or_pfnmap vma then Some (- EFAULT, s)
         else do {
           (ret, pfn) \<leftarrow> remapped_loop K hva make_write 0;
           if ret \<noteq> 0 then Some (ret, s)
           else
             let cache_control = (case vma_cachemode vma of
                   Cache_WB \<Rightarrow> EPTE_TYPE_WB | Cache_WC \<Rightarrow> EPTE_TYPE_WC | Cache_Other \<Rightarrow> EPTE_TYPE_UC)
             in (case ept_lookup_gpa gpa 0 True s of
               (ret, Some epte, s) \<Rightarrow>
                 let flags = ad_flags make_write (EPTE_READ OR EPTE_TYPE cache_control OR EPTE_IPAT OR EPTE_PFNMAP) s;
                     s = (if epte_present (emem s epte) then snd (ept_clear_epte K epte s) else s)
                 in Some (0, ewr epte (epte_addr (push_bit 12 pfn) OR flags) s)
             | (ret, None, s) \<Rightarrow> Some (ret, s))
         }))"

text \<open>Replacing what an entry holds, and the entry for a frame of the process, at the level given.\<close>

definition clear_old :: "host_kernel \<Rightarrow> nat \<Rightarrow> u64 \<Rightarrow> ept \<Rightarrow> ept" where
  "clear_old K level epte s = (
     if epte_present (emem s epte) then
       if \<not> epte_big (emem s epte) \<and> level = 2 then snd (ept_clear_l2_epte K epte s)
       else if \<not> epte_big (emem s epte) \<and> level = 1 then snd (ept_clear_l1_epte K epte s)
       else snd (ept_clear_epte K epte s)
     else s)"

definition connect_page :: "host_kernel \<Rightarrow> bool \<Rightarrow> nat \<Rightarrow> u64 \<Rightarrow> u64 \<Rightarrow> ept \<Rightarrow> ept" where
  "connect_page K make_write level page epte s = (
     let flags = ad_flags make_write (EPTE_READ OR EPTE_EXEC OR EPTE_TYPE EPTE_TYPE_WB OR EPTE_IPAT) s
     in if level \<noteq> 0 then
          let tmp = page;
              page = compound_head K page;
              s = put_host_page K tmp (get_page K page s);
              flags = flags OR EPTE_SZ;
              s = s\<lparr>host_huge_pages_connected := host_huge_pages_connected s + 1\<rparr>
          in ewr epte (epte_addr (push_bit 12 page) OR flags) s
        else
          let s = s\<lparr>host_4k_pages_connected := host_4k_pages_connected s + 1\<rparr>
          in ewr epte (epte_addr (push_bit 12 page) OR flags) s)"

definition page_level :: "host_kernel \<Rightarrow> u64 \<Rightarrow> nat" where
  "page_level K page = (
     let huge_shift = compound_order K (compound_head K page) + 12
     in if huge_shift = 30 then 2 else if huge_shift = 21 then 1 else 0)"

text \<open>Anonymous memory is mapped writable at once, whatever the access was.\<close>

definition effective_write :: "bool \<Rightarrow> vm_area option \<Rightarrow> bool \<Rightarrow> bool" where
  "effective_write special vma make_write = (
     if special then make_write
     else (case vma of
       Some vma \<Rightarrow> if vma_is_anonymous vma \<and> \<not> vma_io_or_pfnmap vma then True else make_write
     | None \<Rightarrow> make_write))"

definition ept_map_user_page :: "host_kernel \<Rightarrow> bool \<Rightarrow> u64 \<Rightarrow> u64 \<Rightarrow> ept \<Rightarrow> int \<times> ept" where
  "ept_map_user_page K make_write gpa page s = (
     let s = get_page K page s;
         level = page_level K page;
         found = (let (ret, out, s) = ept_lookup_gpa gpa level False s
           in if ret = - ENOENT then ept_lookup_gpa gpa level True s else (ret, out, s))
     in case found of
          (ret, None, s) \<Rightarrow> (ret, put_host_page K page s)
        | (ret, Some epte, s) \<Rightarrow> (0, connect_page K make_write level page epte (clear_old K level epte s)))"

definition ept_set_epte :: "host_kernel \<Rightarrow> bool \<Rightarrow> u64 \<Rightarrow> u64 \<Rightarrow> ept \<Rightarrow> (int \<times> ept) option" where
  "ept_set_epte K make_write gpa hva s = (
     let special = (PGADDR gpa = GPA_APIC_PAGE \<or> gpa_window GPA_POSTED_INTR_DESCS (num_possible_cpus K) gpa \<or>
           gpa_window GPA_PV_INFO_PAGES (num_possible_cpus K) gpa)
     in if \<not> special \<and> find_vma K hva = None then Some (- EFAULT, s)
        else
          let make_write = effective_write special (find_vma K hva) make_write
          in (case get_user_pages_fast K hva make_write of
                None \<Rightarrow> ept_set_pfnmap_epte K make_write gpa hva s
              | Some page \<Rightarrow> Some (ept_map_user_page K make_write gpa page s)))"

definition vmx_do_ept_fault :: "host_kernel \<Rightarrow> u64 \<Rightarrow> u64 \<Rightarrow> ept \<Rightarrow> (int \<times> ept) option" where
  "vmx_do_ept_fault K gpa fault_flags s = (
     let hva = gpa_to_hva (hk_phys_bits K) (hk_mm K) gpa;
         make_write = tst fault_flags VMX_EPT_FAULT_WRITE
     in if hva = ADDR_INVAL then Some (- EINVAL, s)
        else ept_set_epte K make_write gpa hva s)"

section \<open>Notifier callbacks\<close>

definition sync_addr :: "u64 \<Rightarrow> ept \<Rightarrow> ept" where
  "sync_addr gpa s = s\<lparr>sync_log := sync_log s @ [Sync_Addr gpa]\<rparr>"

definition ept_invalidate_page :: "host_kernel \<Rightarrow> u64 \<Rightarrow> ept \<Rightarrow> int \<times> ept" where
  "ept_invalidate_page K addr s = (
     let gpa = hva_to_gpa (hk_phys_bits K) (hk_mm K) addr
     in if gpa = ADDR_INVAL then (0, s)
        else (case ept_lookup_gpa gpa 0 False s of
            (ret, Some epte, s) \<Rightarrow>
              let (ret, s) = ept_clear_epte K epte s
              in if ret \<noteq> 0 then (ret, sync_addr gpa s) else (ret, s)
          | (ret, None, s) \<Rightarrow> (0, s)))"

definition ept_check_page_mapped :: "host_kernel \<Rightarrow> u64 \<Rightarrow> ept \<Rightarrow> int" where
  "ept_check_page_mapped K addr s = (
     let gpa = hva_to_gpa (hk_phys_bits K) (hk_mm K) addr
     in if gpa = ADDR_INVAL then 0
        else (case ept_lookup_gpa gpa 0 False s of (ret, _, s) \<Rightarrow> if ret = 0 then 1 else 0))"

text \<open>The test \<open>flush & accessed\<close> is bitwise, on a truth value and the masked entry.\<close>

definition ept_check_page_accessed :: "host_kernel \<Rightarrow> u64 \<Rightarrow> bool \<Rightarrow> ept \<Rightarrow> u64 \<times> ept" where
  "ept_check_page_accessed K addr flush s = (
     let gpa = hva_to_gpa (hk_phys_bits K) (hk_mm K) addr
     in if gpa = ADDR_INVAL then (0, s)
        else (case ept_lookup_gpa gpa 0 False s of
            (ret, None, s) \<Rightarrow> (0, s)
          | (ret, Some epte, s) \<Rightarrow>
              let accessed = emem s epte AND EPTE_A;
                  s = (if of_bool flush AND accessed \<noteq> 0 then ewr epte (emem s epte AND NOT EPTE_A) s else s);
                  s = (if of_bool flush AND accessed \<noteq> 0 then sync_addr gpa s else s)
              in (accessed, s)))"

partial_function (option) invalidate_loop ::
    "host_kernel \<Rightarrow> u64 \<Rightarrow> u64 \<Rightarrow> bool \<Rightarrow> u64 \<Rightarrow> nat \<Rightarrow> ept \<Rightarrow> (bool \<times> u64 \<times> nat \<times> ept) option" where
  "invalidate_loop K pos stop sync_needed gpa n_done s = (
     if \<not> pos < stop then Some (sync_needed, gpa, n_done, s)
     else (case ept_lookup K pos 0 False s of
         (ret, Some epte, s) \<Rightarrow>
           let gpa = hva_to_gpa (hk_phys_bits K) (hk_mm K) pos;
               pos = pos + (if epte_big (emem s epte) then HUGE_PAGE_SIZE else 4096);
               sync_needed = (if emem s epte = EPTE_NONE then False else True);
               s = snd (ept_clear_epte K epte s)
           in invalidate_loop K pos stop sync_needed gpa (n_done + 1) s
       | (ret, None, s) \<Rightarrow> invalidate_loop K (pos + 4096) stop sync_needed gpa (n_done + 1) s))"

definition ept_mmu_notifier_invalidate_range_start ::
    "host_kernel \<Rightarrow> u64 \<Rightarrow> u64 \<Rightarrow> ept \<Rightarrow> (int \<times> ept) option" where
  "ept_mmu_notifier_invalidate_range_start K start stop s = do {
     (sync_needed, gpa, n_done, s) \<leftarrow> invalidate_loop K start stop False 0 0 s;
     Some (0,
       if sync_needed then
         if n_done = 1 then if gpa \<noteq> 0 then sync_addr gpa s else s
         else s\<lparr>sync_log := sync_log s @ [Sync_Context]\<rparr>
       else s)
   }"

definition ept_mmu_notifier_change_pte :: "host_kernel \<Rightarrow> u64 \<Rightarrow> ept \<Rightarrow> ept" where
  "ept_mmu_notifier_change_pte K address s = snd (ept_invalidate_page K address s)"

partial_function (option) flush_young_loop ::
    "host_kernel \<Rightarrow> u64 \<Rightarrow> u64 \<Rightarrow> u64 \<Rightarrow> ept \<Rightarrow> (u64 \<times> ept) option" where
  "flush_young_loop K start stop ret s = (
     if \<not> start < stop then Some (ret, s)
     else if \<not> ept_ad_enabled s then
       let (r, s) = ept_invalidate_page K start s
       in flush_young_loop K (start + 4096) stop (ret OR of_int r) s
     else
       let (r, s) = ept_check_page_accessed K start True s
       in flush_young_loop K (start + 4096) stop (ret OR r) s)"

definition ept_mmu_notifier_clear_flush_young :: "host_kernel \<Rightarrow> u64 \<Rightarrow> u64 \<Rightarrow> ept \<Rightarrow> (u64 \<times> ept) option" where
  "ept_mmu_notifier_clear_flush_young K start stop s = flush_young_loop K start stop 0 s"

definition ept_mmu_notifier_test_young :: "host_kernel \<Rightarrow> u64 \<Rightarrow> ept \<Rightarrow> u64 \<times> ept" where
  "ept_mmu_notifier_test_young K address s = (
     if \<not> ept_ad_enabled s then (of_int (ept_check_page_mapped K address s), s)
     else ept_check_page_accessed K address False s)"

definition vmx_init_ept :: "ept \<Rightarrow> int \<times> ept" where
  "vmx_init_ept s = (
     case kpages s of
       [] \<Rightarrow> (- ENOMEM, s)
     | p # ps \<Rightarrow> (0, s\<lparr>kpages := ps, emem := memset_page p 0 (emem s), ept_root := p\<rparr>))"

definition vmx_destroy_ept :: "host_kernel \<Rightarrow> ept \<Rightarrow> ept" where
  "vmx_destroy_ept K s = vmx_free_ept K (ept_root s) s"

section \<open>Invariant\<close>

text \<open>
  An entry the module wrote: empty, or readable with an address below the 52-bit limit of the tables;
  and no big entry at the top level.
\<close>

definition epte_wf :: "u64 \<Rightarrow> bool" where
  "epte_wf e \<longleftrightarrow> e = 0 \<or> tst e EPTE_READ \<and> epte_addr e = PTE_ADDR e"

definition kpages_ok :: "tables \<Rightarrow> u64 list \<Rightarrow> bool" where
  "kpages_ok T ps \<longleftrightarrow> distinct ps \<and> (\<forall>p\<in>set ps. pg_aligned p \<and> PTE_ADDR p = p \<and> T p = None)"

definition ept_ok :: "tables \<Rightarrow> ept \<Rightarrow> bool" where
  "ept_ok T s \<longleftrightarrow> pt_wf T (ept_root s) (emem s) \<and> kpages_ok T (kpages s) \<and>
     (\<forall>d l b i. T d = Some (l, b) \<longrightarrow> i < 512 \<longrightarrow> epte_wf (emem s (ent d i)) \<and> (l = 3 \<longrightarrow> \<not> epte_big (emem s (ent d i))))"

text \<open>A host with four cores whose memory is one anonymous area, and an instance with an empty root table.\<close>

definition example_kernel :: host_kernel where
  "example_kernel = \<lparr>hk_phys_bits = 39, hk_mm = example_mm, num_possible_cpus = 4,
     find_vma = (\<lambda>_. Some \<lparr>vma_is_anonymous = True, vma_io_or_pfnmap = False, vma_cachemode = Cache_WB\<rparr>),
     get_user_pages_fast = (\<lambda>_ _. Some 0x555), compound_head = (\<lambda>p. p), compound_order = (\<lambda>_. 0),
     follow_pte = (\<lambda>_ _. (0, 0)), fixup_user_fault = (\<lambda>_ _ _. (0, False)),
     posted_interrupt_desc_region = 0x70000000, tlb_info_region = 0x71000000\<rparr>"

definition example_ept :: ept where
  "example_ept = \<lparr>emem = (\<lambda>_. 0), ept_root = 0x1000, ept_ad_enabled = True, kpages = [0x2000, 0x3000, 0x4000],
     host_ref = (\<lambda>_. 0), page_dirty = {}, pgtbl_pages_created = 0, host_huge_pages_connected = 0,
     host_4k_pages_connected = 0, sync_log = []\<rparr>"

definition example_ept_tables :: tables where
  "example_ept_tables = [0x1000 \<mapsto> (3, 0)]"

text \<open>The same with the page at 0x400000 mapped, behind three tables.\<close>

definition example_ept2 :: ept where
  "example_ept2 = example_ept\<lparr>kpages := [],
     emem := (\<lambda>_. 0)(0x1000 := 0x2007, 0x2000 := 0x3007, 0x3010 := 0x4007, 0x4000 := 0x555077)\<rparr>"

definition example_ept2_tables :: tables where
  "example_ept2_tables = [0x1000 \<mapsto> (3, 0), 0x2000 \<mapsto> (2, 0), 0x3000 \<mapsto> (1, 0), 0x4000 \<mapsto> (0, 2)]"

text \<open>What a lookup leaves alone.\<close>

definition ept_same :: "ept \<Rightarrow> ept \<Rightarrow> bool" where
  "ept_same s s' \<longleftrightarrow> ept_root s' = ept_root s \<and> ept_ad_enabled s' = ept_ad_enabled s \<and> host_ref s' = host_ref s \<and>
     page_dirty s' = page_dirty s \<and> sync_log s' = sync_log s \<and>
     (\<forall>n < 0x1000000000. pview (emem s') (ept_root s) n = pview (emem s) (ept_root s) n)"

definition lookup_post :: "tables \<Rightarrow> nat \<Rightarrow> bool \<Rightarrow> ept \<Rightarrow> int \<Rightarrow> u64 option \<Rightarrow> ept \<Rightarrow> bool" where
  "lookup_post T' n create s ret out s' \<longleftrightarrow> (case out of
     None \<Rightarrow> ret = - ENOMEM \<and> create \<or> ret = - ENOENT \<and> \<not> create \<and> pview (emem s) (ept_root s) n = (0, 0)
   | Some a \<Rightarrow> ret = 0 \<and> (\<exists>k d'. T' d' = Some (k, n div 512 ^ Suc k) \<and> a = ent d' (pidx k n) \<and> is_leaf k (emem s' a)))"

text \<open>Dropping a leaf: the page it held loses one reference, unless the entry is a frame mapping.\<close>

definition ref_drop :: "host_kernel \<Rightarrow> u64 \<Rightarrow> u64 \<Rightarrow> int" where
  "ref_drop K e h = (if e \<noteq> 0 \<and> \<not> tst e EPTE_PFNMAP \<and> compound_head K (drop_bit 12 (epte_addr e)) = h then 1 else 0)"

definition page_epte :: "bool \<Rightarrow> u64 \<Rightarrow> ept \<Rightarrow> u64" where
  "page_epte w page s = epte_addr (push_bit 12 page) OR
     ad_flags w (EPTE_READ OR EPTE_EXEC OR EPTE_TYPE EPTE_TYPE_WB OR EPTE_IPAT) s"

section \<open>Entries as page-table entries\<close>

lemma ADDR_TO_IDX_pidx: "l \<le> 3 \<Longrightarrow> ADDR_TO_IDX gpa l = pidx l (vpn gpa)"
  using PDX_vpn [of l gpa] by (simp add: ADDR_TO_IDX_def PDX_def PDSHIFT_def)

lemma tst_or: "tst w (a OR b) \<longleftrightarrow> tst w a \<or> tst w b" for w :: u64
  by (simp add: tst_def bit.conj_disj_distrib or_eq_0_iff)

lemma epte_flag_exp: "EPTE_READ = 2 ^ 0" "EPTE_WRITE = 2 ^ 1" "EPTE_EXEC = 2 ^ 2" "EPTE_IPAT = 2 ^ 6" "EPTE_SZ = 2 ^ 7"
    "EPTE_A = 2 ^ 8" "EPTE_D = 2 ^ 9" "EPTE_PFNMAP = 2 ^ 10"
  by (simp_all add: consts_def)

lemma tst_epte: "tst w EPTE_READ = bit w 0" "tst w EPTE_WRITE = bit w 1" "tst w EPTE_EXEC = bit w 2"
    "tst w EPTE_SZ = bit w 7" "tst w EPTE_A = bit w 8" "tst w EPTE_PFNMAP = bit w 10"
  unfolding epte_flag_exp tst_exp by (rule refl)+

lemma epte_big_pte: "epte_big e \<longleftrightarrow> pte_big e"
  by (simp add: epte_big_def tst_epte pte_big_bit)

lemma epte_present_bits: "epte_present e \<longleftrightarrow> bit e 0 \<or> bit e 1 \<or> bit e 2"
  by (auto simp: epte_present_def EPTE_FULL_def tst_or tst_epte)

lemma epte_addr_bit: "bit (epte_addr e) n \<longleftrightarrow> bit e n \<and> 12 \<le> n"
proof -
  have m: "(0xfff :: u64) = mask 12" by (simp add: mask_eq_exp_minus_1)
  show ?thesis unfolding epte_addr_def m by (auto simp: bit_simps dest: bit_imp_le_length)
qed

lemma epte_wf_pte:
  assumes "epte_wf e"
  shows "epte_present e \<longleftrightarrow> pte_present e" "epte_present e \<longleftrightarrow> e \<noteq> 0" "epte_addr e = PTE_ADDR e" "pte_big e \<Longrightarrow> pte_present e"
  using assms
  by (auto simp: epte_wf_def tst_epte epte_present_bits pte_present_bit pte_big_bit epte_addr_def PTE_ADDR_def)

lemma table_epte: "pg_aligned p \<Longrightarrow> PTE_ADDR p = p \<Longrightarrow> epte_addr p OR EPTE_FULL = PTE_ADDR p OR PTE_DEF_FLAGS"
  by (simp add: epte_addr_def consts_def pg_aligned_def PGADDR_def)

lemma table_epte_wf: "epte_wf (PTE_ADDR p OR PTE_DEF_FLAGS)"
proof -
  have "epte_addr (PTE_ADDR p OR PTE_DEF_FLAGS) = PTE_ADDR (PTE_ADDR p OR PTE_DEF_FLAGS)"
    by (rule bit_word_eqI) (auto simp: epte_addr_bit PTE_DEF_FLAGS_def pte_bits)
  then show ?thesis by (simp add: epte_wf_def tst_epte PTE_DEF_FLAGS_def pte_bits)
qed

lemma ept_okD:
  assumes "ept_ok T s"
  shows "pt_wf T (ept_root s) (emem s)" "tab_wf T (ept_root s)" "kpages_ok T (kpages s)"
    "T d = Some (l, b) \<Longrightarrow> i < 512 \<Longrightarrow> epte_wf (emem s (ent d i))"
    "T d = Some (3, b) \<Longrightarrow> i < 512 \<Longrightarrow> \<not> epte_big (emem s (ent d i))"
  using assms wf_tab unfolding ept_ok_def by blast+

section \<open>Lookup\<close>

lemma ept_install:
  fixes c :: nat
  assumes ok: "ept_ok T s" and k: "kpages s = p # ps" and d: "T d = Some (Suc l, b)" "i < 512"
    and absent: "\<not> epte_present (emem s (ent d i))"
  defines "s' \<equiv> ewr (ent d i) (epte_addr p OR EPTE_FULL)
      (s\<lparr>kpages := ps, pgtbl_pages_created := c, emem := memset_page p 0 (emem s)\<rparr>)"
  shows "ept_ok (T(p \<mapsto> (l, b * 512 + i))) s'" "T p = None" "\<not> epte_big (emem s' (ent d i)) \<and> epte_addr (emem s' (ent d i)) = p"
    "\<And>n. n < 0x1000000000 \<Longrightarrow> pview (emem s') (ept_root s) n = pview (emem s) (ept_root s) n"
proof -
  note o = ept_okD [OF ok]
  have p: "pg_aligned p" "PTE_ADDR p = p" "T p = None" "p \<notin> set ps" "kpages_ok T ps"
    using o(3) k by (auto simp: kpages_ok_def)
  have m: "emem s' = new_table (ent d i) p (emem s)"
    using p by (simp add: s'_def ewr_def new_table_def table_epte)
  have e: "emem s (ent d i) = 0" using absent epte_wf_pte(2) [OF o(4) [OF d]] by simp
  have leaf: "\<not> is_leaf (Suc l) (emem s (ent d i))" "\<not> pte_present (emem s (ent d i))"
    using e by (simp_all add: is_leaf_def zero_entry)
  have wf: "pt_wf (T(p \<mapsto> (l, b * 512 + i))) (ept_root s) (emem s')"
    unfolding m by (rule new_table_wf [OF o(1) d leaf p(1,3,2)])
  have ne: "p \<noteq> d" using p(3) d by auto
  have ald: "pg_aligned d" using wf_aligned [OF o(2) d(1)] .
  have cells: "epte_wf (emem s' (ent x j)) \<and> (k = 3 \<longrightarrow> \<not> epte_big (emem s' (ent x j)))"
    if "(T(p \<mapsto> (l, b * 512 + i))) x = Some (k, c)" "j < 512" for x k c j
  proof -
    have l: "l < 3" using wf_level [OF o(2) d(1)] by simp
    have "pg_aligned x" using that(1) p(1) wf_aligned [OF o(2)] by (auto split: if_splits)
    then have cell: "emem s' (ent x j) = (if x = d \<and> j = i then PTE_ADDR p OR PTE_DEF_FLAGS else if x = p then 0 else emem s (ent x j))"
      unfolding m using new_table_cells [OF p(1) ald ne d(2)] that(2) by blast
    show ?thesis
      unfolding cell using that o(4,5) table_epte_wf [of p] table_entry_bits(2) [of p] l
      by (auto simp: epte_wf_def epte_big_pte zero_entry split: if_splits)
  qed
  have "ept_root s' = ept_root s" "kpages s' = ps" by (simp_all add: s'_def ewr_def)
  then show "ept_ok (T(p \<mapsto> (l, b * 512 + i))) s'"
    using wf cells p(4,5) by (auto simp: ept_ok_def kpages_ok_def)
  show "T p = None" by (rule p)
  have "emem s' (ent d i) = PTE_ADDR p OR PTE_DEF_FLAGS"
    unfolding m using new_table_cells [OF p(1) ald ne d(2) ald d(2)] by simp
  then show "\<not> epte_big (emem s' (ent d i)) \<and> epte_addr (emem s' (ent d i)) = p"
    using table_entry_bits(2) [of p] epte_wf_pte(3) [OF table_epte_wf [of p]] PTE_ADDR_table_entry [of p] p(2)
    by (simp add: epte_big_pte)
  show "pview (emem s') (ept_root s) n = pview (emem s) (ept_root s) n" if "n < 0x1000000000" for n
    unfolding m by (rule new_table_pview [OF o(1) d leaf p(1,3,2) that])
qed

lemma ept_same_trans: "ept_same s s1 \<Longrightarrow> ept_same s1 s2 \<Longrightarrow> ept_same s s2"
  by (auto simp: ept_same_def)

lemma ept_lookup_from_ok:
  assumes "ept_ok T s" "T d = Some (l, vpn gpa div 512 ^ Suc l)" "ept_lookup_from l d gpa 0 create s = (ret, out, s')"
  shows "\<exists>T'. ept_ok T' s' \<and> T \<subseteq>\<^sub>m T' \<and> ept_same s s' \<and> (\<not> create \<longrightarrow> s' = s \<and> T' = T) \<and> lookup_post T' (vpn gpa) create s ret out s'"
  using assms
proof (induction l arbitrary: d T s)
  case 0
  then have "out = Some (ent d (pidx 0 (vpn gpa)))" "ret = 0" "s' = s" by (auto simp: ADDR_TO_IDX_pidx)
  then show ?case using 0
    by (intro exI [of _ T]) (auto simp: is_leaf_def ept_same_def lookup_post_def intro!: exI [of _ "0::nat"] exI [of _ d])
next
  case (Suc l)
  note o = ept_okD [OF Suc.prems(1)]
  let ?n = "vpn gpa"
  let ?i = "pidx (Suc l) ?n"
  let ?e = "emem s (ent d ?i)"
  have l3: "Suc l \<le> 3" using wf_level [OF o(2) Suc.prems(2)] .
  note idx = ADDR_TO_IDX_pidx [OF l3, of gpa]
  have view: "pview (emem s) (ept_root s) ?n = view_at (emem s) (Suc l) d ?n"
    by (rule pview_region(1) [OF o(1) Suc.prems(2) vpn_less])
  have ewf: "epte_wf ?e" using o(4) [OF Suc.prems(2) pidx_less] .
  note ep = epte_wf_pte [OF ewf]
  have nb: "epte_big ?e \<Longrightarrow> Suc l = 1 \<or> Suc l = 2"
    using o(5) [of d] Suc.prems(2) pidx_less l3 by (cases "Suc l = 3") auto
  consider (big) "epte_big ?e" | (link) "\<not> epte_big ?e" "epte_present ?e" | (absent) "\<not> epte_present ?e" by blast
  then show ?case
  proof cases
    case big
    then have leaf: "is_leaf (Suc l) ?e" using nb by (auto simp: is_leaf_def epte_big_pte)
    have "epte_present ?e" using big ep by (simp add: epte_big_pte)
    then have "out = Some (ent d ?i)" "ret = 0" "s' = s" using Suc.prems(3) big nb idx by (auto simp: Let_def split: if_splits)
    then show ?thesis using Suc.prems(1,2) leaf
      by (intro exI [of _ T]) (auto simp: ept_same_def lookup_post_def intro!: exI [of _ "Suc l"] exI [of _ d])
  next
    case link
    then have nl: "\<not> is_leaf (Suc l) ?e" "pte_present ?e" using ep by (auto simp: is_leaf_def epte_big_pte)
    have T1: "T (PTE_ADDR ?e) = Some (l, ?n div 512 ^ Suc l)"
      using wf_child_pidx [OF o(1) Suc.prems(2)] nl by (simp add: links_def)
    have "ept_lookup_from l (PTE_ADDR ?e) gpa 0 create s = (ret, out, s')"
      using Suc.prems(3) link idx ep(3) by (simp add: Let_def)
    from Suc.IH [OF Suc.prems(1) T1 this] show ?thesis .
  next
    case absent
    then have nl: "\<not> is_leaf (Suc l) ?e" "\<not> pte_present ?e" using ep by (auto simp: is_leaf_def zero_entry)
    then have v0: "pview (emem s) (ept_root s) ?n = (0, 0)" unfolding view by (simp add: view_at_Suc)
    show ?thesis
    proof (cases "create \<and> kpages s \<noteq> []")
      case False
      then have "s' = s" "out = None" "if create then ret = - ENOMEM else ret = - ENOENT"
        using Suc.prems(3) absent idx by (auto simp: Let_def split: if_splits)
      then show ?thesis using Suc.prems(1) v0
        by (intro exI [of _ T]) (auto simp: ept_same_def lookup_post_def split: if_splits)
    next
      case True
      then obtain p ps where k: "kpages s = p # ps" by (cases "kpages s") auto
      define s1 where "s1 = ewr (ent d ?i) (epte_addr p OR EPTE_FULL)
        (s\<lparr>kpages := ps, pgtbl_pages_created := pgtbl_pages_created s + 1, emem := memset_page p 0 (emem s)\<rparr>)"
      note t = ept_install(1,3,4) [OF Suc.prems(1) k Suc.prems(2) pidx_less absent, where c = "pgtbl_pages_created s + 1", folded s1_def]
      note fresh = ept_install(2) [OF Suc.prems(1) k Suc.prems(2) pidx_less absent]
      let ?T = "T(p \<mapsto> (l, ?n div 512 ^ Suc (Suc l) * 512 + ?i))"
      have T1: "?T p = Some (l, ?n div 512 ^ Suc l)" using pidx_split [of ?n "Suc l"] by simp
      have link: "\<not> epte_big (emem s1 (ent d ?i))" "epte_addr (emem s1 (ent d ?i)) = p"
        using t(2) by simp_all
      have "ept_lookup_from l p gpa 0 create s1 = (ret, out, s')"
        using Suc.prems(3) unfolding ept_lookup_from.simps Let_def idx k list.case s1_def [symmetric]
        using absent True link by simp
      from Suc.IH [OF t(1) T1 this] obtain T' where T': "ept_ok T' s'" "?T \<subseteq>\<^sub>m T'" "ept_same s1 s'" 
          "lookup_post T' ?n create s1 ret out s'" by blast
      have "ept_same s s1" using t(3) by (simp add: ept_same_def s1_def ewr_def)
      moreover have "T \<subseteq>\<^sub>m ?T" using fresh by (auto simp: map_le_def)
      ultimately show ?thesis
        using T' True map_le_trans ept_same_trans by (intro exI [of _ T']) (auto simp: lookup_post_def split: option.splits)
    qed
  qed
qed

lemma ept_lookup_gpa_ok:
  assumes "ept_ok T s" "ept_lookup_gpa gpa 0 create s = (ret, out, s')"
  shows "\<exists>T'. ept_ok T' s' \<and> T \<subseteq>\<^sub>m T' \<and> ept_same s s' \<and> (\<not> create \<longrightarrow> s' = s \<and> T' = T) \<and> lookup_post T' (vpn gpa) create s ret out s'"
proof -
  have "T (ept_root s) = Some (3, vpn gpa div 512 ^ Suc 3)"
    using wf_root [OF ept_okD(2) [OF assms(1)]] vpn_less [of gpa] by simp
  from ept_lookup_from_ok [OF assms(1) this] assms(2) show ?thesis by (simp add: ept_lookup_gpa_def)
qed

lemma ept_lookup_from_reads: "ept_lookup_from l d gpa level False s = (ret, out, s') \<Longrightarrow> s' = s"
  by (induction l arbitrary: d) (auto simp: Let_def split: if_splits)

lemma ept_lookup_gpa_reads: "ept_lookup_gpa gpa level False s = (ret, out, s') \<Longrightarrow> s' = s"
  unfolding ept_lookup_gpa_def by (rule ept_lookup_from_reads)

section \<open>Leaf entries\<close>

lemma epte_addr_or: "epte_addr (a OR b) = epte_addr a OR epte_addr b" "PTE_ADDR (a OR b) = PTE_ADDR a OR PTE_ADDR b"
  by (simp_all add: epte_addr_def PTE_ADDR_def bit.conj_disj_distrib2)

lemma ad_flags_small:
  assumes "epte_addr f = 0" "bit f 0"
  shows "epte_addr (ad_flags w f s) = 0" "bit (ad_flags w f s) 0"
  using assms by (simp_all add: ad_flags_def epte_addr_or consts_def bit_or_iff) (simp_all add: epte_addr_def)

lemma epte_addr_PTE: "epte_addr f = 0 \<Longrightarrow> PTE_ADDR f = 0"
proof -
  assume z: "epte_addr f = 0"
  have "\<not> bit f n" if "12 \<le> n" for n using epte_addr_bit [of f n] z that by simp
  then show ?thesis by (intro bit_word_eqI) (auto simp: PTE_ADDR_bit)
qed

lemma leaf_epte_wf:
  assumes "epte_addr f = 0" "bit f 0" "epte_addr a = PTE_ADDR a"
  shows "epte_wf (epte_addr a OR f)" "epte_addr (epte_addr a OR f) = epte_addr a"
proof -
  have "epte_addr (epte_addr a) = epte_addr a" "PTE_ADDR (epte_addr a) = PTE_ADDR a"
    by (rule bit_word_eqI, auto simp: epte_addr_bit PTE_ADDR_bit)+
  then show "epte_wf (epte_addr a OR f)" "epte_addr (epte_addr a OR f) = epte_addr a"
    using assms epte_addr_PTE [OF assms(1)] by (simp_all add: epte_wf_def tst_epte bit_or_iff epte_addr_or)
qed

lemma ept_leaf_write:
  assumes ok: "ept_ok T s" and d: "T d = Some (l, b)" "i < 512" and leaf: "is_leaf l (emem s (ent d i))" "is_leaf l v"
    and v: "epte_wf v"
  shows "ept_ok T (ewr (ent d i) v s)"
    "n < 0x1000000000 \<Longrightarrow> pview (emem (ewr (ent d i) v s)) (ept_root s) n =
       (if n div 512 ^ l = b * 512 + i then (l, v) else pview (emem s) (ept_root s) n)"
proof -
  note o = ept_okD [OF ok]
  have "epte_wf (((emem s)(ent d i := v)) (ent x j)) \<and> (k = 3 \<longrightarrow> \<not> epte_big (((emem s)(ent d i := v)) (ent x j)))"
    if "T x = Some (k, c)" "j < 512" for x k c j
  proof (cases "x = d \<and> j = i")
    case True
    then show ?thesis using v that d leaf o(5) by (auto simp: is_leaf_def)
  next
    case False
    then have "ent x j \<noteq> ent d i" using that d wf_aligned [OF o(2)] by auto
    then show ?thesis using o(4,5) that by auto
  qed
  then show "ept_ok T (ewr (ent d i) v s)"
    using pt_wf_leaf_write [OF o(1) d leaf] o(3) by (simp add: ept_ok_def ewr_def)
  show "n < 0x1000000000 \<Longrightarrow> pview (emem (ewr (ent d i) v s)) (ept_root s) n =
       (if n div 512 ^ l = b * 512 + i then (l, v) else pview (emem s) (ept_root s) n)"
    using pview_leaf_write [OF o(1) d leaf] by (simp add: ewr_def)
qed

lemma clear_epte_parts:
  "emem (snd (ept_clear_epte K a s)) = (emem s)(a := 0)" "ept_root (snd (ept_clear_epte K a s)) = ept_root s"
  "kpages (snd (ept_clear_epte K a s)) = kpages s" "ept_ad_enabled (snd (ept_clear_epte K a s)) = ept_ad_enabled s"
  "sync_log (snd (ept_clear_epte K a s)) = sync_log s"
  "host_ref (snd (ept_clear_epte K a s)) h = host_ref s h - ref_drop K (emem s a) h"
  "fst (ept_clear_epte K a s) = (if emem s a = 0 then 0 else 1)"
  by (auto simp: ept_clear_epte_def ewr_def free_ept_page_def put_host_page_def ref_drop_def Let_def EPTE_NONE_def fun_eq_iff)

lemma ept_ok_cong:
  "ept_root s' = ept_root s \<Longrightarrow> kpages s' = kpages s \<Longrightarrow> emem s' = emem s \<Longrightarrow> ept_ok T s' \<longleftrightarrow> ept_ok T s"
  by (simp add: ept_ok_def)

lemma clear_epte_ok:
  assumes ok: "ept_ok T s" and d: "T d = Some (0, b)" "i < 512"
  shows "ept_ok T (snd (ept_clear_epte K (ent d i) s))"
    "n < 0x1000000000 \<Longrightarrow> pview (emem (snd (ept_clear_epte K (ent d i) s))) (ept_root s) n =
       (if n = b * 512 + i then (0, 0) else pview (emem s) (ept_root s) n)"
proof -
  note w = ept_leaf_write [OF ok d, of 0]
  have l: "is_leaf 0 (emem s (ent d i))" "is_leaf 0 0" "epte_wf 0" by (simp_all add: is_leaf_def epte_wf_def)
  have "ept_ok T (snd (ept_clear_epte K (ent d i) s)) \<longleftrightarrow> ept_ok T (ewr (ent d i) 0 s)"
    by (rule ept_ok_cong) (simp_all add: clear_epte_parts ewr_def)
  then show "ept_ok T (snd (ept_clear_epte K (ent d i) s))" using w(1) [OF l] by simp
  show "n < 0x1000000000 \<Longrightarrow> pview (emem (snd (ept_clear_epte K (ent d i) s))) (ept_root s) n =
       (if n = b * 512 + i then (0, 0) else pview (emem s) (ept_root s) n)"
    using w(2) [OF l] by (simp add: clear_epte_parts ewr_def)
qed

text \<open>A lookup that ends at level 0 because nothing big is in the way.\<close>

lemma small_leaf:
  assumes ok: "ept_ok T s" and d: "T d = Some (k, n div 512 ^ Suc k)" "is_leaf k (emem s (ent d (pidx k n)))"
    and n: "n < 0x1000000000" and v: "fst (pview (emem s) (ept_root s) n) = 0"
  shows "k = 0" "pview (emem s) (ept_root s) n = (0, emem s (ent d (pidx 0 n)))"
proof -
  have "pview (emem s) (ept_root s) n = view_at (emem s) k d n" by (rule pview_region(1) [OF ept_okD(1) [OF ok] d(1) n])
  then show "k = 0" "pview (emem s) (ept_root s) n = (0, emem s (ent d (pidx 0 n)))"
    using v d(2) by (cases k; simp add: view_at_Suc view_at_0)+
qed

lemma vpn_index: "n div 512 ^ Suc 0 * 512 + pidx 0 n = n"
  using pidx_split [of n 0] by simp

lemma empty_root_ok:
  assumes "pg_aligned r" "\<forall>i < 512. emem s (ent r i) = 0" "ept_root s = r" "kpages_ok [r \<mapsto> (3, 0)] (kpages s)"
  shows "ept_ok [r \<mapsto> (3, 0)] s"
proof -
  have "pt_wf [r \<mapsto> (3, 0)] r (emem s)"
    using assms(1,2) by (auto simp: pt_wf_def tab_wf_def links_def zero_entry split: if_splits)
  then show ?thesis using assms by (auto simp: ept_ok_def epte_wf_def epte_big_pte zero_entry split: if_splits)
qed

lemma example_ept_ok: "ept_ok example_ept_tables example_ept"
  unfolding example_ept_tables_def
  by (rule empty_root_ok) (simp_all add: example_ept_def kpages_ok_def pg_aligned_def PGADDR_def PTE_ADDR_def)

lemma example_ept2_cells:
  assumes "i < 512"
  shows "emem example_ept2 (ent 0x1000 i) = (if i = 0 then 0x2007 else 0)" "emem example_ept2 (ent 0x2000 i) = (if i = 0 then 0x3007 else 0)"
    "emem example_ept2 (ent 0x3000 i) = (if i = 2 then 0x4007 else 0)" "emem example_ept2 (ent 0x4000 i) = (if i = 0 then 0x555077 else 0)"
proof -
  have al: "pg_aligned 0x1000" "pg_aligned 0x2000" "pg_aligned 0x3000" "pg_aligned 0x4000" by (simp_all add: pg_aligned_def PGADDR_def)
  have m: "emem example_ept2 = (\<lambda>_. 0)(ent 0x1000 0 := 0x2007, ent 0x2000 0 := 0x3007, ent 0x3000 2 := 0x4007, ent 0x4000 0 := 0x555077)"
    by (simp add: example_ept2_def ent_def)
  show "emem example_ept2 (ent 0x1000 i) = (if i = 0 then 0x2007 else 0)" "emem example_ept2 (ent 0x2000 i) = (if i = 0 then 0x3007 else 0)"
    "emem example_ept2 (ent 0x3000 i) = (if i = 2 then 0x4007 else 0)" "emem example_ept2 (ent 0x4000 i) = (if i = 0 then 0x555077 else 0)"
    unfolding m using al assms by simp_all
qed

lemma example_ept2_tablesD:
  "example_ept2_tables d = Some (l, b) \<Longrightarrow>
     d = 0x1000 \<and> l = 3 \<and> b = 0 \<or> d = 0x2000 \<and> l = 2 \<and> b = 0 \<or> d = 0x3000 \<and> l = 1 \<and> b = 0 \<or> d = 0x4000 \<and> l = 0 \<and> b = 2"
  by (auto simp: example_ept2_tables_def split: if_splits)

lemma example_ept2_entries:
  "pte_present 0x2007" "\<not> pte_big 0x2007" "PTE_ADDR 0x2007 = 0x2000" "pte_present 0x3007" "\<not> pte_big 0x3007" "PTE_ADDR 0x3007 = 0x3000"
  "pte_present 0x4007" "\<not> pte_big 0x4007" "PTE_ADDR 0x4007 = 0x4000" "epte_wf 0x2007" "epte_wf 0x3007" "epte_wf 0x4007" "epte_wf 0x555077" "epte_wf 0"
  by (simp_all add: pte_present_def pte_big_def PTE_ADDR_def PTE_FLAGS_def epte_wf_def epte_addr_def tst_def consts_def)

lemma example_ept2_wf: "pt_wf example_ept2_tables 0x1000 (emem example_ept2)"
proof -
  let ?T = example_ept2_tables and ?m = "emem example_ept2"
  note T = example_ept2_tables_def and e = example_ept2_entries
  have tab: "tab_wf ?T 0x1000"
    unfolding tab_wf_def
  proof (intro conjI allI impI)
    show "?T 0x1000 = Some (3, 0)" by (simp add: T)
    show "pg_aligned d" "l < 3 \<or> l = 3 \<and> b = 0" if "?T d = Some (l, b)" for d l b
      using example_ept2_tablesD [OF that] by (auto simp: pg_aligned_def PGADDR_def)
    show "d = d'" if "?T d = Some x" "?T d' = Some x" for d d' x
      using example_ept2_tablesD [of d "fst x" "snd x"] example_ept2_tablesD [of d' "fst x" "snd x"] that by auto
  qed
  have child: "?T d' = Some (l - 1, b * 512 + i)" if d: "?T d = Some (l, b)" "i < 512" and k: "links ?m l d i d'" for d l b i d'
    using example_ept2_tablesD [OF d(1)]
  proof (elim disjE conjE)
    assume "d = 0x1000" "l = 3" "b = 0" then show ?thesis using k d(2) e(1-3) by (simp add: links_def example_ept2_cells T zero_entry split: if_splits)
  next
    assume "d = 0x2000" "l = 2" "b = 0" then show ?thesis using k d(2) e(4-6) by (simp add: links_def example_ept2_cells T zero_entry split: if_splits)
  next
    assume "d = 0x3000" "l = 1" "b = 0" then show ?thesis using k d(2) e(7-9) by (simp add: links_def example_ept2_cells T zero_entry split: if_splits)
  next
    assume "l = 0" then show ?thesis using k by (simp add: links_def is_leaf_def)
  qed
  have parent: "\<exists>d. ?T d = Some (Suc l, b div 512) \<and> links ?m (Suc l) d (b mod 512) d'" if d: "?T d' = Some (l, b)" "l < 3" for d' l b
    using example_ept2_tablesD [OF d(1)]
  proof (elim disjE conjE)
    assume "d' = 0x2000" "l = 2" "b = 0"
    then show ?thesis using e by (intro exI [of _ "0x1000"]) (simp add: T links_def is_leaf_def example_ept2_cells)
  next
    assume "d' = 0x3000" "l = 1" "b = 0"
    then show ?thesis using e by (intro exI [of _ "0x2000"]) (simp add: T links_def is_leaf_def example_ept2_cells)
  next
    assume "d' = 0x4000" "l = 0" "b = 2"
    then show ?thesis using e by (intro exI [of _ "0x3000"]) (simp add: T links_def is_leaf_def example_ept2_cells)
  qed (use d(2) in simp)
  show ?thesis unfolding pt_wf_def using tab child parent by blast
qed

lemma example_ept2_ok: "ept_ok example_ept2_tables example_ept2"
  unfolding ept_ok_def
proof (intro conjI allI impI)
  have r: "ept_root example_ept2 = 0x1000" "kpages example_ept2 = []" by (simp_all add: example_ept2_def example_ept_def)
  show "pt_wf example_ept2_tables (ept_root example_ept2) (emem example_ept2)" using example_ept2_wf by (simp add: r)
  show "kpages_ok example_ept2_tables (kpages example_ept2)" by (simp add: r kpages_ok_def)
  show "epte_wf (emem example_ept2 (ent d i))" if "example_ept2_tables d = Some (l, b)" "i < 512" for d l b i
    using example_ept2_tablesD [OF that(1)] example_ept2_cells [OF that(2)] example_ept2_entries by (elim disjE conjE) simp_all
  show "\<not> epte_big (emem example_ept2 (ent d i))" if "example_ept2_tables d = Some (l, b)" "i < 512" "l = 3" for d l b i
    using example_ept2_tablesD [OF that(1)] that example_ept2_cells example_ept2_entries(2) by (auto simp: epte_big_pte zero_entry)
qed

section \<open>The fault path\<close>

lemma ept_lookup_twice:
  assumes ok: "ept_ok T s" and small: "fst (pview (emem s) (ept_root s) (vpn gpa)) = 0"
    and run: "(let (ret, out, s) = ept_lookup_gpa gpa 0 False s
       in if ret = - ENOENT then ept_lookup_gpa gpa 0 True s else (ret, out, s)) = (ret, out, s')"
  shows "\<exists>T'. ept_ok T' s' \<and> ept_same s s' \<and>
    (out = None \<and> ret = - ENOMEM \<or>
     (\<exists>d. out = Some (ent d (pidx 0 (vpn gpa))) \<and> ret = 0 \<and> T' d = Some (0, vpn gpa div 512 ^ Suc 0) \<and>
        emem s' (ent d (pidx 0 (vpn gpa))) = snd (pview (emem s) (ept_root s) (vpn gpa))))"
proof -
  obtain create where l: "ept_lookup_gpa gpa 0 create s = (ret, out, s')" "\<not> create \<longrightarrow> ret \<noteq> - ENOENT"
  proof (cases "ept_lookup_gpa gpa 0 False s")
    case (fields r1 o1 s1)
    have "s1 = s" by (rule ept_lookup_gpa_reads [OF fields])
    then show ?thesis using run that [of False] that [of True] fields by (auto split: if_splits)
  qed
  from ept_lookup_gpa_ok [OF ok l(1)] obtain T' where T': "ept_ok T' s'" "ept_same s s'"
      "lookup_post T' (vpn gpa) create s ret out s'" by blast
  have v: "pview (emem s') (ept_root s') (vpn gpa) = pview (emem s) (ept_root s) (vpn gpa)"
    using T'(2) vpn_less [of gpa] by (simp add: ept_same_def)
  show ?thesis
  proof (cases out)
    case None
    then show ?thesis using T' l(2) by (intro exI [of _ T']) (auto simp: lookup_post_def)
  next
    case (Some a)
    then obtain k d where d: "ret = 0" "T' d = Some (k, vpn gpa div 512 ^ Suc k)" "a = ent d (pidx k (vpn gpa))"
        "is_leaf k (emem s' a)"
      using T'(3) by (auto simp: lookup_post_def)
    have "fst (pview (emem s') (ept_root s') (vpn gpa)) = 0" using v small by simp
    note k = small_leaf [OF T'(1) d(2) d(4) [unfolded d(3)] vpn_less this]
    have "a = ent d (pidx 0 (vpn gpa))" "T' d = Some (0, vpn gpa div 512 ^ Suc 0)"
        "emem s' (ent d (pidx 0 (vpn gpa))) = snd (pview (emem s) (ept_root s) (vpn gpa))"
      using d k v by simp_all
    then show ?thesis using T' Some d(1) by (intro exI [of _ T']) blast
  qed
qed

lemma clear_old_small: "epte_wf (emem s a) \<Longrightarrow> clear_old K 0 a s = snd (ept_clear_epte K a s)"
  using epte_wf_pte(2) [of "emem s a"] by (simp add: clear_old_def ept_clear_epte_def EPTE_NONE_def)

lemma page_epte_wf:
  assumes "epte_addr (push_bit 12 page) = PTE_ADDR (push_bit 12 page)"
  shows "epte_wf (page_epte w page s)"
proof -
  let ?f = "EPTE_READ OR EPTE_EXEC OR EPTE_TYPE EPTE_TYPE_WB OR EPTE_IPAT"
  have "epte_addr ?f = 0" "bit ?f 0" by (simp_all add: epte_addr_def EPTE_TYPE_def consts_def)
  from ad_flags_small [OF this] leaf_epte_wf(1) assms show ?thesis by (simp add: page_epte_def)
qed

text \<open>Replacing a leaf by a page: clear the old entry, then write the new one.\<close>

lemma connect_small:
  fixes w :: bool and K :: host_kernel
  assumes ok: "ept_ok T s" and d: "T d = Some (0, vpn gpa div 512 ^ Suc 0)"
    and page: "epte_addr (push_bit 12 page) = PTE_ADDR (push_bit 12 page)"
  defines "a \<equiv> ent d (pidx 0 (vpn gpa))"
  defines "s' \<equiv> connect_page K w 0 page a (clear_old K 0 a s)"
  shows "ept_ok T s'" "host_ref s' h = host_ref s h - ref_drop K (emem s a) h" "sync_log s' = sync_log s" "ept_root s' = ept_root s"
    "n < 0x1000000000 \<Longrightarrow> pview (emem s') (ept_root s) n =
      (if n = vpn gpa then (0, page_epte w page s) else pview (emem s) (ept_root s) n)"
proof -
  let ?v = "page_epte w page s"
  have ewf: "epte_wf (emem s a)" unfolding a_def using ept_okD(4) [OF ok d pidx_less] .
  define s1 where "s1 = snd (ept_clear_epte K a s)"
  have s1: "ept_root s1 = ept_root s" "kpages s1 = kpages s" "emem s1 = (emem s)(a := 0)" "ept_ad_enabled s1 = ept_ad_enabled s"
      "sync_log s1 = sync_log s" "\<And>h. host_ref s1 h = host_ref s h - ref_drop K (emem s a) h"
    by (simp_all add: s1_def clear_epte_parts)
  have v: "page_epte w page s1 = ?v" by (simp add: page_epte_def ad_flags_def s1)
  have s': "s' = ewr a ?v (s1\<lparr>host_4k_pages_connected := host_4k_pages_connected s1 + 1\<rparr>)"
    using v by (simp add: s'_def connect_page_def clear_old_small [OF ewf] s1_def [symmetric] page_epte_def Let_def)
  have w: "ept_ok T (ewr a ?v s)" "n < 0x1000000000 \<Longrightarrow> pview (emem (ewr a ?v s)) (ept_root s) n =
      (if n = vpn gpa then (0, ?v) else pview (emem s) (ept_root s) n)" for n
    unfolding a_def using ept_leaf_write [OF ok d pidx_less, where v = ?v] page_epte_wf [OF page]
    by (simp_all add: is_leaf_def vpn_index [simplified])
  have m: "emem s' = emem (ewr a ?v s)" by (simp add: s' ewr_def s1)
  have "ept_ok T s' \<longleftrightarrow> ept_ok T (ewr a ?v s)"
    by (rule ept_ok_cong) (simp_all add: s' ewr_def s1)
  then show "ept_ok T s'" using w(1) by simp
  show "host_ref s' h = host_ref s h - ref_drop K (emem s a) h" "sync_log s' = sync_log s" "ept_root s' = ept_root s"
    by (simp_all add: s' ewr_def s1)
  show "n < 0x1000000000 \<Longrightarrow> pview (emem s') (ept_root s) n =
      (if n = vpn gpa then (0, ?v) else pview (emem s) (ept_root s) n)"
    unfolding m by (rule w(2))
qed

lemma set_epte_small:
  assumes ok: "ept_ok T s" and ns: "PGADDR gpa \<noteq> GPA_APIC_PAGE" "\<not> gpa_window GPA_POSTED_INTR_DESCS (num_possible_cpus K) gpa"
      "\<not> gpa_window GPA_PV_INFO_PAGES (num_possible_cpus K) gpa"
    and vma: "find_vma K hva = Some vma" and w: "w' = (vma_is_anonymous vma \<and> \<not> vma_io_or_pfnmap vma \<or> w)"
    and gup: "get_user_pages_fast K hva w' = Some page" "page_level K page = 0"
    and page: "epte_addr (push_bit 12 page) = PTE_ADDR (push_bit 12 page)"
    and small: "fst (pview (emem s) (ept_root s) (vpn gpa)) = 0"
  shows "\<exists>ret s' T'. ept_set_epte K w gpa hva s = Some (ret, s') \<and> ept_ok T' s' \<and> (ret = 0 \<or> ret = - ENOMEM) \<and>
    (\<forall>n < 0x1000000000. pview (emem s') (ept_root s) n =
       (if n = vpn gpa \<and> ret = 0 then (0, page_epte w' page s) else pview (emem s) (ept_root s) n)) \<and>
    (\<forall>h. host_ref s' h = host_ref s h + (if ret \<noteq> 0 then 0 else
       (if h = compound_head K page then 1 else 0) - ref_drop K (snd (pview (emem s) (ept_root s) (vpn gpa))) h))"
proof -
  define s1 where "s1 = get_page K page s"
  have s1: "emem s1 = emem s" "ept_root s1 = ept_root s" "kpages s1 = kpages s" "ept_ad_enabled s1 = ept_ad_enabled s"
      "\<And>h. host_ref s1 h = host_ref s h + (if h = compound_head K page then 1 else 0)"
    by (simp_all add: s1_def get_page_def)
  have ok1: "ept_ok T s1" using ok ept_ok_cong [of s1 s] s1 by simp
  obtain ret out s2 where l: "(let (ret, out, s) = ept_lookup_gpa gpa 0 False s1
       in if ret = - ENOENT then ept_lookup_gpa gpa 0 True s else (ret, out, s)) = (ret, out, s2)"
    by (rule prod_cases3)
  have "effective_write False (find_vma K hva) w = w'" using vma w by (auto simp: effective_write_def)
  then have "ept_set_epte K w gpa hva s = Some (ept_map_user_page K w' gpa page s)"
    using ns vma gup(1) by (simp add: ept_set_epte_def)
  also have "ept_map_user_page K w' gpa page s = (case (ret, out, s2) of (ret, None, s) \<Rightarrow> (ret, put_host_page K page s)
        | (ret, Some epte, s) \<Rightarrow> (0, connect_page K w' 0 page epte (clear_old K 0 epte s)))"
    unfolding ept_map_user_page_def Let_def gup(2) s1_def [symmetric] l [unfolded Let_def] by (rule refl)
  finally have run: "ept_set_epte K w gpa hva s = Some (case (ret, out, s2) of (ret, None, s) \<Rightarrow> (ret, put_host_page K page s)
        | (ret, Some epte, s) \<Rightarrow> (0, connect_page K w' 0 page epte (clear_old K 0 epte s)))" .
  from ept_lookup_twice [OF ok1 _ l] small s1 obtain T' where T': "ept_ok T' s2" "ept_same s1 s2"
      "out = None \<and> ret = - ENOMEM \<or> (\<exists>d. out = Some (ent d (pidx 0 (vpn gpa))) \<and> ret = 0 \<and> T' d = Some (0, vpn gpa div 512 ^ Suc 0) \<and>
        emem s2 (ent d (pidx 0 (vpn gpa))) = snd (pview (emem s) (ept_root s) (vpn gpa)))"
    by auto
  have s2: "ept_root s2 = ept_root s" "ept_ad_enabled s2 = ept_ad_enabled s" "host_ref s2 = host_ref s1"
      "\<And>n. n < 0x1000000000 \<Longrightarrow> pview (emem s2) (ept_root s) n = pview (emem s) (ept_root s) n"
    using T'(2) s1 by (auto simp: ept_same_def)
  have pe: "page_epte w' page s2 = page_epte w' page s" by (simp add: page_epte_def ad_flags_def s2)
  from T'(3) show ?thesis
  proof (elim disjE conjE exE)
    assume "out = None" "ret = - ENOMEM"
    moreover have "ept_ok T' (put_host_page K page s2)" using T'(1) ept_ok_cong [of "put_host_page K page s2" s2]
      by (simp add: put_host_page_def)
    ultimately show ?thesis using run s2 s1 by (auto simp: put_host_page_def ENOMEM_def)
  next
    fix d assume d: "out = Some (ent d (pidx 0 (vpn gpa)))" "ret = 0" "T' d = Some (0, vpn gpa div 512 ^ Suc 0)"
      "emem s2 (ent d (pidx 0 (vpn gpa))) = snd (pview (emem s) (ept_root s) (vpn gpa))"
    note c = connect_small [OF T'(1) d(3) page, where K = K and w = w']
    show ?thesis
      using c(1) c(2,5) [unfolded d(4)] run d(1,2) s1 s2 pe by auto
  qed
qed

section \<open>Properties\<close>

text \<open>
  C3: a fault on a guest physical address that belongs to ordinary process memory, with no large page
  mapped there, maps exactly that page: it returns 0 or \<open>-ENOMEM\<close>; on success the page's
  entry is the frame the host gave, readable, executable, write-back, and writable as required; no other page's
  translation changes in either case; and reference counts balance: the new frame gains one
  reference, the frame it replaces loses one, and on failure nothing is kept.
\<close>

theorem ept_fault_maps_page:
  assumes "ept_ok T s" "\<not> gpa_special gpa" "num_possible_cpus K \<le> 256"
    "hva = gpa_to_hva (hk_phys_bits K) (hk_mm K) gpa" "hva \<noteq> ADDR_INVAL" "find_vma K hva = Some vma"
    "w' = (vma_is_anonymous vma \<and> \<not> vma_io_or_pfnmap vma \<or> tst fl VMX_EPT_FAULT_WRITE)"
    "get_user_pages_fast K hva w' = Some page" "page_level K page = 0"
    "epte_addr (push_bit 12 page) = PTE_ADDR (push_bit 12 page)" "fst (pview (emem s) (ept_root s) (vpn gpa)) = 0"
  shows "\<exists>ret s' T'. vmx_do_ept_fault K gpa fl s = Some (ret, s') \<and> ept_ok T' s' \<and> (ret = 0 \<or> ret = - ENOMEM) \<and>
    (\<forall>n < 0x1000000000. pview (emem s') (ept_root s) n =
       (if n = vpn gpa \<and> ret = 0 then (0, page_epte w' page s) else pview (emem s) (ept_root s) n)) \<and>
    (\<forall>h. host_ref s' h = host_ref s h + (if ret \<noteq> 0 then 0 else
       (if h = compound_head K page then 1 else 0) - ref_drop K (snd (pview (emem s) (ept_root s) (vpn gpa))) h))"
proof -
  have mono: "gpa_window base n gpa \<Longrightarrow> n \<le> 256 \<Longrightarrow> base \<le> base + 4096 * 256 \<Longrightarrow> gpa_window base 256 gpa" for base n
  proof -
    assume a: "gpa_window base n gpa" "n \<le> 256" "base \<le> base + 4096 * 256"
    have nn: "unat (4096 * of_nat n :: u64) = 4096 * n" using a(2) by (simp add: unat_word_ariths unat_of_nat)
    have "4096 * of_nat n \<le> (4096 * 256 :: u64)" unfolding word_le_nat_alt nn using a(2) by simp
    then have "base + 4096 * of_nat n \<le> base + 4096 * 256" using a(3) word_plus_mono_right by blast
    then show "gpa_window base 256 gpa" using a(1) by (auto simp: gpa_window_def)
  qed
  have ns: "PGADDR gpa \<noteq> GPA_APIC_PAGE" "\<not> gpa_window GPA_POSTED_INTR_DESCS (num_possible_cpus K) gpa"
      "\<not> gpa_window GPA_PV_INFO_PAGES (num_possible_cpus K) gpa"
    using assms(2,3) mono [of GPA_POSTED_INTR_DESCS] mono [of GPA_PV_INFO_PAGES]
    by (auto simp: gpa_special_def) (auto simp: consts_def)
  have "vmx_do_ept_fault K gpa fl s = ept_set_epte K (tst fl VMX_EPT_FAULT_WRITE) gpa hva s"
    using assms(4,5) by (simp add: vmx_do_ept_fault_def Let_def)
  then show ?thesis using set_epte_small [OF assms(1) ns assms(6-11)] by simp
qed

theorem ept_fault_maps_page_witness:
  "\<exists>ret s'. vmx_do_ept_fault example_kernel 0x400000 0 example_ept = Some (ret, s') \<and>
    (ret = 0 \<longrightarrow> pview (emem s') 0x1000 0x400 = (0, page_epte True 0x555 example_ept) \<and> host_ref s' 0x555 = 1)"
proof -
  have h: "gpa_to_hva 39 example_mm 0x400000 = 0x400000"
    by (simp add: gpa_to_hva_def gpa_window_def PGADDR_def consts_def phys_end_def push_bit_eq_mult Let_def)
  have v: "pview (emem example_ept) 0x1000 n = (0, 0)" for n
    by (simp add: pview_view_at view_at_Suc example_ept_def is_leaf_def zero_entry numeral_3_eq_3)
  have g: "vpn 0x400000 = 0x400" "ept_root example_ept = 0x1000" by (simp_all add: vpn_def example_ept_def)
  let ?vma = "\<lparr>vma_is_anonymous = True, vma_io_or_pfnmap = False, vma_cachemode = Cache_WB\<rparr>"
  have p: "\<not> gpa_special 0x400000" "num_possible_cpus example_kernel \<le> 256"
      "0x400000 = gpa_to_hva (hk_phys_bits example_kernel) (hk_mm example_kernel) 0x400000" "0x400000 \<noteq> ADDR_INVAL"
      "find_vma example_kernel 0x400000 = Some ?vma"
      "True = (vma_is_anonymous ?vma \<and> \<not> vma_io_or_pfnmap ?vma \<or> tst 0 VMX_EPT_FAULT_WRITE)"
      "get_user_pages_fast example_kernel 0x400000 True = Some 0x555" "page_level example_kernel 0x555 = 0"
      "epte_addr (push_bit 12 0x555) = PTE_ADDR (push_bit 12 0x555)" "fst (pview (emem example_ept) (ept_root example_ept) (vpn 0x400000)) = 0"
    unfolding g v using h by (simp_all add: example_kernel_def gpa_special_def gpa_window_def PGADDR_def consts_def page_level_def
        epte_addr_def PTE_ADDR_def push_bit_eq_mult)
  have c: "compound_head example_kernel 0x555 = 0x555" by (simp add: example_kernel_def)
  obtain ret s' where r: "vmx_do_ept_fault example_kernel 0x400000 0 example_ept = Some (ret, s')"
      "\<forall>n < 0x1000000000. pview (emem s') 0x1000 n = (if n = 0x400 \<and> ret = 0 then (0, page_epte True 0x555 example_ept) else (0, 0))"
      "\<forall>x. host_ref s' x = host_ref example_ept x + (if ret \<noteq> 0 then 0 else (if x = 0x555 then 1 else 0) - ref_drop example_kernel 0 x)"
    using ept_fault_maps_page [OF example_ept_ok p, unfolded g v c snd_conv] by blast
  have "ret = 0 \<longrightarrow> pview (emem s') 0x1000 0x400 = (0, page_epte True 0x555 example_ept) \<and> host_ref s' 0x555 = 1"
    using r(2) r(3) by (simp add: ref_drop_def example_ept_def)
  then show ?thesis using r(1) by blast
qed

text \<open>
  C21: unmapping a page of the process on a notifier call removes its translation and no other, drops
  the reference the entry held, and asks every core to forget that guest physical address.
\<close>

theorem ept_invalidate_page_removes:
  assumes "ept_ok T s" "gpa = hva_to_gpa (hk_phys_bits K) (hk_mm K) addr" "gpa \<noteq> ADDR_INVAL"
    "pview (emem s) (ept_root s) (vpn gpa) = (0, e)" "e \<noteq> 0"
  shows "\<exists>s'. ept_invalidate_page K addr s = (1, s') \<and> ept_ok T s' \<and> sync_log s' = sync_log s @ [Sync_Addr gpa] \<and>
    (\<forall>n < 0x1000000000. pview (emem s') (ept_root s) n = (if n = vpn gpa then (0, 0) else pview (emem s) (ept_root s) n)) \<and>
    (\<forall>h. host_ref s' h = host_ref s h - ref_drop K e h)"
proof -
  obtain ret out s1 where l: "ept_lookup_gpa gpa 0 False s = (ret, out, s1)" by (rule prod_cases3)
  from ept_lookup_gpa_ok [OF assms(1) l] have T': "s1 = s" "lookup_post T (vpn gpa) False s ret out s"
    by auto
  obtain d k where d: "out = Some (ent d (pidx k (vpn gpa)))" "T d = Some (k, vpn gpa div 512 ^ Suc k)"
      "is_leaf k (emem s (ent d (pidx k (vpn gpa))))"
    using T'(2) assms(4,5) by (auto simp: lookup_post_def split: option.splits)
  note k = small_leaf [OF assms(1) d(2,3) vpn_less, unfolded assms(4), simplified]
  let ?a = "ent d (pidx 0 (vpn gpa))"
  have a: "out = Some ?a" "T d = Some (0, vpn gpa div 512 ^ Suc 0)" "emem s ?a = e" using d k by auto
  note c = clear_epte_ok [OF assms(1) a(2) pidx_less [of 0 "vpn gpa"], where K = K, unfolded vpn_index]
  have "ept_invalidate_page K addr s = (1, sync_addr gpa (snd (ept_clear_epte K ?a s)))"
    using l T'(1) a(1,3) assms(2,3,5) clear_epte_parts(7) [of K ?a s]
    by (simp add: ept_invalidate_page_def Let_def split_beta)
  moreover have "ept_ok T (sync_addr gpa (snd (ept_clear_epte K ?a s)))"
    using c(1) ept_ok_cong [of "sync_addr gpa (snd (ept_clear_epte K ?a s))" "snd (ept_clear_epte K ?a s)"] by (simp add: sync_addr_def)
  ultimately show ?thesis using c(2) a(3) by (simp add: sync_addr_def clear_epte_parts)
qed

theorem ept_invalidate_page_removes_witness:
  "\<exists>s'. ept_invalidate_page example_kernel 0x400000 example_ept2 = (1, s') \<and> sync_log s' = [Sync_Addr 0x400000] \<and>
    pview (emem s') 0x1000 0x400 = (0, 0)"
proof -
  have g: "hva_to_gpa (hk_phys_bits example_kernel) (hk_mm example_kernel) 0x400000 = 0x400000"
    by (simp add: example_kernel_def hva_to_gpa_def example_mm_def phys_end_def LG_ALIGN_def consts_def push_bit_eq_mult)
  have v: "pview (emem example_ept2) (ept_root example_ept2) (vpn 0x400000) = (0, 0x555077)" "vpn 0x400000 = 0x400" "ept_root example_ept2 = 0x1000"
    by (simp_all add: vpn_def example_ept2_def example_ept_def pview_view_at view_at_Suc view_at_0 is_leaf_def zero_entry numeral_3_eq_3
        pidx_def ent_def pte_present_def pte_big_def PTE_ADDR_def PTE_FLAGS_def tst_def consts_def)
  show ?thesis
    using ept_invalidate_page_removes [OF example_ept2_ok, where addr = "0x400000" and K = example_kernel and e = "0x555077"] g v
    by (auto simp: consts_def) (auto simp: example_ept2_def example_ept_def)
qed

text \<open>
  C29: with accessed bits in use, the aging callback reports a page but never clears its accessed bit
  and never tells a core to forget it: the test that should guard the clearing is a bitwise
  conjunction of 1 and 0x100. A page accessed once is reported as accessed for ever.
\<close>

theorem ept_accessed_bit_never_cleared:
  "snd (ept_check_page_accessed K addr flush s) = s"
proof -
  have z: "1 AND (e AND EPTE_A) = 0" for e :: u64
    by (rule bit_word_eqI) (auto simp: bit_simps epte_flag_exp)
  obtain ret out s1 where l: "ept_lookup_gpa (hva_to_gpa (hk_phys_bits K) (hk_mm K) addr) 0 False s = (ret, out, s1)"
    by (rule prod_cases3)
  have "s1 = s" by (rule ept_lookup_gpa_reads [OF l])
  then show ?thesis using l by (simp add: ept_check_page_accessed_def Let_def z split: option.splits)
qed

text \<open>
  C30: a range invalidation remembers only for the last page whether a flush is needed: when the first
  page of a two-page range is mapped and the second is empty, the mapping is removed and no core is
  told.
\<close>

theorem ept_range_invalidate_skips_sync:
  assumes "ept_lookup K pos 0 False s = (0, Some a, s)" "emem s a \<noteq> 0" "\<not> epte_big (emem s a)"
    "s1 = snd (ept_clear_epte K a s)" "ept_lookup K (pos + 4096) 0 False s1 = (0, Some b, s1)" "emem s1 b = 0"
    "pos < pos + 8192" "pos + 4096 < pos + 8192"
  shows "\<exists>s'. ept_mmu_notifier_invalidate_range_start K pos (pos + 8192) s = Some (0, s') \<and> emem s' = (emem s)(a := 0) \<and>
    sync_log s' = sync_log s"
proof -
  have nb: "\<not> epte_big (emem s1 b)" using assms(6) by (simp add: epte_big_pte zero_entry)
  have c: "ept_clear_epte K b s1 = (0, s1)" using assms(6) by (simp add: ept_clear_epte_def EPTE_NONE_def)
  have "invalidate_loop K pos (pos + 8192) False 0 0 s = Some (False, hva_to_gpa (hk_phys_bits K) (hk_mm K) (pos + 4096), 2, s1)"
    using assms c nb by (simp add: invalidate_loop.simps Let_def EPTE_NONE_def add.commute [of 8192 pos])
  then show ?thesis using assms(4) by (simp add: ept_mmu_notifier_invalidate_range_start_def clear_epte_parts)
qed

theorem ept_range_invalidate_skips_sync_witness:
  "\<exists>s'. ept_mmu_notifier_invalidate_range_start example_kernel 0x400000 0x402000 example_ept2 = Some (0, s') \<and> sync_log s' = []"
proof -
  have g: "hva_to_gpa 39 example_mm 0x400000 = 0x400000" "hva_to_gpa 39 example_mm 0x401000 = 0x401000"
    by (simp_all add: hva_to_gpa_def example_mm_def phys_end_def LG_ALIGN_def consts_def push_bit_eq_mult)
  show ?thesis
    using ept_range_invalidate_skips_sync [where K = example_kernel and pos = "0x400000" and s = example_ept2 and a = "0x4000" and b = "0x4008"]
    by (simp add: ept_lookup_def g example_kernel_def) (simp add: example_ept2_def example_ept_def ept_lookup_gpa_def numeral_3_eq_3
        ADDR_TO_IDX_def ent_def epte_present_def epte_big_def epte_addr_def tst_def consts_def Let_def
        ept_clear_epte_def free_ept_page_def put_host_page_def ewr_def, blast)
qed

text \<open>
  C22: creating an instance's tables succeeds whenever the host has a page, and gives a well-formed
  empty table.
\<close>

theorem vmx_init_ept_ok:
  assumes "kpages s = p # ps" "kpages_ok Map.empty (kpages s)"
  shows "\<exists>s'. vmx_init_ept s = (0, s') \<and> ept_ok [p \<mapsto> (3, 0)] s' \<and> (\<forall>n. pview (emem s') (ept_root s') n = (0, 0))"
proof -
  let ?s = "s\<lparr>kpages := ps, emem := memset_page p 0 (emem s), ept_root := p\<rparr>"
  have p: "pg_aligned p" using assms by (simp add: kpages_ok_def)
  have "ept_ok [p \<mapsto> (3, 0)] ?s"
    by (rule empty_root_ok) (use assms p in \<open>auto simp: kpages_ok_def\<close>)
  moreover have "pview (emem ?s) p n = (0, 0)" for n
    using p pidx_less by (simp add: pview_view_at numeral_3_eq_3 view_at_Suc is_leaf_def zero_entry)
  ultimately show ?thesis using assms(1) by (simp add: vmx_init_ept_def)
qed

theorem vmx_init_ept_ok_witness:
  "\<exists>s'. vmx_init_ept example_ept = (0, s') \<and> ept_ok [0x2000 \<mapsto> (3, 0)] s'"
  using vmx_init_ept_ok [of example_ept "0x2000" "[0x3000, 0x4000]"]
  by (auto simp: example_ept_def kpages_ok_def pg_aligned_def PGADDR_def PTE_ADDR_def)

lemma invalidate_loop_total:
  assumes "unat stop + 0x200000 < 2 ^ 64"
  shows "\<exists>r. invalidate_loop K pos stop sn gpa c s = Some r"
proof (induction "unat stop - unat pos" arbitrary: pos sn gpa c s rule: less_induct)
  case less
  show ?case
  proof (cases "pos < stop")
    case False
    then show ?thesis by (simp add: invalidate_loop.simps)
  next
    case True
    have lt: "unat pos < unat stop" using True by (simp add: word_less_nat_alt)
    have step: "unat stop - unat (pos + k) < unat stop - unat pos" if "0 < unat k" "unat k \<le> 0x200000" for k :: u64
    proof -
      have "unat (pos + k) = unat pos + unat k" using that lt assms by (intro unat_add_lem [THEN iffD1]) simp
      then show ?thesis using that lt by simp
    qed
    have k: "unat stop - unat (pos + 4096) < unat stop - unat pos" "unat stop - unat (pos + HUGE_PAGE_SIZE) < unat stop - unat pos"
      using step [of 4096] step [of HUGE_PAGE_SIZE] by (simp_all add: consts_def)
    obtain ret out s1 where l: "ept_lookup K pos 0 False s = (ret, out, s1)" by (rule prod_cases3)
    show ?thesis
      using True less [OF k(1)] less [OF k(2)] l
      by (subst invalidate_loop.simps) (simp add: Let_def split: option.splits)
  qed
qed

text \<open>
  C23: invalidating a range always ends, with result 0, for every range whose end leaves room for one
  large page below the top of the address space.
\<close>

theorem ept_range_invalidate_returns:
  assumes "unat stop + 0x200000 < 2 ^ 64"
  shows "\<exists>s'. ept_mmu_notifier_invalidate_range_start K start stop s = Some (0, s')"
  using invalidate_loop_total [OF assms, of K start False 0 0 s]
  by (auto simp: ept_mmu_notifier_invalidate_range_start_def)

theorem ept_range_invalidate_returns_witness:
  "\<exists>s'. ept_mmu_notifier_invalidate_range_start example_kernel 0x400000 0x7f0000000000 example_ept2 = Some (0, s')"
  using ept_range_invalidate_returns [of "0x7f0000000000" example_kernel "0x400000" example_ept2] by simp

end
