(* ===== verification/Fast_Cow.thy ===== *)
theory Fast_Cow
  imports Vm Address_Map Apic
begin

text \<open>
  Copy-on-write duplication of page tables in \<open>libdune/fast_spawn.c\<close>: the canonical form of a walked
  address, the regions that stay shared, the callbacks that copy a table into one or two new ones or
  write-protect it in place, and the clones built from them.
\<close>

unbundle bit_operations_syntax

section \<open>Addresses and regions\<close>

definition is_canonical_virtual_address :: "u64 \<Rightarrow> bool" where
  "is_canonical_virtual_address addr \<longleftrightarrow> addr < 0x800000000000 \<or> addr \<ge> 0xffff800000000000"

definition canonical_virtual_address :: "u64 \<Rightarrow> u64" where
  "canonical_virtual_address addr = (if addr < 0x800000000000 then addr else addr OR 0xffff000000000000)"

text \<open>
  The sizes behind the addresses of the message area: a ring is two padded counters and four
  messages of 24 bytes; a core has 128 rings and an int, padded to 8 bytes; there are 128 cores.
\<close>

definition ring_bytes :: u64 where [consts_def]: "ring_bytes = 64 + 64 + 4 * 24"
definition percpu_ring_bytes :: u64 where [consts_def]: "percpu_ring_bytes = 128 * ring_bytes + 8"

definition ROUND_UP :: "u64 \<Rightarrow> u64 \<Rightarrow> u64" where
  "ROUND_UP n s = ((n + s - 1) div s) * s"

definition IPI_ADDR_RING_BASE :: u64 where [consts_def]: "IPI_ADDR_RING_BASE = 0xffff800000000000"
definition IPI_ADDR_RING_END :: u64 where
  [consts_def]: "IPI_ADDR_RING_END = ROUND_UP (IPI_ADDR_RING_BASE + percpu_ring_bytes * 128) PGSIZE"
definition IPI_ADDR_WORKING_MEM_BASE :: u64 where [consts_def]: "IPI_ADDR_WORKING_MEM_BASE = IPI_ADDR_RING_END"
definition IPI_ADDR_WORKING_MEM_END :: u64 where
  [consts_def]: "IPI_ADDR_WORKING_MEM_END = IPI_ADDR_WORKING_MEM_BASE + 128 * PGSIZE"
definition IPI_ADDR_SHARED_STATE_BASE :: u64 where [consts_def]: "IPI_ADDR_SHARED_STATE_BASE = IPI_ADDR_WORKING_MEM_END"
definition IPI_ADDR_SHARED_STATE_END :: u64 where
  [consts_def]: "IPI_ADDR_SHARED_STATE_END = IPI_ADDR_SHARED_STATE_BASE + PGSIZE * 10"

text \<open>Whether the feature is switched on, and where the allocator keeps its own bookkeeping.\<close>

record pmem =
  dbos_fast_spawn_enabled :: bool
  pmem_alloc_begin :: u64
  pmem_alloc_end :: u64

definition pool_window :: "u64 \<Rightarrow> bool" where
  "pool_window can_va \<longleftrightarrow> can_va \<ge> PAGEBASE \<and> can_va < PAGEBASE_END"

definition shared_window :: "pmem \<Rightarrow> u64 \<Rightarrow> bool" where
  "shared_window pm can_va \<longleftrightarrow>
     can_va \<ge> IPI_ADDR_RING_BASE \<and> can_va < IPI_ADDR_SHARED_STATE_END \<or>
     can_va \<ge> APIC_BASE \<or>
     can_va \<ge> POSTED_INTR_DESCS_BASE \<and> can_va < POSTED_INTR_DESCS_BASE + 104 * PGSIZE \<or>
     can_va \<ge> pmem_alloc_begin pm \<and> can_va < pmem_alloc_end pm"

section \<open>Entries\<close>

definition cow_candidate :: "u64 \<Rightarrow> bool" where
  "cow_candidate e \<longleftrightarrow> tst e PTE_W \<and> tst e PTE_P \<and> \<not> tst e PTE_STACK \<and> \<not> tst e PTE_COW \<and> \<not> tst e PTE_NOCOW"

definition cow_protect :: "u64 \<Rightarrow> u64" where
  "cow_protect e = ((e AND NOT PTE_W) OR PTE_COW) AND NOT PTE_LOCK"

definition cow_pte :: "u64 \<Rightarrow> u64" where
  "cow_pte e = (if cow_candidate e then cow_protect e else e AND NOT PTE_LOCK)"

text \<open>One more reference to the page behind an entry, when it belongs to the pool.\<close>

definition get_if_pool :: "nat \<Rightarrow> u64 \<Rightarrow> dune \<Rightarrow> dune option" where
  "get_if_pool pg pa s = (
     if dune_page_isfrompool pa (pool s) then do {
       p \<leftarrow> dune_page_get pg (pool s);
       Some (s\<lparr>pool := p\<rparr>)
     } else Some s)"

section \<open>Copying into two tables\<close>

text \<open>The identity map of the pool is duplicated with its page size; the result is a return value and the state.\<close>

definition copy_pool_entry :: "u64 \<Rightarrow> u64 \<Rightarrow> nat \<Rightarrow> u32 \<Rightarrow> u64 \<Rightarrow> nat \<Rightarrow> dune \<Rightarrow> (int \<times> dune) option" where
  "copy_pool_entry newRoot pte pg prm can_va level s = do {
     sz \<leftarrow> pgsize level;
     let e = mem s pte;
     (ret, s) \<leftarrow> dune_vm_map_phys_with_pte_flags newRoot can_va sz (PTE_ADDR e) (PTE_FLAGS e) prm s;
     if ret < 0 then Some (ret, s)
     else do { s \<leftarrow> get_if_pool pg (PTE_ADDR (mem s pte)) s; Some (0, s) }
   }"

definition copy_shared_entry :: "u64 \<Rightarrow> u64 \<Rightarrow> nat \<Rightarrow> u64 \<Rightarrow> dune \<Rightarrow> (int \<times> dune) option" where
  "copy_shared_entry newRoot pte pg can_va s = do {
     (ret, _, newPte, s) \<leftarrow> dune_vm_lookup newRoot can_va True s;
     if ret < 0 then Some (ret, s)
     else do {
       newPte \<leftarrow> newPte;
       let s = wr newPte (mem s pte AND NOT PTE_A AND NOT PTE_LOCK) s;
       s \<leftarrow> get_if_pool pg (PTE_ADDR (mem s pte)) s;
       Some (0, s)
     }
   }"

definition pgtable_cow_copy :: "pmem \<Rightarrow> (u64 \<times> u64) page_walk_cb" where
  "pgtable_cow_copy pm pte va level ws = (
     let (args, s) = ws;
         (newRoot1, newRoot2) = args;
         can_va = canonical_virtual_address va;
         pg = dune_pa2page (PTE_ADDR (mem s pte));
         prm = pteflags_to_perm (PTE_FLAGS (mem s pte)) (int level)
     in if \<not> dbos_fast_spawn_enabled pm then None
        else if pool_window can_va then do {
          (ret, s) \<leftarrow> copy_pool_entry newRoot1 pte pg prm can_va level s;
          if ret < 0 then Some (ret, args, s)
          else do {
            (ret, s) \<leftarrow> copy_pool_entry newRoot2 pte pg prm can_va level s;
            Some (ret, args, s)
          }
        }
        else if shared_window pm can_va then do {
          ensure (level = 0);
          (ret, s) \<leftarrow> copy_shared_entry newRoot1 pte pg can_va s;
          if ret < 0 then Some (ret, args, s)
          else do {
            (ret, s) \<leftarrow> copy_shared_entry newRoot2 pte pg can_va s;
            Some (ret, args, s)
          }
        }
        else do {
          ensure (level = 0);
          (ret, _, newPte1, s) \<leftarrow> dune_vm_lookup newRoot1 can_va True s;
          if ret < 0 then Some (ret, args, s)
          else do {
            (ret, _, newPte2, s) \<leftarrow> dune_vm_lookup newRoot2 can_va True s;
            if ret < 0 then Some (ret, args, s)
            else do {
              newPte1 \<leftarrow> newPte1;
              newPte2 \<leftarrow> newPte2;
              let cow = cow_candidate (mem s pte);
              let s = wr newPte1 (cow_pte (mem s pte)) s;
              let e = mem s pte;
              let s = wr newPte2
                (if cow then ((e AND NOT PTE_W) OR PTE_COW) AND NOT PTE_A AND NOT PTE_LOCK
                 else e AND NOT PTE_A AND NOT PTE_LOCK) s;
              s \<leftarrow> get_if_pool pg (PTE_ADDR (mem s pte)) s;
              s \<leftarrow> get_if_pool pg (PTE_ADDR (mem s pte)) s;
              Some (0, args, s)
            }
          }
        })"

definition dune_vm_my_clone :: "u64 \<Rightarrow> (u64 \<times> u64) page_walk_cb \<Rightarrow> dune \<Rightarrow> ((u64 \<times> u64) \<times> dune) option" where
  "dune_vm_my_clone root cb s = do {
     (root1, s) \<leftarrow> new_root s;
     (root2, s) \<leftarrow> new_root s;
     (ret, _, s) \<leftarrow> dune_vm_page_walk root VA_START VA_END cb ((root1, root2), s);
     if ret < 0 then do {
       s \<leftarrow> dune_vm_free root1 s;
       s \<leftarrow> dune_vm_free root2 s;
       Some ((root1, root2), s)
     } else Some ((root1, root2), s)
   }"

section \<open>Copying into one table\<close>

text \<open>
  \<open>struct fast_clone_args\<close> lies at an address: the new root in its first cell, and the two int
  counters in the halves of the second. The callback takes the address itself for the new root.
\<close>

definition args_newRoot_cell :: "u64 \<Rightarrow> u64" where "args_newRoot_cell args = args"
definition args_counts_cell :: "u64 \<Rightarrow> u64" where "args_counts_cell args = args + 8"

definition add_pages_copied :: "u64 \<Rightarrow> u64" where
  "add_pages_copied c = (c AND NOT 0xffffffff) OR ucast ((ucast c :: u32) + 1)"

definition add_batch_copied :: "u64 \<Rightarrow> u64" where
  "add_batch_copied c = push_bit 32 (drop_bit 32 c + 512) OR (c AND 0xffffffff)"

definition pgtable_cow_copy_one :: "pmem \<Rightarrow> u64 page_walk_cb" where
  "pgtable_cow_copy_one pm pte va level ws = (
     let (arg, s) = ws;
         newRoot1 = arg;
         can_va = canonical_virtual_address va;
         pg = dune_pa2page (PTE_ADDR (mem s pte));
         prm = pteflags_to_perm (PTE_FLAGS (mem s pte)) (int level);
         counted = (\<lambda>s. wr (args_counts_cell arg) (add_pages_copied (mem s (args_counts_cell arg))) s)
     in if \<not> dbos_fast_spawn_enabled pm then None
        else if pool_window can_va then do {
          (ret, s) \<leftarrow> copy_pool_entry newRoot1 pte pg prm can_va level s;
          Some (if ret < 0 then (ret, arg, s) else (0, arg, counted s))
        }
        else if shared_window pm can_va then do {
          ensure (level = 0);
          (ret, s) \<leftarrow> copy_shared_entry newRoot1 pte pg can_va s;
          Some (if ret < 0 then (ret, arg, s) else (0, arg, counted s))
        }
        else do {
          ensure (level = 0);
          (ret, _, newPte1, s) \<leftarrow> dune_vm_lookup newRoot1 can_va True s;
          if ret < 0 then Some (ret, arg, s)
          else do {
            newPte1 \<leftarrow> newPte1;
            let s = wr newPte1 (cow_pte (mem s pte)) s;
            s \<leftarrow> get_if_pool pg (PTE_ADDR (mem s pte)) s;
            Some (0, arg, counted s)
          }
        })"

definition OVERLAPS_LR :: "u64 \<Rightarrow> u64 \<Rightarrow> u64 \<Rightarrow> u64 \<Rightarrow> bool" where
  "OVERLAPS_LR s1 e1 s2 e2 \<longleftrightarrow> s2 \<ge> s1 \<and> s2 < e1"

definition OVERLAPS :: "u64 \<Rightarrow> u64 \<Rightarrow> u64 \<Rightarrow> u64 \<Rightarrow> bool" where
  "OVERLAPS s1 e1 s2 e2 \<longleftrightarrow> OVERLAPS_LR s1 e1 s2 e2 \<or> OVERLAPS_LR s2 e2 s1 e1"

text \<open>
  The loops over the entries of a table that overlaps a shared region; the results of the callback are
  not looked at. The loops over addresses run from \<open>start\<close> to \<open>stop\<close> in steps of a page.
\<close>

primrec copy_entries :: "pmem \<Rightarrow> u64 \<Rightarrow> u64 \<Rightarrow> nat list \<Rightarrow> u64 \<times> dune \<Rightarrow> (u64 \<times> dune) option" where
  "copy_entries pm dir start [] ws = Some ws"
| "copy_entries pm dir start (i # is) ws = do {
     (_, ws) \<leftarrow> pgtable_cow_copy_one pm (ent dir i) (start + of_nat i * PGSIZE) 0 ws;
     copy_entries pm dir start is ws
   }"

definition page_steps :: "u64 \<Rightarrow> u64 \<Rightarrow> nat list" where
  "page_steps start stop = [0 ..< (if start < stop then (unat (stop - start) + 4095) div 4096 else 0)]"

primrec cow_entries :: "u64 \<Rightarrow> u64 \<Rightarrow> nat list \<Rightarrow> memory \<Rightarrow> memory" where
  "cow_entries newDir dir [] m = m"
| "cow_entries newDir dir (i # is) m = cow_entries newDir dir is (m(ent newDir i := cow_pte (m (ent dir i))))"

definition spawn_clone_last_level_page_helper :: "pmem \<Rightarrow> u64 page_walk_cb" where
  "spawn_clone_last_level_page_helper pm dir start_va level ws = (
     let (arg, s) = ws;
         end_va = start_va + PGSIZE * 512;
         can_va_start = canonical_virtual_address start_va;
         can_va_end = canonical_virtual_address end_va
     in do {
       ensure (level = 0);
       ensure (\<not> OVERLAPS can_va_start can_va_end APIC_BASE (APIC_BASE + 4095));
       ensure (\<not> OVERLAPS can_va_start can_va_end PAGEBASE PAGEBASE_END);
       ws \<leftarrow> (if OVERLAPS can_va_start can_va_end POSTED_INTR_DESCS_BASE (POSTED_INTR_DESCS_BASE + 104 * PGSIZE) then
           copy_entries pm dir POSTED_INTR_DESCS_BASE [0 ..< 104] (arg, s)
         else if OVERLAPS can_va_start can_va_end (pmem_alloc_begin pm) (pmem_alloc_end pm) then
           copy_entries pm dir can_va_start (page_steps can_va_start (min (pmem_alloc_end pm) can_va_end)) (arg, s)
         else if OVERLAPS can_va_start can_va_end IPI_ADDR_RING_BASE IPI_ADDR_SHARED_STATE_END then
           copy_entries pm dir can_va_start (page_steps can_va_start IPI_ADDR_SHARED_STATE_END) (arg, s)
         else do {
           (ret, _, newDir, s) \<leftarrow> dune_vm_lookup2 arg can_va_start True False s;
           newDir \<leftarrow> newDir;
           let s = s\<lparr>mem := cow_entries newDir dir [0 ..< 512] (mem s)\<rparr>;
           Some (arg, wr (args_counts_cell arg) (add_batch_copied (mem s (args_counts_cell arg))) s)
         });
       Some (0, ws)
     })"

definition dune_vm_my_fast_clone :: "pmem \<Rightarrow> u64 \<Rightarrow> u64 \<Rightarrow> dune \<Rightarrow> (u64 \<times> dune) option" where
  "dune_vm_my_fast_clone pm args root s = do {
     (newRoot, s) \<leftarrow> new_root s;
     let s = wr (args_counts_cell args) 0 (wr (args_newRoot_cell args) newRoot s);
     (ret, _, s) \<leftarrow> page_walk_batch (pgtable_cow_copy_one pm) (spawn_clone_last_level_page_helper pm)
        CREATE_NONE 3 root VA_START VA_END (args, s);
     if ret < 0 then do { s \<leftarrow> dune_vm_free newRoot s; Some (0, s) }
     else Some (newRoot, s)
   }"

section \<open>Write-protecting in place\<close>

definition set_cow_pte :: "pmem \<Rightarrow> u64 \<Rightarrow> u64 \<Rightarrow> u64" where
  "set_cow_pte pm va e = (
     let can_va = canonical_virtual_address va
     in if pool_window can_va then e
        else if shared_window pm can_va then e
        else if cow_candidate e then cow_protect e
        else e)"

definition pgtable_set_cow :: "pmem \<Rightarrow> unit page_walk_cb" where
  "pgtable_set_cow pm pte va level ws = (
     let (arg, s) = ws in Some (0, arg, wr pte (set_cow_pte pm va (mem s pte)) s))"

definition example_pmem :: pmem where
  "example_pmem = \<lparr>dbos_fast_spawn_enabled = True, pmem_alloc_begin = 0x7f0000000000, pmem_alloc_end = 0x7f0002000000\<rparr>"

section \<open>Lemmas\<close>

lemmas cow_bits = cow_candidate_def cow_protect_def cow_pte_def set_cow_pte_def Let_def pte_bits

lemma cow_protect_keeps:
  "PTE_ADDR (cow_protect e) = PTE_ADDR e" "pte_present (cow_protect e) = pte_present e" "pte_big (cow_protect e) = pte_big e"
  "\<not> tst (cow_protect e) PTE_W" "tst (cow_protect e) PTE_COW"
  by (auto simp: cow_bits pte_present_bit pte_big_bit intro!: bit_word_eqI)

lemma cow_pte_keeps:
  "PTE_ADDR (cow_pte e) = PTE_ADDR e" "pte_present (cow_pte e) = pte_present e" "pte_big (cow_pte e) = pte_big e"
  using cow_protect_keeps [of e] by (auto simp: cow_bits pte_present_bit pte_big_bit intro!: bit_word_eqI)

lemma set_cow_keeps:
  "PTE_ADDR (set_cow_pte pm va e) = PTE_ADDR e" "pte_present (set_cow_pte pm va e) = pte_present e"
  "pte_big (set_cow_pte pm va e) = pte_big e"
  using cow_protect_keeps [of e] by (simp_all add: set_cow_pte_def Let_def)

interpretation set_cow_cb: leaf_callback "pgtable_set_cow pm" "\<lambda>_. True" UNIV "\<lambda>l va e v. v = set_cow_pte pm va e" for pm
  by unfold_locales (auto simp: pgtable_set_cow_def wr_def is_leaf_def set_cow_keeps)

lemma whole_range: "vpn VA_START = 0" "vpn VA_END = 0xfffffffff" "hi16 VA_START = 0"
  by (simp_all add: vpn_def hi16_def consts_def unsigned_minus_1_eq_mask mask_eq_exp_minus_1)

lemma covered_all: "n < 0x1000000000 \<Longrightarrow> covered 0 0xfffffffff l n"
  using div_le_mono [of n "0xfffffffff" "512 ^ l"] by (simp add: covered_def)

lemma set_cow_walk:
  assumes "vm_ok T root s"
  shows "\<exists>s' T'. dune_vm_page_walk root VA_START VA_END (pgtable_set_cow pm) ((), s) = Some (0, (), s') \<and> vm_ok T' root s' \<and>
    (\<forall>n < 0x1000000000. pview (mem s') root n = (let (l, e) = pview (mem s) root n in
       (l, set_cow_pte pm (va_of 0 (n div 512 ^ l * 512 ^ l)) e)))"
proof -
  let ?w = "page_walk (pgtable_set_cow pm) CREATE_NONE 3 root VA_START VA_END ((), s)"
  let ?R = "\<lambda>(l::nat) va e v. v = set_cow_pte pm va e"
  have "walked (\<lambda>_. True) ?R CREATE_NONE 0 root 0 0xfffffffff s ?w T"
    using set_cow_cb.page_walk_effect [where sva = VA_START and eva = VA_END, OF _ assms, unfolded whole_range]
    by (simp add: levels_in_def)
  then obtain ret s1 T1 where w: "?w = Some (ret, (), s1)" "vm_ok T1 root s1"
      "effect ?R CREATE_NONE 0 root 0 0xfffffffff ret (mem s) (mem s1)"
    unfolding walked_def by auto
  have ret: "ret \<in> {0}"
    by (rule page_walk_ret [OF _ _ _ w(1)]) (auto simp: pgtable_set_cow_def)
  have "pview (mem s1) root n = (let (l, e) = pview (mem s) root n in (l, set_cow_pte pm (va_of 0 (n div 512 ^ l * 512 ^ l)) e))"
    if n: "n < 0x1000000000" for n
  proof -
    have z: "set_cow_pte pm va 0 = 0" for va by (simp add: set_cow_pte_def cow_candidate_def Let_def)
    show ?thesis
      using effect_cov [OF w(3) n covered_all [OF n]] ret
      by (auto simp: leaf_post_def visited_def consts_def prod_eq_iff z split: if_splits prod.splits)
  qed
  then show ?thesis using w ret by (auto simp: dune_vm_page_walk_def dune_vm_page_walk_at_def NPTLVLS_def)
qed

section \<open>Properties\<close>



text \<open>
  C25: the copy-on-write form of an entry keeps the physical address and what the walk reads of the
  entry, is never a candidate again, and is writable only for the entries that are exempt.
\<close>

theorem cow_pte_stable:
  "PTE_ADDR (cow_pte e) = PTE_ADDR e \<and> pte_present (cow_pte e) = pte_present e \<and> pte_big (cow_pte e) = pte_big e \<and>
   cow_pte (cow_pte e) = cow_pte e \<and> \<not> tst (cow_pte e) PTE_LOCK \<and>
   (tst (cow_pte e) PTE_W \<and> pte_present e \<longrightarrow> tst e PTE_STACK \<or> tst e PTE_COW \<or> tst e PTE_NOCOW)"
proof -
  have "cow_pte (cow_pte e) = cow_pte e"
    by (rule bit_word_eqI) (auto simp: cow_bits)
  then show ?thesis using cow_pte_keeps [of e] by (auto simp: cow_bits pte_present_bit)
qed

theorem cow_pte_stable_witness:
  "tst (cow_pte 0x5403) PTE_W \<and> pte_present 0x5403 \<and>
   (tst 0x5403 PTE_STACK \<or> tst 0x5403 PTE_COW \<or> tst 0x5403 PTE_NOCOW)"
  using cow_pte_stable [of "0x5403"]
  by (simp add: cow_pte_def cow_candidate_def tst_def consts_def pte_present_def PTE_FLAGS_def)


end
