(* ===== verification/Procmap.thy ===== *)
theory Procmap
  imports Dune_Prelude
begin

text \<open>
  The reader of the process map, \<open>libdune/procmap.c\<close>. The file is a string; a line is what
  \<open>fgets\<close> puts into the 512-byte buffer, and \<open>sscanf\<close> is an interpreter of
  the conversions its format has. The local variables keep their values when a conversion fails, so they are threaded
  from line to line. The value \<^const>\<open>None\<close> is the \<open>abort\<close> when the file cannot be opened or
  a path that does not fit its 256-byte buffer.
\<close>

unbundle bit_operations_syntax

section \<open>Entries and their types\<close>

definition PROCMAP_TYPE_UNKNOWN :: int where [consts_def]: "PROCMAP_TYPE_UNKNOWN = 0x00"
definition PROCMAP_TYPE_FILE :: int where [consts_def]: "PROCMAP_TYPE_FILE = 0x01"
definition PROCMAP_TYPE_ANONYMOUS :: int where [consts_def]: "PROCMAP_TYPE_ANONYMOUS = 0x02"
definition PROCMAP_TYPE_HEAP :: int where [consts_def]: "PROCMAP_TYPE_HEAP = 0x03"
definition PROCMAP_TYPE_STACK :: int where [consts_def]: "PROCMAP_TYPE_STACK = 0x04"
definition PROCMAP_TYPE_VSYSCALL :: int where [consts_def]: "PROCMAP_TYPE_VSYSCALL = 0x05"
definition PROCMAP_TYPE_VDSO :: int where [consts_def]: "PROCMAP_TYPE_VDSO = 0x06"
definition PROCMAP_TYPE_VVAR :: int where [consts_def]: "PROCMAP_TYPE_VVAR = 0x07"

record dune_procmap_entry =
  pm_begin :: u64
  pm_end :: u64
  pm_offset :: u64
  pm_r :: bool
  pm_w :: bool
  pm_x :: bool
  pm_p :: bool
  pm_path :: string
  pm_type :: int

definition get_type :: "string \<Rightarrow> int" where
  "get_type path = (
     if path \<noteq> [] \<and> hd path \<noteq> CHR ''['' then PROCMAP_TYPE_FILE
     else if path = [] then PROCMAP_TYPE_ANONYMOUS
     else if path = ''[heap]'' then PROCMAP_TYPE_HEAP
     else if take 6 path = ''[stack'' then PROCMAP_TYPE_STACK
     else if path = ''[vsyscall]'' then PROCMAP_TYPE_VSYSCALL
     else if path = ''[vdso]'' then PROCMAP_TYPE_VDSO
     else if path = ''[vvar]'' then PROCMAP_TYPE_VVAR
     else PROCMAP_TYPE_UNKNOWN)"

section \<open>The conversions of \<open>sscanf\<close>\<close>

definition isspace :: "char \<Rightarrow> bool" where
  "isspace c \<longleftrightarrow> of_char c = (32 :: nat) \<or> 9 \<le> (of_char c :: nat) \<and> of_char c \<le> (13 :: nat)"

definition digit_val :: "char \<Rightarrow> nat option" where
  "digit_val c = (
     let n = of_char c :: nat
     in if 48 \<le> n \<and> n \<le> 57 then Some (n - 48)
        else if 97 \<le> n \<and> n \<le> 102 then Some (n - 87)
        else if 65 \<le> n \<and> n \<le> 70 then Some (n - 55)
        else None)"

definition is_digit :: "nat \<Rightarrow> char \<Rightarrow> bool" where
  "is_digit base c \<longleftrightarrow> (case digit_val c of None \<Rightarrow> False | Some d \<Rightarrow> d < base)"

definition digits_val :: "nat \<Rightarrow> string \<Rightarrow> nat" where
  "digits_val base ds = foldl (\<lambda>a c. base * a + the (digit_val c)) 0 ds"

text \<open>The sign and the \<open>0x\<close> prefix of a number, and the number with the rest of the input.\<close>

definition scan_sign :: "string \<Rightarrow> bool \<times> string" where
  "scan_sign s = (case s of c # r \<Rightarrow> if c = CHR ''-'' then (True, r) else if c = CHR ''+'' then (False, r) else (False, s)
                  | [] \<Rightarrow> (False, s))"

definition skip_0x :: "nat \<Rightarrow> string \<Rightarrow> string" where
  "skip_0x base s = (if base = 16 \<and> (take 2 s = ''0x'' \<or> take 2 s = ''0X'') then drop 2 s else s)"

definition scan_number :: "nat \<Rightarrow> string \<Rightarrow> ((bool \<times> nat) \<times> string) option" where
  "scan_number base s = (
     let (neg, s) = scan_sign (dropWhile isspace s);
         s = skip_0x base s;
         ds = takeWhile (is_digit base) s
     in if ds = [] then None else Some ((neg, digits_val base ds), drop (length ds) s))"

text \<open>\<open>%lx\<close> saturates as \<open>strtoul\<close> does, and a minus sign negates.\<close>

definition to_ulong :: "bool \<times> nat \<Rightarrow> u64" where
  "to_ulong v = (if snd v \<ge> 2 ^ 64 then - 1 else if fst v then - of_nat (snd v) else of_nat (snd v))"

text \<open>\<open>%d\<close> saturates as \<open>strtol\<close> does and stores the low half.\<close>

definition to_int :: "bool \<times> nat \<Rightarrow> u32" where
  "to_int v = (if fst v then - of_nat (min (snd v) (2 ^ 63)) else of_nat (min (snd v) (2 ^ 63 - 1)))"

record scan_vars =
  e_begin :: u64
  e_end :: u64
  c_read :: char
  c_write :: char
  c_execute :: char
  c_private :: char
  e_offset :: u64
  dev1 :: u32
  dev2 :: u32
  inode :: u32
  path_buf :: string

datatype directive =
    Hex_Long "u64 \<Rightarrow> scan_vars \<Rightarrow> scan_vars"
  | Hex_Int "u32 \<Rightarrow> scan_vars \<Rightarrow> scan_vars"
  | Dec_Int "u32 \<Rightarrow> scan_vars \<Rightarrow> scan_vars"
  | One_Char "char \<Rightarrow> scan_vars \<Rightarrow> scan_vars"
  | Word_Str "string \<Rightarrow> scan_vars \<Rightarrow> scan_vars"
  | Literal char
  | White

text \<open>One directive: the rest of the input and the variables, or a matching failure.\<close>

fun scan_one :: "directive \<Rightarrow> string \<Rightarrow> scan_vars \<Rightarrow> (string \<times> scan_vars) option" where
  "scan_one (Hex_Long f) s v = map_option (\<lambda>(x, r). (r, f (to_ulong x) v)) (scan_number 16 s)"
| "scan_one (Hex_Int f) s v = map_option (\<lambda>(x, r). (r, f (ucast (to_ulong x)) v)) (scan_number 16 s)"
| "scan_one (Dec_Int f) s v = map_option (\<lambda>(x, r). (r, f (to_int x) v)) (scan_number 10 s)"
| "scan_one (One_Char f) s v = (case s of [] \<Rightarrow> None | c # r \<Rightarrow> Some (r, f c v))"
| "scan_one (Word_Str f) s v = (
     let s = dropWhile isspace s;
         w = takeWhile (Not \<circ> isspace) s
     in if w = [] then None else Some (drop (length w) s, f w v))"
| "scan_one (Literal c) s v = (case s of [] \<Rightarrow> None | d # r \<Rightarrow> if c = d then Some (r, v) else None)"
| "scan_one White s v = Some (dropWhile isspace s, v)"

primrec sscanf :: "directive list \<Rightarrow> string \<Rightarrow> scan_vars \<Rightarrow> scan_vars" where
  "sscanf [] s v = v"
| "sscanf (d # ds) s v = (case scan_one d s v of None \<Rightarrow> v | Some (s, v) \<Rightarrow> sscanf ds s v)"

text \<open>The format \<open>"%lx-%lx %c%c%c%c %lx %x:%x %d %s"\<close>.\<close>

definition maps_format :: "directive list" where
  "maps_format = [
     Hex_Long (\<lambda>x v. v\<lparr>e_begin := x\<rparr>), Literal CHR ''-'', Hex_Long (\<lambda>x v. v\<lparr>e_end := x\<rparr>), White,
     One_Char (\<lambda>x v. v\<lparr>c_read := x\<rparr>), One_Char (\<lambda>x v. v\<lparr>c_write := x\<rparr>),
     One_Char (\<lambda>x v. v\<lparr>c_execute := x\<rparr>), One_Char (\<lambda>x v. v\<lparr>c_private := x\<rparr>), White,
     Hex_Long (\<lambda>x v. v\<lparr>e_offset := x\<rparr>), White,
     Hex_Int (\<lambda>x v. v\<lparr>dev1 := x\<rparr>), Literal CHR '':'', Hex_Int (\<lambda>x v. v\<lparr>dev2 := x\<rparr>), White,
     Dec_Int (\<lambda>x v. v\<lparr>inode := x\<rparr>), White, Word_Str (\<lambda>x v. v\<lparr>path_buf := x\<rparr>)]"

section \<open>The iteration\<close>

definition fgets :: "nat \<Rightarrow> string \<Rightarrow> string \<times> string" where
  "fgets bufsize file = (
     let n = min (bufsize - 1) (Suc (length (takeWhile (\<lambda>c. c \<noteq> CHR 0x0A) file)))
     in (take n file, drop n file))"

function procmap_lines :: "string \<Rightarrow> string list" where
  "procmap_lines file = (
     if file = [] then [] else fst (fgets 512 file) # procmap_lines (snd (fgets 512 file)))"
  by pat_completeness auto
termination by (relation "measure length") (auto simp: fgets_def Let_def)

definition scan_line :: "string \<Rightarrow> scan_vars \<Rightarrow> scan_vars" where
  "scan_line line v = sscanf maps_format (takeWhile (\<lambda>c. c \<noteq> CHR 0x00) line) (v\<lparr>path_buf := []\<rparr>)"

definition procmap_entry :: "scan_vars \<Rightarrow> dune_procmap_entry" where
  "procmap_entry v = \<lparr>pm_begin = e_begin v, pm_end = e_end v, pm_offset = e_offset v,
     pm_r = (c_read v = CHR ''r''), pm_w = (c_write v = CHR ''w''),
     pm_x = (c_execute v = CHR ''x''), pm_p = (c_private v = CHR ''p''),
     pm_path = path_buf v, pm_type = get_type (path_buf v)\<rparr>"

primrec iterate_lines ::
    "(dune_procmap_entry \<Rightarrow> 's \<Rightarrow> 's option) \<Rightarrow> string list \<Rightarrow> scan_vars \<Rightarrow> 's \<Rightarrow> 's option" where
  "iterate_lines cb [] v s = Some s"
| "iterate_lines cb (l # ls) v s = do {
     let v = scan_line l v;
     ensure (length (path_buf v) < 256);
     s \<leftarrow> cb (procmap_entry v) s;
     iterate_lines cb ls v s
   }"

definition dune_procmap_iterate ::
    "string option \<Rightarrow> scan_vars \<Rightarrow> (dune_procmap_entry \<Rightarrow> 's \<Rightarrow> 's option) \<Rightarrow> 's \<Rightarrow> 's option" where
  "dune_procmap_iterate map_file locals cb s = do {
     file \<leftarrow> map_file;
     iterate_lines cb (procmap_lines file) locals s
   }"

definition dune_procmap_iterate2 ::
    "string option \<Rightarrow> scan_vars \<Rightarrow> (dune_procmap_entry \<Rightarrow> 'a \<Rightarrow> 's \<Rightarrow> 's option) \<Rightarrow> 'a \<Rightarrow> 's \<Rightarrow> 's option" where
  "dune_procmap_iterate2 map_file locals cb arg s = do {
     file \<leftarrow> map_file;
     iterate_lines (\<lambda>e. cb e arg) (procmap_lines file) locals s
   }"

section \<open>Printing\<close>

definition digit_char :: "nat \<Rightarrow> char" where
  "digit_char d = char_of (if d < 10 then 48 + d else 87 + d)"

fun digits_of :: "nat \<Rightarrow> nat \<Rightarrow> string" where
  "digits_of base n = (
     if base < 2 \<or> n < base then [digit_char n]
     else digits_of base (n div base) @ [digit_char (n mod base)])"

definition padded :: "nat \<Rightarrow> string \<Rightarrow> string" where
  "padded k s = replicate (k - length s) CHR ''0'' @ s"

definition fmt_x :: "nat \<Rightarrow> u64 \<Rightarrow> string" where
  "fmt_x width x = padded width (digits_of 16 (unat x))"

definition dune_procmap_dump_helper :: "dune_procmap_entry \<Rightarrow> string \<Rightarrow> string option" where
  "dune_procmap_dump_helper e out = Some (out @
     ''0x'' @ fmt_x 16 (pm_begin e) @ ''-0x'' @ fmt_x 16 (pm_end e) @ '' '' @
     [if pm_r e then CHR ''R'' else CHR ''-'', if pm_w e then CHR ''W'' else CHR ''-'',
      if pm_x e then CHR ''X'' else CHR ''-'', if pm_p e then CHR ''P'' else CHR ''S''] @ '' '' @
     fmt_x 8 (pm_offset e) @ '' '' @ pm_path e @ '' '' @
     digits_of 10 (unat ((pm_end e - pm_begin e) div 1024)) @ '' KiB'' @ [CHR 0x0A])"

definition dune_procmap_dump :: "string option \<Rightarrow> scan_vars \<Rightarrow> string \<Rightarrow> string option" where
  "dune_procmap_dump map_file locals out =
     dune_procmap_iterate map_file locals dune_procmap_dump_helper (out @ ''--- Process Map Dump ---'' @ [CHR 0x0A])"

section \<open>The format of the file\<close>

text \<open>
  A line of the file as the comment at the head of procmap.c describes it: device and inode
  numbers and the padding before the path are not kept by the reader.
\<close>

record maps_extra =
  x_dev1 :: u32
  x_dev2 :: u32
  x_inode :: u64
  x_pad :: nat

definition maps_line :: "maps_extra \<times> dune_procmap_entry \<Rightarrow> string" where
  "maps_line xe = (case xe of (x, e) \<Rightarrow>
     fmt_x 8 (pm_begin e) @ ''-'' @ fmt_x 8 (pm_end e) @ '' '' @
     [if pm_r e then CHR ''r'' else CHR ''-'', if pm_w e then CHR ''w'' else CHR ''-'',
      if pm_x e then CHR ''x'' else CHR ''-'', if pm_p e then CHR ''p'' else CHR ''s''] @ '' '' @
     fmt_x 8 (pm_offset e) @ '' '' @ fmt_x 2 (ucast (x_dev1 x)) @ '':'' @ fmt_x 2 (ucast (x_dev2 x)) @ '' '' @
     digits_of 10 (unat (x_inode x)) @ replicate (Suc (x_pad x)) CHR '' '' @ pm_path e @ [CHR 0x0A])"

definition path_ok :: "string \<Rightarrow> bool" where
  "path_ok p \<longleftrightarrow> length p < 256 \<and> (\<forall>c \<in> set p. \<not> isspace c \<and> c \<noteq> CHR 0x00)"

definition entry_ok :: "maps_extra \<times> dune_procmap_entry \<Rightarrow> bool" where
  "entry_ok xe \<longleftrightarrow> path_ok (pm_path (snd xe)) \<and> pm_type (snd xe) = get_type (pm_path (snd xe)) \<and> x_pad (fst xe) \<le> 73"

primrec iterate_entries :: "(dune_procmap_entry \<Rightarrow> 's \<Rightarrow> 's option) \<Rightarrow> dune_procmap_entry list \<Rightarrow> 's \<Rightarrow> 's option" where
  "iterate_entries cb [] s = Some s"
| "iterate_entries cb (e # es) s = do { s \<leftarrow> cb e s; iterate_entries cb es s }"

text \<open>A string of digits followed by something else scans to its value.\<close>

definition digit_string :: "nat \<Rightarrow> string \<Rightarrow> bool" where
  "digit_string base ds \<longleftrightarrow> ds \<noteq> [] \<and> (\<forall>c \<in> set ds. is_digit base c)"

definition stops :: "nat \<Rightarrow> string \<Rightarrow> bool" where
  "stops base r \<longleftrightarrow> r \<noteq> [] \<and> \<not> is_digit base (hd r) \<and> hd r \<noteq> CHR ''x'' \<and> hd r \<noteq> CHR ''X''"

definition example_locals :: scan_vars where
  "example_locals = \<lparr>e_begin = 0, e_end = 0, c_read = CHR ''-'', c_write = CHR ''-'', c_execute = CHR ''-'', c_private = CHR ''-'',
     e_offset = 0, dev1 = 0, dev2 = 0, inode = 0, path_buf = []\<rparr>"

definition example_entry :: dune_procmap_entry where
  "example_entry = \<lparr>pm_begin = 0x400000, pm_end = 0x40b000, pm_offset = 0, pm_r = True, pm_w = False, pm_x = True, pm_p = True,
     pm_path = ''/bin/cat'', pm_type = PROCMAP_TYPE_FILE\<rparr>"

definition example_extra :: maps_extra where
  "example_extra = \<lparr>x_dev1 = 0xfe, x_dev2 = 0, x_inode = 917797, x_pad = 28\<rparr>"

section \<open>Scanning what was printed\<close>

declare digits_of.simps [simp del] procmap_lines.simps [simp del]

lemma digit_val_char [simp]: "d < 16 \<Longrightarrow> digit_val (digit_char d) = Some d"
  by (auto simp: digit_val_def digit_char_def Let_def)

lemma is_digit_space: "is_digit base c \<Longrightarrow> \<not> isspace c"
  by (auto simp: is_digit_def digit_val_def isspace_def Let_def split: if_splits option.splits)

lemma is_digit_char: "d < base \<Longrightarrow> base \<le> 16 \<Longrightarrow> is_digit base (digit_char d)"
  by (simp add: is_digit_def)

lemma is_digit_0 [simp]: "0 < base \<Longrightarrow> is_digit base CHR ''0''"
  by (simp add: is_digit_def digit_val_def)

lemma digits_all: "2 \<le> base \<Longrightarrow> base \<le> 16 \<Longrightarrow> c \<in> set (digits_of base n) \<Longrightarrow> is_digit base c"
proof (induction base n rule: digits_of.induct)
  case (1 base n)
  then show ?case
    by (cases "n < base") (auto simp: digits_of.simps [of base n] is_digit_char)
qed

lemma digits_ne [simp]: "digits_of base n \<noteq> []"
  by (simp add: digits_of.simps [of base n])

lemma digits_val_snoc: "digits_val base (ds @ [c]) = base * digits_val base ds + the (digit_val c)"
  by (simp add: digits_val_def)

lemma digits_val_of [simp]: "2 \<le> base \<Longrightarrow> base \<le> 16 \<Longrightarrow> digits_val base (digits_of base n) = n"
proof (induction base n rule: digits_of.induct)
  case (1 base n)
  show ?case
  proof (cases "n < base")
    case True
    then show ?thesis using 1 by (simp add: digits_of.simps [of base n] digits_val_def)
  next
    case False
    then have "digits_val base (digits_of base (n div base)) = n div base" using 1 by simp
    moreover have "n mod base < 16" using 1(2,3) mod_less_divisor [of base n] by linarith
    ultimately show ?thesis using False 1(2) by (simp add: digits_of.simps [of base n] digits_val_snoc)
  qed
qed

lemma digits_val_padded [simp]: "digits_val base (padded k ds) = digits_val base ds"
proof -
  have "foldl (\<lambda>a c. base * a + the (digit_val c)) 0 (replicate n CHR ''0'' @ ds) =
      foldl (\<lambda>a c. base * a + the (digit_val c)) 0 ds" for n
    by (induction n) (simp_all add: digit_val_def)
  then show ?thesis by (simp add: padded_def digits_val_def)
qed

lemma digit_string_of: "2 \<le> base \<Longrightarrow> base \<le> 16 \<Longrightarrow> digit_string base (digits_of base n)"
  using digits_all by (auto simp: digit_string_def)

lemma digit_string_padded: "0 < base \<Longrightarrow> digit_string base ds \<Longrightarrow> digit_string base (padded k ds)"
  by (auto simp: digit_string_def padded_def)

lemma scan_number_digits:
  assumes "digit_string base ds" "stops base r"
  shows "scan_number base (ds @ r) = Some ((False, digits_val base ds), r)"
proof -
  obtain c ds' where c: "ds = c # ds'" "is_digit base c" using assms(1) by (cases ds) (auto simp: digit_string_def)
  have all: "\<forall>c \<in> set ds. is_digit base c" using assms(1) by (simp add: digit_string_def)
  have "\<not> isspace c" using is_digit_space c(2) by blast
  then have 1: "dropWhile isspace (ds @ r) = ds @ r" using c(1) by simp
  have "c \<noteq> CHR ''-'' \<and> c \<noteq> CHR ''+''" using c(2) by (auto simp: is_digit_def digit_val_def)
  then have 2: "scan_sign (ds @ r) = (False, ds @ r)" using c(1) by (simp add: scan_sign_def)
  have x: "\<not> is_digit base CHR ''x'' \<and> \<not> is_digit base CHR ''X''" by (simp add: is_digit_def digit_val_def)
  have "hd (ds' @ r) \<noteq> CHR ''x'' \<and> hd (ds' @ r) \<noteq> CHR ''X''"
    using all x assms(2) c(1) by (cases ds') (auto simp: stops_def)
  moreover have "ds' @ r \<noteq> []" using assms(2) by (simp add: stops_def)
  ultimately have 3: "skip_0x base (ds @ r) = ds @ r"
    using c(1) by (cases "ds' @ r") (auto simp: skip_0x_def)
  have 4: "takeWhile (is_digit base) (ds @ r) = ds"
    using all assms(2) by (cases r) (auto simp: takeWhile_append stops_def)
  show ?thesis unfolding scan_number_def 1 2 prod.case Let_def 3 4 using c(1) by simp
qed

lemma fmt_x_digits: "digit_string 16 (fmt_x k x)" "digits_val 16 (fmt_x k x) = unat x"
  unfolding fmt_x_def by (intro digit_string_padded digit_string_of) (simp_all)

lemma to_ulong_unat [simp]: "to_ulong (False, unat x) = x"
  using unat_less_exp [of x] by (simp add: to_ulong_def)

lemma stops_char: "stops 16 (CHR ''-'' # r)" "stops 16 (CHR '' '' # r)" "stops 16 (CHR '':'' # r)" "stops 10 (CHR '' '' # r)"
  by (simp_all add: stops_def is_digit_def digit_val_def)

lemma scan_hex_long [simp]: "stops 16 r \<Longrightarrow> scan_one (Hex_Long f) (fmt_x k x @ r) v = Some (r, f x v)"
  using scan_number_digits [OF fmt_x_digits(1), of r k x] by (simp add: fmt_x_digits(2))

lemma scan_hex_int [simp]: "stops 16 r \<Longrightarrow> scan_one (Hex_Int f) (fmt_x k (ucast x) @ r) v = Some (r, f x v)" for x :: u32
proof -
  assume "stops 16 r"
  moreover have "ucast (ucast x :: u64) = x" by (rule bit_word_eqI) (simp add: bit_simps)
  ultimately show ?thesis using scan_number_digits [OF fmt_x_digits(1), of r k "ucast x"]
    by (simp add: fmt_x_digits(2) del: unsigned_ucast_eq)
qed

lemma scan_dec_int [simp]:
  "stops 10 r \<Longrightarrow> scan_one (Dec_Int f) (digits_of 10 n @ r) v = Some (r, f (to_int (False, n)) v)"
  using scan_number_digits [OF digit_string_of, of 10 r n] by simp

declare scan_one.simps(1-3,5) [simp del]

lemma fmt_x_ne [simp]: "fmt_x k x \<noteq> []"
  using fmt_x_digits(1) [of k x] by (simp add: digit_string_def)

lemma dropWhile_fmt [simp]: "dropWhile isspace (fmt_x k x @ r) = fmt_x k x @ r"
  using fmt_x_digits(1) [of k x] is_digit_space by (cases "fmt_x k x") (auto simp: digit_string_def)

lemma dropWhile_digits [simp]: "dropWhile isspace (digits_of 10 n @ r) = digits_of 10 n @ r"
proof -
  have "c \<in> set (digits_of 10 n) \<Longrightarrow> \<not> isspace c" for c using digits_all [of 10 c n] is_digit_space by auto
  then show ?thesis by (cases "digits_of 10 n") auto
qed

lemma dropWhile_pad: "dropWhile isspace (replicate n CHR '' '' @ r) = dropWhile isspace r"
  by (induction n) (simp_all add: isspace_def)

lemma isspace_simps [simp]: "isspace CHR '' ''" "isspace CHR 0x0A" "\<not> isspace CHR ''-''" "\<not> isspace CHR ''r''" "\<not> isspace CHR 0x00"
  by (simp_all add: isspace_def)

lemma scan_path:
  assumes "path_ok p" "path_buf v = []"
  shows "(case scan_one (Word_Str (\<lambda>x v. v\<lparr>path_buf := x\<rparr>)) (dropWhile isspace (p @ [CHR 0x0A])) v of None \<Rightarrow> v | Some (s, v) \<Rightarrow> v) =
    v\<lparr>path_buf := p\<rparr>"
proof -
  have ns: "\<forall>c \<in> set p. \<not> isspace c" using assms(1) by (simp add: path_ok_def)
  have d: "dropWhile isspace (p @ [CHR 0x0A]) = (if p = [] then [] else p @ [CHR 0x0A])" using ns by (cases p) auto
  show ?thesis
  proof (cases "p = []")
    case True
    then show ?thesis using assms(2) by (simp add: scan_one.simps)
  next
    case False
    then have "dropWhile isspace (p @ [CHR 0x0A]) = p @ [CHR 0x0A]" using d by simp
    moreover have "takeWhile (Not \<circ> isspace) (p @ [CHR 0x0A]) = p" using ns by (simp add: takeWhile_append)
    ultimately show ?thesis using False by (simp add: Let_def scan_one.simps)
  qed
qed

lemma digit_10_16: "is_digit 10 c \<Longrightarrow> is_digit 16 c"
  by (auto simp: is_digit_def split: option.splits)

lemma fmt_x_all: "\<forall>c \<in> set (fmt_x k x). is_digit 16 c" "\<forall>c \<in> set (digits_of 10 n). is_digit 16 c"
  using fmt_x_digits(1) [of k x] digits_all [of 10 _ n] digit_10_16 by (auto simp: digit_string_def)

text \<open>What holds of the digits, the punctuation and the path holds of a whole line before its newline.\<close>

lemma maps_line_chars:
  assumes "\<And>c. is_digit 16 c \<Longrightarrow> P c" "\<forall>c \<in> set (pm_path e). P c" "\<forall>c \<in> set ''rwxps- :''. P c"
  shows "\<forall>c \<in> set (butlast (maps_line (x, e))). P c"
proof -
  have f: "\<forall>c \<in> set (fmt_x k y). P c" "\<forall>c \<in> set (digits_of 10 n). P c" for k y n
    using fmt_x_all assms(1) by blast+
  have "\<forall>c \<in> set (replicate n CHR '' ''). P c" for n using assms(3) by simp
  then show ?thesis
    using f assms(2,3) unfolding maps_line_def prod.case by (simp add: butlast_append ball_Un)
qed

lemma maps_line_end: "maps_line (x, e) = butlast (maps_line (x, e)) @ [CHR 0x0A]"
  unfolding maps_line_def prod.case by (simp add: butlast_append)

lemma digit_not_ctrl: "is_digit 16 c \<Longrightarrow> c \<noteq> CHR 0x00 \<and> c \<noteq> CHR 0x0A"
  by (auto simp: is_digit_def digit_val_def)

lemma line_no_nul:
  assumes "path_ok (pm_path e)"
  shows "takeWhile (\<lambda>c. c \<noteq> CHR 0x00) (maps_line (x, e)) = maps_line (x, e)"
proof -
  have "\<forall>c \<in> set (butlast (maps_line (x, e))). c \<noteq> CHR 0x00"
    by (rule maps_line_chars) (use assms digit_not_ctrl in \<open>auto simp: path_ok_def\<close>)
  then have "\<forall>c \<in> set (butlast (maps_line (x, e)) @ [CHR 0x0A]). c \<noteq> CHR 0x00" by simp
  then show ?thesis unfolding maps_line_end [symmetric] by (simp add: takeWhile_eq_all_conv)
qed

lemma scan_line_maps:
  assumes "entry_ok (x, e)"
  shows "procmap_entry (scan_line (maps_line (x, e)) v) = e" "path_buf (scan_line (maps_line (x, e)) v) = pm_path e"
proof -
  have p: "path_ok (pm_path e)" "pm_type e = get_type (pm_path e)" using assms by (auto simp: entry_ok_def)
  define v' where "v' = v\<lparr>path_buf := [], e_begin := pm_begin e, e_end := pm_end e,
      c_read := (if pm_r e then CHR ''r'' else CHR ''-''), c_write := (if pm_w e then CHR ''w'' else CHR ''-''),
      c_execute := (if pm_x e then CHR ''x'' else CHR ''-''), c_private := (if pm_p e then CHR ''p'' else CHR ''s''),
      e_offset := pm_offset e, dev1 := x_dev1 x, dev2 := x_dev2 x, inode := to_int (False, unat (x_inode x))\<rparr>"
  have pb: "path_buf v' = []" by (simp add: v'_def)
  have sp: "\<not> isspace (if pm_r e then CHR ''r'' else CHR ''-'')" by simp
  have "scan_line (maps_line (x, e)) v =
      (case scan_one (Word_Str (\<lambda>x v. v\<lparr>path_buf := x\<rparr>)) (dropWhile isspace (pm_path e @ [CHR 0x0A])) v' of None \<Rightarrow> v' | Some (s, v) \<Rightarrow> v)"
    unfolding scan_line_def line_no_nul [OF p(1)] v'_def unfolding maps_format_def maps_line_def prod.case
    by (simp add: stops_char dropWhile_pad sp split del: if_split) (simp only: sscanf.simps)
  then have "scan_line (maps_line (x, e)) v = v'\<lparr>path_buf := pm_path e\<rparr>" using scan_path [OF p(1) pb] by simp
  then show "procmap_entry (scan_line (maps_line (x, e)) v) = e" "path_buf (scan_line (maps_line (x, e)) v) = pm_path e"
    using p(2) by (simp_all add: procmap_entry_def v'_def)
qed

lemma digits_length: "2 \<le> base \<Longrightarrow> n < base ^ Suc k \<Longrightarrow> length (digits_of base n) \<le> Suc k"
proof (induction k arbitrary: n)
  case 0
  then show ?case by (simp add: digits_of.simps [of base n])
next
  case (Suc k)
  show ?case
  proof (cases "n < base")
    case False
    have "n div base < base ^ Suc k" using Suc.prems by (simp add: less_mult_imp_div_less mult.commute)
    then show ?thesis using Suc False by (simp add: digits_of.simps [of base n])
  qed (use Suc in \<open>simp add: digits_of.simps [of base n]\<close>)
qed

lemma fmt_x_length: "length (fmt_x k x) \<le> max k 16"
proof -
  have "unat x < 16 ^ Suc 15" using unat_less_exp [of x] by simp
  then have "length (digits_of 16 (unat x)) \<le> Suc 15" by (intro digits_length) simp_all
  then show ?thesis by (auto simp: fmt_x_def padded_def)
qed

lemma maps_line_fits:
  assumes "entry_ok (x, e)"
  shows "length (maps_line (x, e)) \<le> 511" "takeWhile (\<lambda>c. c \<noteq> CHR 0x0A) (maps_line (x, e) @ rest) @ [CHR 0x0A] = maps_line (x, e)"
proof -
  have "unat (x_inode x) < 10 ^ Suc 19" using unat_less_exp [of "x_inode x"] by simp
  then have i: "length (digits_of 10 (unat (x_inode x))) \<le> 20" using digits_length [of 10 _ 19] by simp
  have p: "length (pm_path e) < 256" "x_pad x \<le> 73" using assms by (auto simp: entry_ok_def path_ok_def)
  have l: "length (fmt_x 8 y) \<le> 16" "length (fmt_x 2 y) \<le> 16" for y
    using fmt_x_length [of 8 y] fmt_x_length [of 2 y] by simp_all
  have "length (maps_line (x, e)) = length (fmt_x 8 (pm_begin e)) + length (fmt_x 8 (pm_end e)) + length (fmt_x 8 (pm_offset e)) +
      length (fmt_x 2 (ucast (x_dev1 x))) + length (fmt_x 2 (ucast (x_dev2 x))) + length (digits_of 10 (unat (x_inode x))) +
      x_pad x + length (pm_path e) + 12"
    unfolding maps_line_def prod.case by (simp split del: if_split)
  then show "length (maps_line (x, e)) \<le> 511"
    using i p l(1) [of "pm_begin e"] l(1) [of "pm_end e"] l(1) [of "pm_offset e"] l(2) [of "ucast (x_dev1 x)"] l(2) [of "ucast (x_dev2 x)"]
    by linarith
  have nl: "\<forall>c \<in> set (butlast (maps_line (x, e))). c \<noteq> CHR 0x0A"
  proof (rule maps_line_chars)
    show "\<forall>c \<in> set (pm_path e). c \<noteq> CHR 0x0A" using assms isspace_simps(2) unfolding entry_ok_def path_ok_def snd_conv by metis
    show "c \<noteq> CHR 0x0A" if "is_digit 16 c" for c using digit_not_ctrl [OF that] by simp
  qed simp
  have "takeWhile (\<lambda>c. c \<noteq> CHR 0x0A) ((butlast (maps_line (x, e)) @ [CHR 0x0A]) @ rest) = butlast (maps_line (x, e))"
    using nl by (simp add: takeWhile_append)
  then show "takeWhile (\<lambda>c. c \<noteq> CHR 0x0A) (maps_line (x, e) @ rest) @ [CHR 0x0A] = maps_line (x, e)"
    using maps_line_end [of x e] by simp
qed

lemma fgets_line: "entry_ok (x, e) \<Longrightarrow> fgets 512 (maps_line (x, e) @ rest) = (maps_line (x, e), rest)"
proof -
  assume ok: "entry_ok (x, e)"
  have "Suc (length (takeWhile (\<lambda>c. c \<noteq> CHR 0x0A) (maps_line (x, e) @ rest))) = length (maps_line (x, e))"
    using arg_cong [OF maps_line_fits(2) [OF ok, of rest], of length] by simp
  then show ?thesis using maps_line_fits(1) [OF ok] by (simp add: fgets_def)
qed

lemma maps_line_ne: "maps_line xe @ r \<noteq> []"
  by (simp add: maps_line_def split: prod.split)

lemma procmap_lines_maps:
  "\<forall>xe \<in> set xs. entry_ok xe \<Longrightarrow> procmap_lines (concat (map maps_line xs)) = map maps_line xs"
proof (induction xs)
  case Nil
  then show ?case by (simp add: procmap_lines.simps)
next
  case (Cons xe xs)
  then have "fgets 512 (maps_line xe @ concat (map maps_line xs)) = (maps_line xe, concat (map maps_line xs))"
    by (cases xe) (simp add: fgets_line)
  then show ?case using Cons.IH Cons.prems maps_line_ne [of xe "concat (map maps_line xs)"]
    by (subst procmap_lines.simps) simp
qed

lemma iterate_lines_maps:
  "\<forall>xe \<in> set xs. entry_ok xe \<Longrightarrow> iterate_lines cb (map maps_line xs) v s = iterate_entries cb (map snd xs) s"
proof (induction xs arbitrary: v s)
  case (Cons xe xs)
  obtain x e where xe: "xe = (x, e)" by (cases xe)
  then have "entry_ok (x, e)" using Cons by simp
  then show ?case using Cons scan_line_maps [of x e v] unfolding xe
    by (auto simp: Let_def entry_ok_def path_ok_def intro!: Option.bind_cong)
qed simp

text \<open>
  C1: reading back a process map gives its entries. On a file whose lines have the documented format, with paths of at
  most 255 characters without blanks, the iteration calls the callback once for every line, in order, with the line's
  bounds, permissions, offset and path, and with the type its path has.
\<close>

theorem procmap_roundtrip:
  assumes "\<forall>xe \<in> set xs. entry_ok xe"
  shows "dune_procmap_iterate (Some (concat (map maps_line xs))) locals cb s = iterate_entries cb (map snd xs) s"
  using procmap_lines_maps [OF assms] iterate_lines_maps [OF assms] by (simp add: dune_procmap_iterate_def)

theorem procmap_roundtrip_witness:
  "dune_procmap_iterate (Some (concat (map maps_line [(example_extra, example_entry)]))) example_locals (\<lambda>e es. Some (es @ [e])) [] =
     Some [example_entry]"
proof -
  have "entry_ok (example_extra, example_entry)"
    by (simp add: entry_ok_def path_ok_def example_entry_def example_extra_def isspace_def get_type_def)
  then show ?thesis using procmap_roundtrip [of "[(example_extra, example_entry)]" example_locals "\<lambda>e es. Some (es @ [e])" "[]"] by simp
qed

end
