(* ===== verification/Trap.thy ===== *)
theory Trap
  imports Vm Procmap
begin

text \<open>
  Traps and system calls of the guest, \<open>libdune/trap.c\<close>, and the calls into the host of
  \<open>libdune/util.c\<close>. A handler is a function on the trap frame and the rest of the
  program's state, which is a type parameter; it gives \<^const>\<open>None\<close> when it does not return. A null pointer
  in a table of handlers is \<^const>\<open>None\<close> too. What a dump prints is the list of the addresses it reads.
\<close>

unbundle bit_operations_syntax

section \<open>The trap frame\<close>

record dune_tf =
  tf_rdi :: u64
  tf_rsi :: u64
  tf_rdx :: u64
  tf_rcx :: u64
  tf_r8 :: u64
  tf_r9 :: u64
  tf_r10 :: u64
  tf_r11 :: u64
  tf_rbx :: u64
  tf_rbp :: u64
  tf_r12 :: u64
  tf_r13 :: u64
  tf_r14 :: u64
  tf_r15 :: u64
  tf_rax :: u64
  tf_err :: u32
  tf_rip :: u64
  tf_cs :: u16
  tf_rflags :: u64
  tf_rsp :: u64
  tf_ss :: u16

definition ARG0 :: "dune_tf \<Rightarrow> u64" where "ARG0 tf = tf_rdi tf"
definition ARG1 :: "dune_tf \<Rightarrow> u64" where "ARG1 tf = tf_rsi tf"
definition ARG2 :: "dune_tf \<Rightarrow> u64" where "ARG2 tf = tf_rdx tf"
definition ARG3 :: "dune_tf \<Rightarrow> u64" where "ARG3 tf = tf_rcx tf"
definition ARG4 :: "dune_tf \<Rightarrow> u64" where "ARG4 tf = tf_r8 tf"
definition ARG5 :: "dune_tf \<Rightarrow> u64" where "ARG5 tf = tf_r9 tf"

definition IDT_ENTRIES :: int where [consts_def]: "IDT_ENTRIES = 256"
definition DUNE_SIGNAL_INTR_BASE :: int where [consts_def]: "DUNE_SIGNAL_INTR_BASE = 200"

definition T_DIVIDE :: int where [consts_def]: "T_DIVIDE = 0"
definition T_DEBUG :: int where [consts_def]: "T_DEBUG = 1"
definition T_NMI :: int where [consts_def]: "T_NMI = 2"
definition T_BRKPT :: int where [consts_def]: "T_BRKPT = 3"
definition T_OFLOW :: int where [consts_def]: "T_OFLOW = 4"
definition T_ILLOP :: int where [consts_def]: "T_ILLOP = 6"
definition T_DEVICE :: int where [consts_def]: "T_DEVICE = 7"
definition T_DBLFLT :: int where [consts_def]: "T_DBLFLT = 8"
definition T_TSS :: int where [consts_def]: "T_TSS = 10"
definition T_STACK :: int where [consts_def]: "T_STACK = 12"
definition T_GPFLT :: int where [consts_def]: "T_GPFLT = 13"
definition T_PGFLT :: int where [consts_def]: "T_PGFLT = 14"
definition T_FPERR :: int where [consts_def]: "T_FPERR = 16"
definition T_ALIGN :: int where [consts_def]: "T_ALIGN = 17"
definition T_MCHK :: int where [consts_def]: "T_MCHK = 18"

section \<open>Registration\<close>

type_synonym 's callback = "dune_tf \<Rightarrow> 's \<Rightarrow> (dune_tf \<times> 's) option"

record 's handlers =
  syscall_cb :: "'s callback option"
  g0_syscall_cb :: "'s callback option"
  pgflt_cb :: "(u64 \<Rightarrow> u64 \<Rightarrow> 's callback) option"
  intr_cbs :: "nat \<Rightarrow> 's callback option"

definition dune_register_intr_handler :: "int \<Rightarrow> 's callback option \<Rightarrow> 's handlers \<Rightarrow> int \<times> 's handlers" where
  "dune_register_intr_handler vec cb h = (
     if vec \<ge> IDT_ENTRIES \<or> vec < 0 then (- EINVAL, h)
     else (0, h\<lparr>intr_cbs := (intr_cbs h)(nat vec := cb)\<rparr>))"

definition dune_register_signal_handler :: "int \<Rightarrow> 's callback option \<Rightarrow> 's handlers \<Rightarrow> int \<times> 's handlers" where
  "dune_register_signal_handler signum cb h = dune_register_intr_handler (DUNE_SIGNAL_INTR_BASE + signum) cb h"

definition dune_register_syscall_handler :: "'s callback option \<Rightarrow> 's handlers \<Rightarrow> 's handlers" where
  "dune_register_syscall_handler cb h = h\<lparr>syscall_cb := cb\<rparr>"

definition dune_register_g0_syscall_handler :: "'s callback option \<Rightarrow> 's handlers \<Rightarrow> 's handlers" where
  "dune_register_g0_syscall_handler cb h = h\<lparr>g0_syscall_cb := cb\<rparr>"

definition dune_register_pgflt_handler :: "(u64 \<Rightarrow> u64 \<Rightarrow> 's callback) option \<Rightarrow> 's handlers \<Rightarrow> 's handlers" where
  "dune_register_pgflt_handler cb h = h\<lparr>pgflt_cb := cb\<rparr>"

text \<open>\<open>signal\<close> is the host's; it fails with \<open>SIG_ERR\<close>.\<close>

definition dune_signal :: "(int \<Rightarrow> bool) \<Rightarrow> int \<Rightarrow> 's callback option \<Rightarrow> 's handlers \<Rightarrow> bool \<times> 's handlers" where
  "dune_signal signal_ok sig cb h = (
     if \<not> signal_ok sig then (False, h)
     else (True, snd (dune_register_intr_handler (DUNE_SIGNAL_INTR_BASE + sig) cb h)))"

section \<open>Dumping a trap frame\<close>

definition addr_is_mapped :: "u64 \<Rightarrow> dune \<Rightarrow> bool option" where
  "addr_is_mapped va s = do {
     (ret, _, pte, s') \<leftarrow> dune_vm_lookup (pgroot s) va False s;
     if ret \<noteq> 0 then Some False
     else do { pte \<leftarrow> pte; Some (tst (mem s' pte) PTE_P) }
   }"

definition STACK_DEPTH :: nat where [consts_def]: "STACK_DEPTH = 20"

text \<open>The slots of the stack that are read, from slot \<open>i\<close> on with \<open>n\<close> to go.\<close>

primrec dump_slots :: "u64 \<Rightarrow> nat \<Rightarrow> nat \<Rightarrow> dune \<Rightarrow> u64 list option" where
  "dump_slots sp i 0 s = Some []"
| "dump_slots sp i (Suc n) s = do {
     mapped \<leftarrow> addr_is_mapped (sp + 8 * of_nat i) s;
     if \<not> mapped then Some []
     else do { rest \<leftarrow> dump_slots sp (i + 1) n s; Some ((sp + 8 * of_nat i) # rest) }
   }"

definition dune_dump_stack :: "dune_tf \<Rightarrow> dune \<Rightarrow> u64 list option" where
  "dune_dump_stack tf s = dump_slots (tf_rsp tf) 0 STACK_DEPTH s"

definition dune_hexdump :: "u64 \<Rightarrow> nat \<Rightarrow> u64 list" where
  "dune_hexdump x len = map (\<lambda>i. x + of_nat i) [0 ..< len]"

definition dump_ip :: "dune_tf \<Rightarrow> u64 list" where
  "dump_ip tf = dune_hexdump (tf_rip tf - 20) 20 @ dune_hexdump (tf_rip tf) 20"

definition dune_procmap_find_mapping :: "u64 \<Rightarrow> dune_procmap_entry \<Rightarrow> dune_procmap_entry list \<Rightarrow> dune_procmap_entry list option" where
  "dune_procmap_find_mapping search_rip e found =
     Some (if pm_begin e \<le> search_rip \<and> search_rip \<le> pm_end e then found @ [e] else found)"

record trap_dump =
  dump_found :: "dune_procmap_entry list"
  dump_stack :: "u64 list"
  dump_code :: "u64 list"

definition dune_dump_trap_frame :: "string option \<Rightarrow> scan_vars \<Rightarrow> dune_tf \<Rightarrow> dune \<Rightarrow> trap_dump option" where
  "dune_dump_trap_frame map_file locals tf s = do {
     found \<leftarrow> dune_procmap_iterate map_file locals (dune_procmap_find_mapping (tf_rip tf)) [];
     slots \<leftarrow> dune_dump_stack tf s;
     Some \<lparr>dump_found = found, dump_stack = slots, dump_code = dump_ip tf\<rparr>
   }"

section \<open>Dispatch\<close>

text \<open>
  How a trap ends: the guest resumes with the frame and state the handler left, the handler does not
  return, the process is killed after a dump (\<open>dune_die\<close>), or it exits at once.
\<close>

datatype 's trap_result = Resumed dune_tf 's | No_Return | Died | Exited

definition run_callback :: "'s callback \<Rightarrow> dune_tf \<Rightarrow> 's \<Rightarrow> 's trap_result" where
  "run_callback cb tf s = (case cb tf s of None \<Rightarrow> No_Return | Some (tf, s) \<Rightarrow> Resumed tf s)"

definition g0_dune_syscall_handler :: "'s handlers \<Rightarrow> dune_tf \<Rightarrow> 's \<Rightarrow> 's trap_result" where
  "g0_dune_syscall_handler h tf s = (case g0_syscall_cb h of Some cb \<Rightarrow> run_callback cb tf s | None \<Rightarrow> Died)"

definition dune_syscall_handler :: "'s handlers \<Rightarrow> dune_tf \<Rightarrow> 's \<Rightarrow> 's trap_result" where
  "dune_syscall_handler h tf s = (case syscall_cb h of Some cb \<Rightarrow> run_callback cb tf s | None \<Rightarrow> Died)"

definition trap_without_handler :: "'s handlers \<Rightarrow> int \<Rightarrow> u64 \<Rightarrow> dune_tf \<Rightarrow> 's \<Rightarrow> 's trap_result" where
  "trap_without_handler h num cr2 tf s = (
     if num = T_PGFLT then (case pgflt_cb h of Some cb \<Rightarrow> run_callback (cb cr2 (ucast (tf_err tf))) tf s | None \<Rightarrow> Died)
     else if num = T_NMI \<or> num = T_DBLFLT \<or> num = T_GPFLT then Died
     else if num = T_DEBUG \<or> num = T_DIVIDE \<or> num = T_TSS \<or> num = T_STACK \<or> num = T_OFLOW \<or> num = T_ILLOP \<or>
        num = T_DEVICE \<or> num = T_FPERR \<or> num = T_ALIGN then Exited
     else Died)"

text \<open>The table has \<^const>\<open>IDT_ENTRIES\<close> entries; \<^const>\<open>None\<close> is an access past it.\<close>

definition dune_trap_handler :: "'s handlers \<Rightarrow> int \<Rightarrow> u64 \<Rightarrow> dune_tf \<Rightarrow> 's \<Rightarrow> 's trap_result option" where
  "dune_trap_handler h num cr2 tf s = do {
     ensure (0 \<le> num \<and> num < IDT_ENTRIES);
     Some (case intr_cbs h (nat num) of
             Some cb \<Rightarrow> run_callback cb tf s
           | None \<Rightarrow> trap_without_handler h num cr2 tf s)
   }"

section \<open>Calls into the host\<close>

text \<open>
  The host is a function of the call number and six arguments. The two functions differ in the
  register of the fourth argument.
\<close>

type_synonym 's host_call = "u64 \<Rightarrow> u64 list \<Rightarrow> 's \<Rightarrow> u64 \<times> 's"

definition dune_passthrough_syscall :: "'s host_call \<Rightarrow> 's callback" where
  "dune_passthrough_syscall vmcall tf s = (
     let (ret, s) = vmcall (tf_rax tf) [tf_rdi tf, tf_rsi tf, tf_rdx tf, tf_rcx tf, tf_r8 tf, tf_r9 tf] s
     in Some (tf\<lparr>tf_rax := ret\<rparr>, s))"

definition dune_passthrough_g0_syscall :: "'s host_call \<Rightarrow> 's callback" where
  "dune_passthrough_g0_syscall vmcall tf s = (
     let (ret, s) = vmcall (tf_rax tf) [tf_rdi tf, tf_rsi tf, tf_rdx tf, tf_r10 tf, tf_r8 tf, tf_r9 tf] s
     in Some (tf\<lparr>tf_rax := ret\<rparr>, s))"

definition dune_mmap :: "'s host_call \<Rightarrow> u64 \<Rightarrow> u64 \<Rightarrow> u32 \<Rightarrow> u64 \<Rightarrow> u64 \<Rightarrow> u64 \<Rightarrow> 's \<Rightarrow> u64 \<times> 's" where
  "dune_mmap vmcall addr length' prot flags fd offset s = vmcall 9 [addr, length', ucast prot, flags, fd, offset] s"

section \<open>Lemmas\<close>

definition no_handlers :: "'s handlers" where
  "no_handlers = \<lparr>syscall_cb = None, g0_syscall_cb = None, pgflt_cb = None, intr_cbs = (\<lambda>_. None)\<rparr>"

definition example_tf :: dune_tf where
  "example_tf = \<lparr>tf_rdi = 1, tf_rsi = 2, tf_rdx = 3, tf_rcx = 4, tf_r8 = 5, tf_r9 = 6, tf_r10 = 7, tf_r11 = 8, tf_rbx = 9, tf_rbp = 10,
     tf_r12 = 11, tf_r13 = 12, tf_r14 = 13, tf_r15 = 14, tf_rax = 15, tf_err = 2, tf_rip = 0x401000, tf_cs = 0x33, tf_rflags = 0x202,
     tf_rsp = 0x7fff0000, tf_ss = 0x2b\<rparr>"

lemma lookup_from_view:
  "l \<le> 3 \<Longrightarrow> \<exists>r out. lookup_from l d va False c s = Some (r, c, out, s) \<and> (r = 0 \<longleftrightarrow> out \<noteq> None) \<and>
     (case out of None \<Rightarrow> \<not> pte_present (snd (view_at (mem s) l d (vpn va)))
      | Some a \<Rightarrow> snd (view_at (mem s) l d (vpn va)) = mem s a)"
proof (induction l arbitrary: d)
  case 0
  then show ?case using PDX_vpn [of 0 va] by (simp add: view_at_def)
next
  case (Suc l)
  note pdx = PDX_vpn [OF Suc.prems, of va] and ih = Suc.IH [of "PTE_ADDR (mem s (ent d (pidx (Suc l) (vpn va))))"]
  show ?case
    using Suc.prems ih
    by (auto simp: pdx Let_def view_at_Suc is_leaf_def ENOENT_def pte_present_def PTE_FLAGS_def)
qed

lemma addr_is_mapped_view:
  "addr_is_mapped va s = Some (pte_present (snd (pview (mem s) (pgroot s) (vpn va))))"
  using lookup_from_view [of 3 "pgroot s" va False s]
  by (auto simp: addr_is_mapped_def dune_vm_lookup_def lookup_internal_from pview_view_at pte_present_bit flag_bit split: option.splits)

lemma dump_slots_mapped:
  "dump_slots sp i n s = Some (takeWhile (\<lambda>a. pte_present (snd (pview (mem s) (pgroot s) (vpn a)))) (map (\<lambda>k. sp + 8 * of_nat k) [i ..< i + n]))"
proof (induction n arbitrary: i)
  case (Suc n)
  have "[i ..< i + Suc n] = i # [Suc i ..< Suc i + n]" by (simp add: upt_conv_Cons)
  then show ?case using Suc [of "Suc i"] by (simp add: addr_is_mapped_view)
qed simp

lemma trap_without_handler_intr [simp]: "trap_without_handler (h\<lparr>intr_cbs := f\<rparr>) = trap_without_handler h"
  by (simp add: fun_eq_iff trap_without_handler_def)

lemma trap_dispatch:
  "fst (dune_register_intr_handler vec (Some cb) h) = (if 0 \<le> vec \<and> vec < IDT_ENTRIES then 0 else - EINVAL)"
  "dune_trap_handler (snd (dune_register_intr_handler vec (Some cb) h)) num cr2 tf s =
     (if 0 \<le> vec \<and> vec < IDT_ENTRIES \<and> num = vec then Some (run_callback cb tf s) else dune_trap_handler h num cr2 tf s)"
  by (auto simp: dune_register_intr_handler_def dune_trap_handler_def split: option.split)

text \<open>
  A signal from 56 on has no vector: its handler is not registered, and \<open>dune_signal\<close> reports success.
\<close>

lemma late_signal_not_registered:
  "56 \<le> sig \<Longrightarrow> signal_ok sig \<Longrightarrow> dune_signal signal_ok sig cb h = (True, h)"
  by (simp add: dune_signal_def dune_register_intr_handler_def consts_def)

text \<open>
  C1: a trap for which nothing is registered ends the process: the guest is never resumed past
  an exception that nobody handled.
\<close>

theorem unhandled_trap_ends_process:
  assumes "0 \<le> num" "num < IDT_ENTRIES" "intr_cbs h (nat num) = None" "num = T_PGFLT \<longrightarrow> pgflt_cb h = None"
  shows "dune_trap_handler h num cr2 tf s \<in> {Some Died, Some Exited}"
  using assms by (simp add: dune_trap_handler_def) (simp add: trap_without_handler_def T_PGFLT_def)

theorem unhandled_trap_ends_process_witness:
  "dune_trap_handler (no_handlers :: unit handlers) 14 0x5000 example_tf () \<in> {Some Died, Some Exited}"
  using unhandled_trap_ends_process [of 14 "no_handlers :: unit handlers" "0x5000" example_tf "()"] by (simp add: no_handlers_def consts_def)

text \<open>
  C2: dumping the stack of a trap frame cannot fault on a slot it should not read. It reads, of the twenty slots from the stack
  pointer on, exactly those before the first one whose page is not mapped, whatever the page tables hold.
\<close>

theorem dump_stack_reads_mapped:
  "dune_dump_stack tf s = Some (takeWhile (\<lambda>a. pte_present (snd (pview (mem s) (pgroot s) (vpn a))))
     (map (\<lambda>k. tf_rsp tf + 8 * of_nat k) [0 ..< 20]))"
  using dump_slots_mapped [of "tf_rsp tf" 0 20 s] by (simp add: dune_dump_stack_def STACK_DEPTH_def)

end
