(* ===== verification/Descriptors.thy ===== *)
theory Descriptors
  imports Trap
begin

text \<open>
  Segment and gate descriptors: the macros of \<open>libdune/mmu-x86.h\<close>, the structures of
  \<open>libdune/cpu-x86.h\<close> and \<open>libdune/mmu.h\<close>, and the functions of
  \<open>libdune/entry.c\<close> that build the descriptor tables and load them on a core. The processor's reading of a
  descriptor is stated independently, by \<open>gate_addr\<close>, \<open>seg_base\<close>, \<open>seg_limit\<close> and
  \<open>seg_kind_of\<close>.
\<close>

unbundle bit_operations_syntax

section \<open>Segment descriptors\<close>

definition SEG_A :: u64 where [consts_def]: "SEG_A = push_bit 40 1"
definition SEG_W :: u64 where [consts_def]: "SEG_W = push_bit 40 (push_bit 1 1)"
definition SEG_X :: u64 where [consts_def]: "SEG_X = push_bit 40 (push_bit 3 1)"
definition SEG_R :: u64 where [consts_def]: "SEG_R = push_bit 40 (push_bit 1 1)"
definition SEG_S :: u64 where [consts_def]: "SEG_S = push_bit 44 1"
definition SEG_TSSA :: u64 where [consts_def]: "SEG_TSSA = push_bit 40 0x9"
definition SEG_P :: u64 where [consts_def]: "SEG_P = push_bit 47 1"
definition SEG_L :: u64 where [consts_def]: "SEG_L = push_bit 53 1"
definition SEG_G :: u64 where [consts_def]: "SEG_G = push_bit 55 1"

definition SEG_DPL :: "u64 \<Rightarrow> u64" where "SEG_DPL x = push_bit 45 (x AND 3)"
definition SEG_LIM :: "u64 \<Rightarrow> u64" where "SEG_LIM x = (x AND 0xffff) OR push_bit 32 (x AND 0xf0000)"
definition SEG_BASELO :: "u64 \<Rightarrow> u64" where "SEG_BASELO x = push_bit 16 (x AND 0xffffff) OR push_bit 32 (x AND 0xff000000)"
definition SEG_BASEHI :: "u64 \<Rightarrow> u64" where "SEG_BASEHI x = drop_bit 32 x"

definition SEG64 :: "u64 \<Rightarrow> u64 \<Rightarrow> u64" where
  "SEG64 type dpl = type OR SEG_S OR SEG_P OR SEG_G OR SEG_L OR SEG_A OR SEG_DPL dpl OR SEG_LIM 0xffffffff"

definition GD_KT :: u16 where [consts_def]: "GD_KT = 0x10"
definition GD_KD :: u16 where [consts_def]: "GD_KD = 0x18"
definition GD_UD :: u16 where [consts_def]: "GD_UD = 0x28"
definition GD_UT :: u16 where [consts_def]: "GD_UT = 0x30"
definition GD_TSS :: u16 where [consts_def]: "GD_TSS = 0x38"
definition GD_TSS2 :: u16 where [consts_def]: "GD_TSS2 = 0x40"
definition NR_GDT_ENTRIES :: nat where [consts_def]: "NR_GDT_ENTRIES = 9"

definition gdt_template :: "u64 list" where
  "gdt_template = [0, 0, SEG64 (SEG_X OR SEG_R) 0, SEG64 SEG_W 0, 0, SEG64 SEG_W 3, SEG64 (SEG_X OR SEG_R) 3, 0, 0]"

section \<open>Per-core data\<close>

record Tss =
  tss_rsp :: "u64 list"
  tss_ist :: "u64 list"
  tss_iomb :: u16

text \<open>\<open>sizeof(struct Tss)\<close> and \<open>offsetof(struct Tss, tss_iopb)\<close> of the packed structure.\<close>

definition Tss_size :: u64 where [consts_def]: "Tss_size = 4 + 3 * 8 + 8 * 8 + 10 + 2"

record dune_percpu =
  percpu_ptr :: u64
  percpu_tmp :: u64
  kfs_base :: u64
  ufs_base :: u64
  in_usermode :: u64
  tss :: Tss
  gdt :: "u64 list"

text \<open>The addresses of the members \<open>tss\<close> and \<open>gdt\<close> of the packed structure.\<close>

definition percpu_tss :: "u64 \<Rightarrow> u64" where "percpu_tss percpu = percpu + 40"
definition percpu_gdt :: "u64 \<Rightarrow> u64" where "percpu_gdt percpu = percpu + 40 + Tss_size"

definition gdt_index :: "u16 \<Rightarrow> nat" where
  "gdt_index sel = unat (drop_bit 3 sel)"

definition setup_gdt :: "u64 \<Rightarrow> dune_percpu \<Rightarrow> dune_percpu" where
  "setup_gdt percpu p = (
     let p = p\<lparr>gdt := gdt_template\<rparr>;
         p = p\<lparr>gdt := (gdt p)[gdt_index GD_TSS :=
               SEG_TSSA OR SEG_P OR SEG_A OR SEG_BASELO (percpu_tss percpu) OR SEG_LIM (Tss_size - 1)]\<rparr>
     in p\<lparr>gdt := (gdt p)[gdt_index GD_TSS2 := SEG_BASEHI (percpu_tss percpu)]\<rparr>)"

definition dune_get_user_fs :: "dune_percpu \<Rightarrow> u64" where
  "dune_get_user_fs p = ufs_base p"

definition dune_set_user_fs :: "u64 \<Rightarrow> dune_percpu \<Rightarrow> dune_percpu" where
  "dune_set_user_fs fs_base p = p\<lparr>ufs_base := fs_base\<rparr>"

section \<open>Interrupt gates\<close>

record idtd =
  id_low :: u16
  id_selector :: u16
  id_ist :: u8
  id_type :: u8
  id_middle :: u16
  id_high :: u32
  id_zero :: u32

definition IDTD_P :: u8 where [consts_def]: "IDTD_P = push_bit 7 1"
definition IDTD_CPL3 :: u8 where [consts_def]: "IDTD_CPL3 = push_bit 5 3"
definition IDTD_TRAP_GATE :: u8 where [consts_def]: "IDTD_TRAP_GATE = 0xF"
definition ISR_LEN :: u64 where [consts_def]: "ISR_LEN = 16"

definition set_idt_addr :: "u64 \<Rightarrow> idtd \<Rightarrow> idtd" where
  "set_idt_addr addr g = g\<lparr>id_low := ucast (addr AND 0xFFFF),
     id_middle := ucast (drop_bit 16 addr AND 0xFFFF), id_high := ucast (drop_bit 32 addr AND 0xFFFFFFFF)\<rparr>"

definition setup_gate :: "u64 \<Rightarrow> nat \<Rightarrow> idtd" where
  "setup_gate dune_intr i = (
     let isr = dune_intr + ISR_LEN * of_nat i;
         g = \<lparr>id_low = 0, id_selector = 0, id_ist = 0, id_type = 0, id_middle = 0, id_high = 0, id_zero = 0\<rparr>;
         g = g\<lparr>id_selector := GD_KT\<rparr>;
         g = g\<lparr>id_type := IDTD_P OR IDTD_TRAP_GATE\<rparr>;
         g = (if int i = T_BRKPT then g\<lparr>id_type := id_type g OR IDTD_CPL3\<rparr> else g);
         g = (if int i \<in> {T_BRKPT, T_DBLFLT, T_NMI, T_MCHK} then g\<lparr>id_ist := 1\<rparr> else g)
     in set_idt_addr isr g)"

definition setup_idt :: "u64 \<Rightarrow> idtd list" where
  "setup_idt dune_intr = map (setup_gate dune_intr) [0 ..< nat IDT_ENTRIES]"

section \<open>Bringing a core online\<close>

record tptr =
  tp_limit :: u16
  tp_base :: u64

record core_regs =
  gdtr :: tptr
  idtr :: tptr
  sel_cs :: u16
  sel_ds :: u16
  sel_es :: u16
  sel_ss :: u16
  sel_tr :: u16
  int_enabled :: bool
  msrs :: "u32 \<Rightarrow> u64"

definition MSR_FS_BASE :: u32 where [consts_def]: "MSR_FS_BASE = 0xc0000100"
definition MSR_GS_BASE :: u32 where [consts_def]: "MSR_GS_BASE = 0xc0000101"

definition native_write_msr :: "u32 \<Rightarrow> u32 \<Rightarrow> u32 \<Rightarrow> core_regs \<Rightarrow> core_regs" where
  "native_write_msr msr low high c = c\<lparr>msrs := (msrs c)(msr := ucast low OR push_bit 32 (ucast high))\<rparr>"

definition native_read_msr :: "u32 \<Rightarrow> core_regs \<Rightarrow> u64" where
  "native_read_msr msr c = msrs c msr"

definition wrmsrl :: "u32 \<Rightarrow> u64 \<Rightarrow> core_regs \<Rightarrow> core_regs" where
  "wrmsrl msr val c = native_write_msr msr (ucast val) (ucast (drop_bit 32 val)) c"

definition dune_boot :: "u64 \<Rightarrow> u64 \<Rightarrow> dune_percpu \<Rightarrow> core_regs \<Rightarrow> int \<times> dune_percpu \<times> core_regs" where
  "dune_boot idt percpu p c = (
     let p = setup_gdt percpu p;
         c = c\<lparr>gdtr := \<lparr>tp_limit = of_nat (8 * NR_GDT_ENTRIES) - 1, tp_base = percpu_gdt percpu\<rparr>\<rparr>;
         c = c\<lparr>sel_ds := GD_KD, sel_es := GD_KD, sel_ss := GD_KD\<rparr>;
         c = c\<lparr>sel_cs := GD_KT\<rparr>;
         c = c\<lparr>sel_tr := GD_TSS\<rparr>;
         c = c\<lparr>idtr := \<lparr>tp_limit = of_int (16 * IDT_ENTRIES) - 1, tp_base = idt\<rparr>, int_enabled := True\<rparr>;
         c = wrmsrl MSR_FS_BASE (kfs_base p) c;
         c = wrmsrl MSR_GS_BASE percpu c
     in (0, p, c))"

section \<open>How the processor reads descriptors\<close>

definition gate_addr :: "idtd \<Rightarrow> u64" where
  "gate_addr g = ucast (id_low g) OR push_bit 16 (ucast (id_middle g)) OR push_bit 32 (ucast (id_high g))"

definition seg_base :: "u64 \<Rightarrow> u64 \<Rightarrow> u64" where
  "seg_base lo hi = (drop_bit 16 lo AND 0xffffff) OR (drop_bit 32 lo AND 0xff000000) OR push_bit 32 hi"

definition seg_limit :: "u64 \<Rightarrow> u64" where
  "seg_limit lo = (lo AND 0xffff) OR (drop_bit 32 lo AND 0xf0000)"

datatype seg_kind = Seg_Null | Code64 nat | Data_RW nat | Tss_Avail | Seg_Other

definition seg_dpl :: "u64 \<Rightarrow> nat" where
  "seg_dpl d = unat (drop_bit 45 d AND 3)"

definition seg_kind_of :: "u64 \<Rightarrow> seg_kind" where
  "seg_kind_of d = (
     let ty = drop_bit 40 d AND 0xf
     in if \<not> bit d 47 then Seg_Null
        else if bit d 44 then if bit ty 3 \<and> bit ty 1 \<and> bit d 53 then Code64 (seg_dpl d)
          else if \<not> bit ty 3 \<and> bit ty 1 then Data_RW (seg_dpl d) else Seg_Other
        else if ty = 9 then Tss_Avail else Seg_Other)"

section \<open>Lemmas\<close>

definition tss_lo :: "u64 \<Rightarrow> u64" where
  "tss_lo x = SEG_TSSA OR SEG_P OR SEG_A OR SEG_BASELO x OR SEG_LIM (Tss_size - 1)"

lemma ucast_parts:
  "(ucast (ucast (x AND 0xFFFF) :: u16) :: u64) = x AND 0xFFFF" "(ucast (ucast (x AND 0xFFFFFFFF) :: u32) :: u64) = x AND 0xFFFFFFFF"
  for x :: u64
proof -
  have m: "(0xFFFF :: u64) = mask 16" "(0xFFFFFFFF :: u64) = mask 32" by (simp_all add: mask_eq_exp_minus_1)
  show "(ucast (ucast (x AND 0xFFFF) :: u16) :: u64) = x AND 0xFFFF" "(ucast (ucast (x AND 0xFFFFFFFF) :: u32) :: u64) = x AND 0xFFFFFFFF"
    unfolding m by (rule bit_word_eqI; auto simp: bit_simps)+
qed

lemma split_16_16_32: "(x AND 0xFFFF) OR push_bit 16 (drop_bit 16 x AND 0xFFFF) OR push_bit 32 (drop_bit 32 x AND 0xFFFFFFFF) = x" for x :: u64
proof -
  have m: "(0xFFFF :: u64) = mask 16" "(0xFFFFFFFF :: u64) = mask 32" by (simp_all add: mask_eq_exp_minus_1)
  show ?thesis unfolding m
  proof (rule bit_word_eqI)
    fix n :: nat
    assume "n < LENGTH(64)"
    then show "bit ((x AND mask 16) OR push_bit 16 (drop_bit 16 x AND mask 16) OR push_bit 32 (drop_bit 32 x AND mask 32)) n = bit x n"
      by (cases "n < 16"; cases "n < 32") (auto simp: bit_simps)
  qed
qed

lemma gate_addr_set [simp]: "gate_addr (set_idt_addr addr g) = addr"
  unfolding gate_addr_def set_idt_addr_def by (simp add: ucast_parts del: push_bit_and) (rule split_16_16_32)

lemma wrmsrl_read [simp]: "native_read_msr msr (wrmsrl msr' val c) = (if msr = msr' then val else native_read_msr msr c)"
proof -
  have "ucast (ucast val :: u32) OR push_bit 32 (ucast (ucast (drop_bit 32 val) :: u32)) = val"
    by (rule bit_word_eqI) (auto simp: bit_simps)
  then show ?thesis by (simp add: wrmsrl_def native_write_msr_def native_read_msr_def)
qed

lemma setup_idt_nth: "i < 256 \<Longrightarrow> setup_idt isr ! i = setup_gate isr i"
  by (simp add: setup_idt_def IDT_ENTRIES_def)

text \<open>The bits of the low half of the task segment's descriptor: the base leaves bits 0 to 15 and 40 to 55 alone.\<close>

lemma seg_masks: "(0xffffff :: u64) = mask 24" "(0xff000000 :: u64) = push_bit 24 (mask 8)"
  "(0xffff :: u64) = mask 16" "(0xf0000 :: u64) = push_bit 16 (mask 4)" "(3 :: u64) = mask 2" "(0xf :: u64) = mask 4"
  by (simp_all add: mask_eq_exp_minus_1 push_bit_eq_mult)

lemma SEG_BASELO_bit:
  "bit (SEG_BASELO x) n \<longleftrightarrow> (16 \<le> n \<and> n < 40 \<and> bit x (n - 16)) \<or> (56 \<le> n \<and> n < 64 \<and> bit x (n - 32))"
  unfolding SEG_BASELO_def seg_masks by (auto simp: bit_simps)

lemma tss_const: "SEG_TSSA OR SEG_P OR SEG_A OR SEG_LIM (Tss_size - 1) = 0x890000000067"
  by (simp add: consts_def SEG_LIM_def push_bit_eq_mult)

lemma tss_lo_eq: "tss_lo x = 0x890000000067 OR SEG_BASELO x"
  unfolding tss_lo_def tss_const [symmetric] by (simp add: ac_simps)

lemma tss_fields:
  "drop_bit 40 (tss_lo x) AND 0xf = 9" "bit (tss_lo x) 47" "\<not> bit (tss_lo x) 44" "seg_limit (tss_lo x) = Tss_size - 1"
proof -
  have z: "drop_bit 40 (SEG_BASELO x) AND 0xf = 0" "SEG_BASELO x AND 0xffff = 0" "drop_bit 32 (SEG_BASELO x) AND 0xf0000 = 0"
    unfolding seg_masks by (rule bit_word_eqI; auto simp: bit_simps SEG_BASELO_bit)+
  have d: "(a OR b) AND c = (a AND c) OR (b AND c)" "drop_bit n (a OR b) = drop_bit n a OR drop_bit n b" for a b c :: u64 and n
    by (simp_all add: bit.conj_disj_distrib2)
  show "drop_bit 40 (tss_lo x) AND 0xf = 9"
    unfolding tss_lo_eq d z(1) by (simp add: drop_bit_eq_div)
  show "seg_limit (tss_lo x) = Tss_size - 1"
    unfolding seg_limit_def tss_lo_eq d z(2,3) by (simp add: drop_bit_eq_div consts_def)
  have "bit (0x890000000067 :: u64) 47" "\<not> bit (0x890000000067 :: u64) 44" by (simp_all add: bit_iff_odd)
  then show "bit (tss_lo x) 47" "\<not> bit (tss_lo x) 44"
    by (auto simp: tss_lo_eq bit_or_iff SEG_BASELO_bit)
qed

lemma tss_base: "seg_base (tss_lo x) (SEG_BASEHI x) = x"
proof -
  have d: "(a OR b) AND c = (a AND c) OR (b AND c)" "drop_bit n (a OR b) = drop_bit n a OR drop_bit n b" for a b c :: u64 and n
    by (simp_all add: bit.conj_disj_distrib2)
  have "seg_base (tss_lo x) (SEG_BASEHI x) = seg_base (SEG_BASELO x) (SEG_BASEHI x)"
    unfolding seg_base_def tss_lo_eq d by (simp add: drop_bit_eq_div)
  also have "\<dots> = x"
  proof (rule bit_word_eqI)
    fix n :: nat
    assume "n < LENGTH(64)"
    then show "bit (seg_base (SEG_BASELO x) (SEG_BASEHI x)) n = bit x n"
      unfolding seg_base_def SEG_BASEHI_def seg_masks
      by (cases "n < 24"; cases "n < 32") (auto simp: bit_simps SEG_BASELO_bit)
  qed
  finally show ?thesis .
qed

lemma gdt_parts:
  "gdt (setup_gdt a p) = [0, 0, SEG64 (SEG_X OR SEG_R) 0, SEG64 SEG_W 0, 0, SEG64 SEG_W 3, SEG64 (SEG_X OR SEG_R) 3,
     tss_lo (percpu_tss a), SEG_BASEHI (percpu_tss a)]"
  by (simp add: setup_gdt_def gdt_template_def gdt_index_def consts_def tss_lo_def drop_bit_eq_div)

lemma seg64_kinds:
  "seg_kind_of (SEG64 (SEG_X OR SEG_R) 0) = Code64 0" "seg_kind_of (SEG64 SEG_W 0) = Data_RW 0"
  "seg_kind_of (SEG64 SEG_W 3) = Data_RW 3" "seg_kind_of (SEG64 (SEG_X OR SEG_R) 3) = Code64 3"
  by (simp_all add: seg_kind_of_def SEG64_def SEG_DPL_def SEG_LIM_def consts_def push_bit_eq_mult drop_bit_eq_div bit_iff_odd seg_dpl_def Let_def)

text \<open>
  C1: every gate of the interrupt descriptor table leads to its own stub, sixteen bytes after the one before, in the kernel code
  segment; it is a present trap gate, reachable from user mode only for breakpoints, and it switches stacks exactly for breakpoints,
  non-maskable interrupts, double faults and machine checks.
\<close>

theorem idt_gates_lead_to_stubs:
  assumes "i < 256"
  shows "let g = setup_idt dune_intr ! i in
    gate_addr g = dune_intr + 16 * of_nat i \<and> id_selector g = GD_KT \<and>
    id_type g = IDTD_P OR IDTD_TRAP_GATE OR (if i = 3 then IDTD_CPL3 else 0) \<and>
    id_ist g = (if i \<in> {2, 3, 8, 18} then 1 else 0)"
  unfolding setup_idt_nth [OF assms]
  by (simp add: setup_gate_def Let_def consts_def) (simp add: set_idt_addr_def)

theorem idt_gates_lead_to_stubs_witness:
  "gate_addr (setup_idt 0xffff800012345670 ! 14) = 0xffff800012345750 \<and> id_ist (setup_idt 0xffff800012345670 ! 8) = 1"
  using idt_gates_lead_to_stubs [of 14 "0xffff800012345670"] idt_gates_lead_to_stubs [of 8 "0xffff800012345670"] by (simp add: Let_def)

text \<open>
  C2: a booted core runs on segments of the right kinds: the selectors it loads name a 64-bit kernel code segment, kernel data
  segments and an available task segment of its own descriptor table, whose base and limit are those of the core's task state, and the two user
  selectors name user segments. The thread and per-core base registers hold the values asked for.
\<close>

theorem boot_selectors_well_typed:
  "\<exists>p' c'. dune_boot idt percpu p c = (0, p', c') \<and> tp_base (gdtr c') = percpu_gdt percpu \<and>
     (let kind = (\<lambda>sel. seg_kind_of (gdt p' ! gdt_index sel)) in
       kind (sel_cs c') = Code64 0 \<and> kind (sel_ds c') = Data_RW 0 \<and> kind (sel_es c') = Data_RW 0 \<and> kind (sel_ss c') = Data_RW 0 \<and>
       kind GD_UD = Data_RW 3 \<and> kind GD_UT = Code64 3 \<and> kind (sel_tr c') = Tss_Avail) \<and>
     seg_base (gdt p' ! gdt_index (sel_tr c')) (gdt p' ! Suc (gdt_index (sel_tr c'))) = percpu_tss percpu \<and>
     seg_limit (gdt p' ! gdt_index (sel_tr c')) = Tss_size - 1 \<and>
     list_all (\<lambda>sel. unat sel + 7 \<le> unat (tp_limit (gdtr c'))) [sel_cs c', sel_ds c', sel_tr c', GD_UD, GD_UT] \<and>
     native_read_msr MSR_FS_BASE c' = kfs_base p \<and> native_read_msr MSR_GS_BASE c' = percpu"
proof -
  have k: "seg_kind_of (tss_lo x) = Tss_Avail" for x by (simp add: seg_kind_of_def tss_fields)
  have i: "gdt_index GD_KT = 2" "gdt_index GD_KD = 3" "gdt_index GD_UD = 5" "gdt_index GD_UT = 6" "gdt_index GD_TSS = 7"
    by (simp_all add: gdt_index_def consts_def drop_bit_eq_div)
  have s: "sel_cs (wrmsrl a b d) = sel_cs d" "sel_ds (wrmsrl a b d) = sel_ds d" "sel_es (wrmsrl a b d) = sel_es d"
    "sel_ss (wrmsrl a b d) = sel_ss d" "sel_tr (wrmsrl a b d) = sel_tr d" "gdtr (wrmsrl a b d) = gdtr d" for a b d
    by (simp_all add: wrmsrl_def native_write_msr_def)
  have kf: "kfs_base (setup_gdt percpu p) = kfs_base p" by (simp add: setup_gdt_def)
  have ms: "MSR_FS_BASE \<noteq> MSR_GS_BASE" by (simp add: consts_def)
  show ?thesis
    by (simp add: dune_boot_def Let_def s i gdt_parts seg64_kinds k tss_base tss_fields kf ms) (simp add: consts_def)
qed

end
