(* ===== verification/Two_Tables.thy ===== *)
theory Two_Tables
  imports Vm
begin

text \<open>
  Two page tables in one memory: the invariant that they share no table page, what a lookup and the hardware
  walk find at a last-level entry, and frame lemmas (a write to an entry of one table and the fill of a page that
  is no table leave the other views alone).
\<close>

unbundle bit_operations_syntax

definition same_tables :: "tables \<Rightarrow> memory \<Rightarrow> memory \<Rightarrow> bool" where
  "same_tables T m m' \<longleftrightarrow> (\<forall>d i. T d \<noteq> None \<longrightarrow> i < 512 \<longrightarrow> m' (ent d i) = m (ent d i))"

definition spaces_ok :: "tables \<Rightarrow> u64 \<Rightarrow> tables \<Rightarrow> u64 \<Rightarrow> dune \<Rightarrow> bool" where
  "spaces_ok T1 r1 T2 r2 s \<longleftrightarrow> vm_ok T1 r1 s \<and> vm_ok T2 r2 s \<and> dom T1 \<inter> dom T2 = {}"

text \<open>A page of data: in neither table, and taken if it is a page of the pool.\<close>

definition data_page :: "tables \<Rightarrow> tables \<Rightarrow> u64 \<Rightarrow> dune \<Rightarrow> bool" where
  "data_page T1 T2 pa s \<longleftrightarrow> pg_aligned pa \<and> T1 pa = None \<and> T2 pa = None \<and>
     (PAGEBASE \<le> pa \<longrightarrow> pa < PAGEBASE_END \<longrightarrow> dune_pa2page pa \<in> in_use (pool s))"

definition same_page :: "memory \<Rightarrow> u64 \<Rightarrow> memory \<Rightarrow> u64 \<Rightarrow> bool" where
  "same_page m pa m' pa' \<longleftrightarrow> (\<forall>i < 512. m (ent pa i) = m' (ent pa' i))"

section \<open>Frames\<close>

lemma same_tables_leaf:
  assumes wf: "pt_wf T root m" and same: "same_tables T m m'" and d: "T d = Some (l, n div 512 ^ Suc l)"
  shows "pt_leaf m' l d n = pt_leaf m l d n \<and> view_at m' l d n = view_at m l d n"
  using d
proof (induction l arbitrary: d)
  case 0
  then have "m' (ent d (pidx 0 n)) = m (ent d (pidx 0 n))" using same by (simp add: same_tables_def)
  then show ?case by (simp add: view_at_def)
next
  case (Suc l)
  have e: "m' (ent d (pidx (Suc l) n)) = m (ent d (pidx (Suc l) n))"
    using same Suc.prems by (simp add: same_tables_def)
  show ?case
  proof (cases "links m (Suc l) d (pidx (Suc l) n) (PTE_ADDR (m (ent d (pidx (Suc l) n))))")
    case True
    have "T (PTE_ADDR (m (ent d (pidx (Suc l) n)))) = Some (l, n div 512 ^ Suc l)"
      by (rule wf_child_pidx [OF wf Suc.prems True])
    from Suc.IH [OF this] True show ?thesis
      by (simp add: pt_leaf_Suc view_at_Suc e links_def)
  next
    case False
    then show ?thesis by (auto simp: pt_leaf_Suc view_at_Suc e links_def)
  qed
qed

lemma same_tables_wf:
  assumes wf: "pt_wf T root m" and same: "same_tables T m m'"
  shows "pt_wf T root m'"
proof -
  have "links m' l d i x \<longleftrightarrow> links m l d i x" if "T d = Some (l, b)" "i < 512" for d l b i x
    using same that by (simp add: links_def same_tables_def)
  moreover have "b mod 512 < 512" for b :: nat by simp
  ultimately show ?thesis using wf unfolding pt_wf_def by metis
qed

lemma same_tables_view:
  assumes "pt_wf T root m" "same_tables T m m'" "n < 0x1000000000"
  shows "pt_leaf m' 3 root n = pt_leaf m 3 root n" "pview m' root n = pview m root n"
proof -
  have "T root = Some (3, n div 512 ^ Suc 3)" using wf_root [OF wf_tab [OF assms(1)]] assms(3) by simp
  from same_tables_leaf [OF assms(1,2) this]
  show "pt_leaf m' 3 root n = pt_leaf m 3 root n" "pview m' root n = pview m root n"
    by (simp_all add: pview_view_at)
qed

lemma same_tables_ok: "vm_ok T root s \<Longrightarrow> same_tables T (mem s) m' \<Longrightarrow> vm_ok T root (s\<lparr>mem := m'\<rparr>)"
  using same_tables_wf by (auto simp: vm_ok_def)

lemma same_tables_pages:
  assumes "tab_wf T root" "\<And>a. T (PGADDR a) \<noteq> None \<Longrightarrow> m' a = m a"
  shows "same_tables T m m'"
  using assms wf_aligned [OF assms(1)] by (auto simp: same_tables_def)

lemma spaces_sym: "spaces_ok T1 r1 T2 r2 s \<longleftrightarrow> spaces_ok T2 r2 T1 r1 s"
  by (auto simp: spaces_ok_def)

section \<open>Last-level entries\<close>

lemma pview_leaf0:
  assumes ok: "vm_ok T root s" and v: "pview (mem s) root n = (0, e)" "e \<noteq> 0" and n: "n < 0x1000000000"
  obtains a d where "pt_leaf (mem s) 3 root n = Some (0, a)" "mem s a = e" "T d = Some (0, n div 512)" "a = ent d (pidx 0 n)"
proof -
  obtain a where a: "pt_leaf (mem s) 3 root n = Some (0, a)" "mem s a = e"
    using v by (auto simp: pview_def split: option.splits)
  have "T root = Some (3, n div 512 ^ Suc 3)" using wf_root [OF vm_okD(5) [OF ok]] n by simp
  from pt_leaf_struct [OF vm_okD(1) [OF ok] this a(1)] a that show thesis by auto
qed

lemma leaf0_struct:
  assumes ok: "vm_ok T root s" and a: "pt_leaf (mem s) 3 root n = Some (0, a)" and n: "n < 0x1000000000"
  obtains d where "T d = Some (0, n div 512)" "a = ent d (pidx 0 n)" "pview (mem s) root n = (0, mem s a)"
proof -
  have "T root = Some (3, n div 512 ^ Suc 3)" using wf_root [OF vm_okD(5) [OF ok]] n by simp
  from pt_leaf_struct [OF vm_okD(1) [OF ok] this a] a that show thesis by (auto simp: pview_def)
qed

lemma lookup_from_leaf0:
  "l \<le> 3 \<Longrightarrow> pt_leaf (mem s) l d (vpn va) = Some (0, a) \<Longrightarrow> lookup_from l d va False c s = Some (0, c, Some a, s)"
proof (induction l arbitrary: d)
  case 0
  then show ?case using PDX_vpn [of 0 va] by simp
next
  case (Suc l)
  then show ?case using PDX_vpn [of "Suc l" va] by (auto simp: Let_def pt_leaf_Suc is_leaf_def split: if_splits)
qed

lemma lookup_leaf0: "pt_leaf (mem s) 3 root (vpn va) = Some (0, a) \<Longrightarrow>
   dune_vm_lookup root va False s = Some (0, False, Some a, s)"
  using lookup_from_leaf0 [of 3 s root va a False] by (simp add: dune_vm_lookup_def lookup_internal_from)

lemma hw_leaf0: "l \<le> 3 \<Longrightarrow> pt_leaf m l d (vpn va) = Some (0, a) \<Longrightarrow> pte_present (m a) \<Longrightarrow> hw_leaf m l d va = Some (0, m a)"
proof (induction l arbitrary: d)
  case 0
  then show ?case using PDX_vpn [of 0 va] by (auto simp: Let_def)
next
  case (Suc l)
  then show ?case using PDX_vpn [of "Suc l" va] by (auto simp: Let_def pt_leaf_Suc is_leaf_def split: if_splits)
qed

lemma hw_page_leaf0:
  assumes "pt_leaf m 3 root (vpn va) = Some (0, a)" "pte_present (m a)"
  shows "hw_page m root va = Some (PTE_ADDR (m a))"
proof -
  have 1: "PTE_ADDR (m a) AND NOT (mask 12) = PTE_ADDR (m a)"
    by (rule bit_word_eqI) (auto simp: pte_bits bit_mask_iff)
  have 2: "PGADDR va AND mask 12 = 0"
    by (rule bit_word_eqI) (auto simp: PGADDR_mask bit_simps)
  show ?thesis using hw_leaf0 [OF _ assms] by (simp add: hw_page_def 1 2)
qed

lemma pg_aligned_PTE_ADDR [simp]: "pg_aligned (PTE_ADDR e)"
  unfolding pg_aligned_def PGADDR_mask by (rule bit_word_eqI) (auto simp: pte_bits bit_mask_iff)

lemma leaf0_write:
  assumes ok: "spaces_ok T1 r1 T2 r2 s" and a: "pt_leaf (mem s) 3 r1 n = Some (0, a)" and n: "n < 0x1000000000"
  shows "spaces_ok T1 r1 T2 r2 (wr a v s)"
    and "\<And>k. k < 0x1000000000 \<Longrightarrow> pt_leaf (mem (wr a v s)) 3 r1 k = pt_leaf (mem s) 3 r1 k"
    and "\<And>k. k < 0x1000000000 \<Longrightarrow> pt_leaf (mem (wr a v s)) 3 r2 k = pt_leaf (mem s) 3 r2 k"
    and "\<And>k. k < 0x1000000000 \<Longrightarrow> pview (mem (wr a v s)) r1 k = (if k = n then (0, v) else pview (mem s) r1 k)"
    and "\<And>k. k < 0x1000000000 \<Longrightarrow> pview (mem (wr a v s)) r2 k = pview (mem s) r2 k"
    and "pg_aligned p \<Longrightarrow> T1 p = None \<Longrightarrow> i < 512 \<Longrightarrow> mem (wr a v s) (ent p i) = mem s (ent p i)"
proof -
  have o: "vm_ok T1 r1 s" "vm_ok T2 r2 s" "dom T1 \<inter> dom T2 = {}" using ok by (simp_all add: spaces_ok_def)
  obtain d where d: "T1 d = Some (0, n div 512)" "a = ent d (pidx 0 n)" using leaf0_struct [OF o(1) a n] by blast
  have al: "pg_aligned d" by (rule wf_aligned [OF vm_okD(5) [OF o(1)] d(1)])
  have leaf: "is_leaf 0 (mem s (ent d (pidx 0 n)))" "is_leaf 0 v" by (simp_all add: is_leaf_def)
  note w = vm_okD(1) [OF o(1)]
  have wf: "pt_wf T1 r1 ((mem s)(ent d (pidx 0 n) := v))"
    by (rule pt_wf_leaf_write [where m = "mem s", OF w d(1) pidx_less leaf])
  have "T2 d = None" using o(3) d(1) by auto
  then have st: "same_tables T2 (mem s) ((mem s)(a := v))"
    using al d(2) by (intro same_tables_pages [OF vm_okD(5) [OF o(2)]]) auto
  show "spaces_ok T1 r1 T2 r2 (wr a v s)"
    using o wf same_tables_ok [OF o(2) st] by (simp add: spaces_ok_def vm_ok_def wr_def d(2))
  show "pt_leaf (mem (wr a v s)) 3 r2 k = pt_leaf (mem s) 3 r2 k" "pview (mem (wr a v s)) r2 k = pview (mem s) r2 k"
    if "k < 0x1000000000" for k
    using same_tables_view [OF vm_okD(1) [OF o(2)] st that] by (simp_all add: wr_def)
  show "pt_leaf (mem (wr a v s)) 3 r1 k = pt_leaf (mem s) 3 r1 k" if "k < 0x1000000000" for k
  proof -
    have "T1 r1 = Some (3, k div 512 ^ Suc 3)" using wf_root [OF vm_okD(5) [OF o(1)]] that by simp
    from pt_leaf_leaf_write [where m = "mem s", OF w d(1) pidx_less leaf this] show ?thesis by (simp add: wr_def d(2))
  qed
  have "k = n \<longleftrightarrow> k div 512 ^ 0 = n div 512 * 512 + pidx 0 n" for k using pidx_split [of n 0] by simp
  then show "pview (mem (wr a v s)) r1 k = (if k = n then (0, v) else pview (mem s) r1 k)" if "k < 0x1000000000" for k
    using pview_leaf_write [where m = "mem s", OF w d(1) pidx_less leaf that] by (simp add: wr_def d(2))
  show "pg_aligned p \<Longrightarrow> T1 p = None \<Longrightarrow> i < 512 \<Longrightarrow> mem (wr a v s) (ent p i) = mem s (ent p i)"
    using al d by (auto simp: wr_def)
qed

lemma leaf0_write_other:
  assumes ok: "spaces_ok T1 r1 T2 r2 s" and a: "pt_leaf (mem s) 3 r2 n = Some (0, a)" and n: "n < 0x1000000000"
  shows "spaces_ok T1 r1 T2 r2 (wr a v s)"
    and "\<And>k. k < 0x1000000000 \<Longrightarrow> pt_leaf (mem (wr a v s)) 3 r1 k = pt_leaf (mem s) 3 r1 k"
    and "\<And>k. k < 0x1000000000 \<Longrightarrow> pt_leaf (mem (wr a v s)) 3 r2 k = pt_leaf (mem s) 3 r2 k"
    and "\<And>k. k < 0x1000000000 \<Longrightarrow> pview (mem (wr a v s)) r1 k = pview (mem s) r1 k"
    and "\<And>k. k < 0x1000000000 \<Longrightarrow> pview (mem (wr a v s)) r2 k = (if k = n then (0, v) else pview (mem s) r2 k)"
    and "pg_aligned p \<Longrightarrow> T2 p = None \<Longrightarrow> i < 512 \<Longrightarrow> mem (wr a v s) (ent p i) = mem s (ent p i)"
  using leaf0_write [OF spaces_sym [THEN iffD1, OF ok] a n] spaces_sym by metis+

lemma leaves_distinct:
  assumes "spaces_ok T1 r1 T2 r2 s" "pt_leaf (mem s) 3 r1 n = Some (0, a)" "pt_leaf (mem s) 3 r2 n = Some (0, b)" "n < 0x1000000000"
  shows "a \<noteq> b"
proof
  assume "a = b"
  have o: "vm_ok T1 r1 s" "vm_ok T2 r2 s" "dom T1 \<inter> dom T2 = {}" using assms(1) by (simp_all add: spaces_ok_def)
  obtain d where d: "T1 d = Some (0, n div 512)" "a = ent d (pidx 0 n)" using leaf0_struct [OF o(1) assms(2,4)] by blast
  obtain d' where d': "T2 d' = Some (0, n div 512)" "b = ent d' (pidx 0 n)" using leaf0_struct [OF o(2) assms(3,4)] by blast
  have "d = d'"
    using \<open>a = b\<close> d(2) d'(2) wf_aligned [OF vm_okD(5) [OF o(1)] d(1)] wf_aligned [OF vm_okD(5) [OF o(2)] d'(1)]
    by (metis PGADDR_ent pidx_less)
  then show False using o(3) d(1) d'(1) by auto
qed

lemma fill_page:
  assumes ok: "spaces_ok T1 r1 T2 r2 s" and p: "pg_aligned p" "T1 p = None" "T2 p = None"
  shows "spaces_ok T1 r1 T2 r2 (s\<lparr>mem := memcpy_page p src (mem s)\<rparr>)"
    and "\<And>k. k < 0x1000000000 \<Longrightarrow> pt_leaf (memcpy_page p src (mem s)) 3 r1 k = pt_leaf (mem s) 3 r1 k"
    and "\<And>k. k < 0x1000000000 \<Longrightarrow> pt_leaf (memcpy_page p src (mem s)) 3 r2 k = pt_leaf (mem s) 3 r2 k"
    and "\<And>k. k < 0x1000000000 \<Longrightarrow> pview (memcpy_page p src (mem s)) r1 k = pview (mem s) r1 k"
    and "\<And>k. k < 0x1000000000 \<Longrightarrow> pview (memcpy_page p src (mem s)) r2 k = pview (mem s) r2 k"
proof -
  have o: "vm_ok T1 r1 s" "vm_ok T2 r2 s" "dom T1 \<inter> dom T2 = {}" using ok by (simp_all add: spaces_ok_def)
  have 1: "same_tables T1 (mem s) (memcpy_page p src (mem s))"
    using p by (intro same_tables_pages [OF vm_okD(5) [OF o(1)]]) (auto simp: memcpy_page_def)
  have 2: "same_tables T2 (mem s) (memcpy_page p src (mem s))"
    using p by (intro same_tables_pages [OF vm_okD(5) [OF o(2)]]) (auto simp: memcpy_page_def)
  show "spaces_ok T1 r1 T2 r2 (s\<lparr>mem := memcpy_page p src (mem s)\<rparr>)"
    using same_tables_ok [OF o(1) 1] same_tables_ok [OF o(2) 2] o(3) by (simp add: spaces_ok_def)
  show "\<And>k. k < 0x1000000000 \<Longrightarrow> pt_leaf (memcpy_page p src (mem s)) 3 r1 k = pt_leaf (mem s) 3 r1 k"
    "\<And>k. k < 0x1000000000 \<Longrightarrow> pview (memcpy_page p src (mem s)) r1 k = pview (mem s) r1 k"
    by (rule same_tables_view [OF vm_okD(1) [OF o(1)] 1], assumption)+
  show "\<And>k. k < 0x1000000000 \<Longrightarrow> pt_leaf (memcpy_page p src (mem s)) 3 r2 k = pt_leaf (mem s) 3 r2 k"
    "\<And>k. k < 0x1000000000 \<Longrightarrow> pview (memcpy_page p src (mem s)) r2 k = pview (mem s) r2 k"
    by (rule same_tables_view [OF vm_okD(1) [OF o(2)] 2], assumption)+
qed

section \<open>Pages\<close>

lemma spaces_pool:
  assumes "spaces_ok T1 r1 T2 r2 s" "pool_inv p" "thread_ok p" "in_use (pool s) \<subseteq> in_use p"
  shows "spaces_ok T1 r1 T2 r2 (s\<lparr>pool := p\<rparr>)"
  using assms tables_used_mono by (auto simp: spaces_ok_def vm_ok_def)

lemma fresh_page:
  assumes ok: "spaces_ok T1 r1 T2 r2 s" and free: "pages_free (pool s) (local_list (pool s)) \<noteq> []"
  obtains t p where "alloc_page s = Some (t, s\<lparr>pool := p\<rparr>)" "t \<noteq> 0" "spaces_ok T1 r1 T2 r2 (s\<lparr>pool := p\<rparr>)"
    "pg_aligned t" "T1 t = None" "T2 t = None" "PTE_ADDR t = t" "alloc_spec (pool s) (Some (dune_pa2page t)) p" "thread_ok p"
    "\<And>pa. data_page T1 T2 pa s \<Longrightarrow> pa \<noteq> t"
proof -
  have o: "vm_ok T1 r1 s" "vm_ok T2 r2 s" using ok by (simp_all add: spaces_ok_def)
  note d = vm_okD [OF o(1)]
  obtain pg p where r: "dune_page_alloc (pool s) = Some (Some pg, p)" "alloc_spec (pool s) (Some pg) p" "thread_ok p"
    using dune_page_alloc_nonempty [OF d(2,3) free] by blast
  have pg: "pg < MAX_PAGES" "pg \<notin> in_use (pool s)"
    using r(2) by (auto simp: alloc_spec_def pool_inv_def)
  let ?t = "dune_page2pa pg"
  note rg = dune_page2pa_range [OF pg(1)]
  have nt: "T ?t = None" if "tables_used T (pool s)" for T
  proof (rule ccontr)
    assume "T ?t \<noteq> None"
    then have "dune_pa2page ?t \<in> in_use (pool s)" using that rg unfolding tables_used_def by blast
    then show False using pg by simp
  qed
  have "pa \<noteq> ?t" if "data_page T1 T2 pa s" for pa
    using that rg pg by (auto simp: data_page_def)
  moreover have "spaces_ok T1 r1 T2 r2 (s\<lparr>pool := p\<rparr>)"
    by (rule spaces_pool [OF ok _ r(3) alloc_spec_in_use [OF r(2)]]) (use r(2) in \<open>simp add: alloc_spec_def\<close>)
  ultimately show thesis
    using that [of ?t p] r rg nt [OF d(4)] nt [OF vm_okD(4) [OF o(2)]] pg page_addr_bits [OF pg(1)]
    by (simp add: alloc_page_def)
qed

text \<open>Four tables for the lowest 512 pages.\<close>

definition chain_tables :: "u64 \<Rightarrow> u64 \<Rightarrow> u64 \<Rightarrow> u64 \<Rightarrow> tables" where
  "chain_tables d3 d2 d1 d0 = [d3 \<mapsto> (3, 0), d2 \<mapsto> (2, 0), d1 \<mapsto> (1, 0), d0 \<mapsto> (0, 0)]"

definition chain_cells :: "u64 \<Rightarrow> u64 \<Rightarrow> u64 \<Rightarrow> u64 \<Rightarrow> memory \<Rightarrow> bool" where
  "chain_cells d3 d2 d1 d0 m \<longleftrightarrow> distinct [d3, d2, d1, d0] \<and> list_all (\<lambda>d. PTE_ADDR d = d) [d3, d2, d1, d0] \<and>
     (\<forall>i < 512. m (ent d3 i) = (if i = 0 then PTE_ADDR d2 OR PTE_DEF_FLAGS else 0)) \<and>
     (\<forall>i < 512. m (ent d2 i) = (if i = 0 then PTE_ADDR d1 OR PTE_DEF_FLAGS else 0)) \<and>
     (\<forall>i < 512. m (ent d1 i) = (if i = 0 then PTE_ADDR d0 OR PTE_DEF_FLAGS else 0))"

section \<open>A chain of tables\<close>

lemma chain_wf:
  assumes "chain_cells d3 d2 d1 d0 m"
  shows "pt_wf (chain_tables d3 d2 d1 d0) d3 m"
proof -
  let ?T = "chain_tables d3 d2 d1 d0"
  note c = assms [unfolded chain_cells_def]
  have ad: "PTE_ADDR d3 = d3" "PTE_ADDR d2 = d2" "PTE_ADDR d1 = d1" "PTE_ADDR d0 = d0" using c by simp_all
  then have al: "pg_aligned d3" "pg_aligned d2" "pg_aligned d1" "pg_aligned d0" using pg_aligned_PTE_ADDR by metis+
  have T: "?T d = Some (l, b) \<longleftrightarrow> b = 0 \<and> (d = d3 \<and> l = 3 \<or> d = d2 \<and> l = 2 \<or> d = d1 \<and> l = 1 \<or> d = d0 \<and> l = 0)" for d l b
    using c by (auto simp: chain_tables_def)
  have L: "links m l d i x \<longleftrightarrow> i = 0 \<and> (d = d3 \<and> l = 3 \<and> x = d2 \<or> d = d2 \<and> l = 2 \<and> x = d1 \<or> d = d1 \<and> l = 1 \<and> x = d0)"
    if "?T d = Some (l, b)" "i < 512" for d l b i x
  proof -
    have ds: "d3 \<noteq> d2" "d3 \<noteq> d1" "d3 \<noteq> d0" "d2 \<noteq> d1" "d2 \<noteq> d0" "d1 \<noteq> d0" using c by simp_all
    have e: "m (ent d3 j) = (if j = 0 then PTE_ADDR d2 OR PTE_DEF_FLAGS else 0)"
      "m (ent d2 j) = (if j = 0 then PTE_ADDR d1 OR PTE_DEF_FLAGS else 0)"
      "m (ent d1 j) = (if j = 0 then PTE_ADDR d0 OR PTE_DEF_FLAGS else 0)" if "j < 512" for j using c that by simp_all
    note b = table_entry_bits [of d2] table_entry_bits [of d1] table_entry_bits [of d0]
      PTE_ADDR_table_entry [of d2] PTE_ADDR_table_entry [of d1] PTE_ADDR_table_entry [of d0]
    show ?thesis
      using that(1) [unfolded T] that(2)
      by (elim conjE disjE; cases "i = 0") (auto simp add: links_def is_leaf_def e b [unfolded ad] zero_entry ad ds ds [symmetric])
  qed
  have "tab_wf ?T d3" unfolding tab_wf_def using al c by (auto simp: T)
  moreover have "?T d' = Some (l - 1, b * 512 + i)" if "?T d = Some (l, b)" "i < 512" "links m l d i d'" for d l b i d'
    using that(1,3) L [OF that(1,2)] by (auto simp: T)
  moreover have "\<exists>d. ?T d = Some (Suc l, b div 512) \<and> links m (Suc l) d (b mod 512) d'" if "?T d' = Some (l, b)" "l < 3" for d' l b
  proof -
    have b: "b = 0" "d' = d2 \<and> l = 2 \<or> d' = d1 \<and> l = 1 \<or> d' = d0 \<and> l = 0" using that by (auto simp: T)
    let ?d = "if l = 2 then d3 else if l = 1 then d2 else d1"
    have t: "?T ?d = Some (Suc l, 0)" using b by (auto simp: T)
    show ?thesis by (intro exI [of _ ?d]) (use b t L [OF t, of 0] in auto)
  qed
  ultimately show ?thesis unfolding pt_wf_def by blast
qed

lemma chain_leaf:
  assumes "chain_cells d3 d2 d1 d0 m" "n < 512"
  shows "pt_leaf m 3 d3 n = Some (0, ent d0 n)" "pview m d3 n = (0, m (ent d0 n))"
proof -
  note c = assms(1) [unfolded chain_cells_def]
  have ad: "PTE_ADDR d2 = d2" "PTE_ADDR d1 = d1" "PTE_ADDR d0 = d0" using c by simp_all
  have i: "pidx (Suc l) n = 0" "pidx 0 n = n" for l using assms(2) by (simp_all add: pidx_def div_mult2_eq)
  have "pt_leaf m (Suc (Suc (Suc 0))) d3 n = Some (0, ent d0 n)"
    unfolding pt_leaf_Suc i
    using c table_entry_bits [of d2] table_entry_bits [of d1] table_entry_bits [of d0]
      PTE_ADDR_table_entry [of d2] PTE_ADDR_table_entry [of d1] PTE_ADDR_table_entry [of d0]
    unfolding ad by (simp add: i ad is_leaf_def)
  then show "pt_leaf m 3 d3 n = Some (0, ent d0 n)" by (simp only: numeral_3_eq_3)
  then show "pview m d3 n = (0, m (ent d0 n))" by (simp add: pview_def)
qed

end
