(* ===== verification/Fast_Fault.thy ===== *)
theory Fast_Fault
  imports Fast_Cow Ipi_Ring Two_Tables
begin

text \<open>
  The state of the snapshot facility of \<open>libdune/fast_spawn.c\<close>, its TLB shootdown, and the
  copy-on-write fault handler. The handler runs on one core; what the other cores do to the shared
  state between its steps is an argument, applied before every compare-and-swap and every
  polling read.
\<close>

unbundle bit_operations_syntax

section \<open>State\<close>

datatype thread_state = DUNE_THREAD_NONE | DUNE_THREAD_MAIN | DUNE_THREAD_SNAPSHOT | DUNE_THREAD_PGTBL_COPY

record dbos_snapshot =
  snapshot_table :: u64
  epoch :: u64
  active :: int

definition MAX_SNAPSHOTS :: nat where [consts_def]: "MAX_SNAPSHOTS = 32"

record fast_spawn_state =
  snapshots :: "dbos_snapshot list"
  num_snapshots :: u64
  E_global :: u64
  main_pgroot :: u64
  shadow_pgroot1 :: u64
  shadow_pgroot2 :: u64
  pgroot_snapshot :: u64
  async_copy_job :: bool
  snapshot_worker_ready :: bool
  async_copy_worker_ready :: bool
  tearing_down :: bool
  snapshot_runs_started_version :: int
  snapshot_runs_finished_version :: int
  thread_states :: "nat \<Rightarrow> thread_state"
  thread_pgfaults :: "nat \<Rightarrow> int"
  cow_staging_buffer :: "nat \<Rightarrow> u64"
  ipi_calls :: "nat \<Rightarrow> u64"
  shootdowns :: "nat \<Rightarrow> u64"
  ipi_call_queue_full :: "nat \<Rightarrow> u64"
  write_calls :: "nat \<Rightarrow> u64"
  snapshot_user_work_func :: u64
  snapshot_user_work_func_arg :: u64

text \<open>The arguments of the two kinds of inter-processor calls, in the working pages of the cores.\<close>

record tlb_flush_arg =
  arg_addr :: u64
  ready_to_flush :: bool
  flushed :: bool

record change_pgtbl_arg =
  new_pgroot :: u64
  change_done :: bool

record dune_pv_info =
  pv_flag :: u64
  full_flush_count :: u32

definition DUNE_PV_TLB_IN_HOST :: u64 where [consts_def]: "DUNE_PV_TLB_IN_HOST = 1"
definition DUNE_PV_TLB_FLUSH_ON_REENTRY :: u64 where [consts_def]: "DUNE_PV_TLB_FLUSH_ON_REENTRY = 2"
definition DUNE_PV_CHANGE_GUEST_CR3 :: u64 where [consts_def]: "DUNE_PV_CHANGE_GUEST_CR3 = 4"
definition DUNE_PV_FEATURE_MASK :: u64 where [consts_def]: "DUNE_PV_FEATURE_MASK = 7"
definition DUNE_PV_CHANGE_GUEST_CR3_MASK :: u64 where
  [consts_def]: "DUNE_PV_CHANGE_GUEST_CR3_MASK = 0xFFFFFFFFFFFFFFF8"

text \<open>The global variables, the addresses of the two call functions included.\<close>

record spawn_globals =
  avoid :: pmem
  SNAPSHOT_CORE :: nat
  ASYNC_COPY_CORE :: nat
  cow_pipeline_copy_and_ipi :: bool
  dbos_selective_TLB_shootdown :: bool
  fn_tlb_flush :: u64
  fn_change_pgtable :: u64

record machine =
  vm :: dune
  fs :: fast_spawn_state
  glob :: spawn_globals
  ipi_rings :: cpu_rings
  intr :: apic
  pv :: "nat \<Rightarrow> dune_pv_info"
  kicks :: "nat list"
  tlb_args :: "u64 \<Rightarrow> tlb_flush_arg"
  change_args :: "u64 \<Rightarrow> change_pgtbl_arg"
  cr3 :: "nat \<Rightarrow> u64"
  core :: nat
  clock :: nat

type_synonym others = "nat \<Rightarrow> machine \<Rightarrow> machine"

definition tick :: "others \<Rightarrow> machine \<Rightarrow> machine" where
  "tick env m = env (clock m) (m\<lparr>clock := clock m + 1\<rparr>)"

definition dune_set_thread_state :: "nat \<Rightarrow> thread_state \<Rightarrow> fast_spawn_state \<Rightarrow> fast_spawn_state" where
  "dune_set_thread_state cpu t st = st\<lparr>thread_states := (thread_states st)(cpu := t)\<rparr>"

definition dune_get_thread_state :: "fast_spawn_state \<Rightarrow> nat \<Rightarrow> thread_state" where
  "dune_get_thread_state st cpu = thread_states st cpu"

definition dune_ipi_percpu_working_page :: "nat \<Rightarrow> u64" where
  "dune_ipi_percpu_working_page core_id = IPI_ADDR_WORKING_MEM_BASE + of_nat core_id * PGSIZE"

definition dune_pv_info_for_core :: "nat \<Rightarrow> machine \<Rightarrow> dune_pv_info" where
  "dune_pv_info_for_core c m = pv m c"

definition dune_pv_info_cmpswap :: "nat \<Rightarrow> u64 \<Rightarrow> u64 \<Rightarrow> machine \<Rightarrow> bool \<times> machine" where
  "dune_pv_info_cmpswap c old_flag new_flag m = (
     if pv_flag (pv m c) = old_flag then (True, m\<lparr>pv := (pv m)(c := (pv m c)\<lparr>pv_flag := new_flag\<rparr>)\<rparr>)
     else (False, m))"

definition dune_send_ipi :: "(nat \<Rightarrow> u32) \<Rightarrow> nat \<Rightarrow> machine \<Rightarrow> machine option" where
  "dune_send_ipi icr target m = do {
     a \<leftarrow> dune_apic_send_posted_ipi icr IPI_VECTOR (of_nat target) (intr m);
     Some (m\<lparr>intr := a\<rparr>)
   }"

definition pte_compare_exchange :: "u64 \<Rightarrow> u64 \<Rightarrow> u64 \<Rightarrow> dune \<Rightarrow> bool \<times> dune" where
  "pte_compare_exchange pte old_pte new_pte s = (
     if mem s pte = old_pte then (True, wr pte new_pte s) else (False, s))"

section \<open>TLB shootdown\<close>

text \<open>
  The target is in the host and is, or is made, to flush when it comes back: whether that is so, and
  the flag that was read.
\<close>

definition in_host_flush :: "others \<Rightarrow> nat \<Rightarrow> machine \<Rightarrow> bool \<times> machine" where
  "in_host_flush env target m = (
     let m = tick env m;
         flag = pv_flag (dune_pv_info_for_core target m)
     in if tst flag DUNE_PV_TLB_IN_HOST then
          if tst flag DUNE_PV_TLB_FLUSH_ON_REENTRY then (True, m)
          else dune_pv_info_cmpswap target flag (flag OR DUNE_PV_TLB_FLUSH_ON_REENTRY) (tick env m)
        else (False, m))"

partial_function (option) set_flush_in_guest :: "others \<Rightarrow> nat \<Rightarrow> u64 \<Rightarrow> machine \<Rightarrow> machine option" where
  "set_flush_in_guest env target flag m = (
     let (ok, m) = dune_pv_info_cmpswap target flag (flag OR DUNE_PV_TLB_FLUSH_ON_REENTRY) (tick env m)
     in if ok then Some m
        else set_flush_in_guest env target (pv_flag (dune_pv_info_for_core target m)) m)"

partial_function (option) set_flush_in_host :: "others \<Rightarrow> nat \<Rightarrow> u64 \<Rightarrow> machine \<Rightarrow> machine option" where
  "set_flush_in_host env target flag m = (
     if tst flag DUNE_PV_TLB_FLUSH_ON_REENTRY then Some m
     else
       let (ok, m) = dune_pv_info_cmpswap target flag (flag OR DUNE_PV_TLB_FLUSH_ON_REENTRY) (tick env m)
       in if ok then Some m
          else set_flush_in_host env target (pv_flag (dune_pv_info_for_core target m)) m)"

partial_function (option) wait_full_flush :: "others \<Rightarrow> nat \<Rightarrow> u32 \<Rightarrow> machine \<Rightarrow> machine option" where
  "wait_full_flush env target old m = (
     let m = tick env m
     in if full_flush_count (dune_pv_info_for_core target m) = old then wait_full_flush env target old m
        else Some m)"

partial_function (option) wait_flushed :: "others \<Rightarrow> nat \<Rightarrow> u64 \<Rightarrow> machine \<Rightarrow> machine option" where
  "wait_flushed env target call_arg m = (
     let m = tick env m
     in if flushed (tlb_args m call_arg) then Some m
        else
          let (stop, m) = in_host_flush env target m
          in if stop then Some m else wait_flushed env target call_arg m)"

definition count_shootdown :: "nat \<Rightarrow> machine \<Rightarrow> machine" where
  "count_shootdown src m = m\<lparr>fs := (fs m)\<lparr>shootdowns := (shootdowns (fs m))(src := shootdowns (fs m) src + 1)\<rparr>\<rparr>"

definition count_queue_full :: "nat \<Rightarrow> machine \<Rightarrow> machine" where
  "count_queue_full src m =
     m\<lparr>fs := (fs m)\<lparr>ipi_call_queue_full := (ipi_call_queue_full (fs m))(src := ipi_call_queue_full (fs m) src + 1)\<rparr>\<rparr>"

definition dune_pv_kick :: "nat \<Rightarrow> machine \<Rightarrow> machine" where
  "dune_pv_kick c m = m\<lparr>kicks := kicks m @ [c]\<rparr>"

text \<open>The queue is full: make the target flush everything, by a kick if it is running guest code.\<close>

definition shootdown_queue_full :: "others \<Rightarrow> nat \<Rightarrow> nat \<Rightarrow> machine \<Rightarrow> machine option" where
  "shootdown_queue_full env src target m = (
     let m = tick env m;
         flag = pv_flag (dune_pv_info_for_core target m);
         m = count_queue_full src m
     in if \<not> tst flag DUNE_PV_TLB_IN_HOST then do {
          let old = full_flush_count (dune_pv_info_for_core target m);
          m \<leftarrow> set_flush_in_guest env target flag m;
          m \<leftarrow> wait_full_flush env target old (dune_pv_kick target m);
          Some (count_shootdown src m)
        } else do {
          m \<leftarrow> set_flush_in_host env target flag m;
          Some (count_shootdown src m)
        })"

definition dbos_tlb_shootdown ::
    "others \<Rightarrow> (nat \<Rightarrow> u32) \<Rightarrow> u64 \<Rightarrow> nat \<Rightarrow> nat \<Rightarrow> u64 \<Rightarrow> bool \<Rightarrow> machine \<Rightarrow> machine option" where
  "dbos_tlb_shootdown env icr addr src target call_arg wait_for_flush m = (
     let (posted, m) = in_host_flush env target m
     in if posted then Some (count_shootdown src m)
        else do {
          ensure (dbos_fast_spawn_enabled (avoid (glob m)));
          let msg = \<lparr>msg_func = fn_tlb_flush (glob m), msg_type = CALL_TYPE_BATCHABLE, msg_arg = call_arg\<rparr>;
          (call_num, cr) \<leftarrow> dune_queue_ipi_call_fast src target msg (ipi_rings m);
          m \<leftarrow> dune_send_ipi icr target (m\<lparr>ipi_rings := cr\<rparr>);
          if call_num = IPI_INVALID_NUMBER then shootdown_queue_full env src target m
          else do {
            m \<leftarrow> (if wait_for_flush then wait_flushed env target call_arg m else Some m);
            Some (count_shootdown src m)
          }
        })"

section \<open>The fault handler\<close>

text \<open>\<open>memcpy\<close> from a virtual address reads through the table the core runs on.\<close>

definition copy_page_via :: "u64 \<Rightarrow> u64 \<Rightarrow> u64 \<Rightarrow> dune \<Rightarrow> dune option" where
  "copy_page_via root newPage va s = do {
     pa \<leftarrow> hw_page (mem s) root va;
     ensure (newPage \<noteq> 0);
     Some (s\<lparr>mem := memcpy_page newPage (\<lambda>off. mem s (pa + off)) (mem s)\<rparr>)
   }"

definition put_if_pool :: "u64 \<Rightarrow> dune \<Rightarrow> dune option" where
  "put_if_pool pa s = (
     if dune_page_isfrompool pa (pool s) then do {
       p \<leftarrow> dune_page_put (dune_pa2page pa) (pool s);
       Some (s\<lparr>pool := p\<rparr>)
     } else Some s)"

definition unprotect_flags :: "u64 \<Rightarrow> u64" where
  "unprotect_flags e = (((PTE_FLAGS e AND NOT PTE_COW) OR PTE_W) OR PTE_U OR PTE_A OR PTE_D) AND NOT PTE_LOCK"

definition reprotect_flags :: "u64 \<Rightarrow> u64" where
  "reprotect_flags prm = ((prm OR PTE_COW) AND NOT PTE_W) AND NOT PTE_LOCK"

text \<open>The snapshot's flags: touched and unlocked, then made writable once it has a page of its own.\<close>

definition snapshot_flags :: "u64 \<Rightarrow> u64" where
  "snapshot_flags e = (PTE_FLAGS e OR PTE_D OR PTE_A) AND NOT PTE_LOCK"

definition own_page_flags :: "u64 \<Rightarrow> u64" where
  "own_page_flags e = (snapshot_flags e OR PTE_W) AND NOT PTE_COW"

definition new_tlb_arg :: "u64 \<Rightarrow> u64 \<Rightarrow> bool \<Rightarrow> machine \<Rightarrow> machine" where
  "new_tlb_arg a addr ready m =
     m\<lparr>tlb_args := (tlb_args m)(a := \<lparr>arg_addr = addr, ready_to_flush = ready, flushed = False\<rparr>)\<rparr>"

partial_function (option) wait_ack :: "others \<Rightarrow> u64 \<Rightarrow> machine \<Rightarrow> machine option" where
  "wait_ack env call_arg m = (
     let m = tick env m
     in if flushed (tlb_args m call_arg) then Some m else wait_ack env call_arg m)"

definition dup_page :: "u64 \<Rightarrow> u64 \<Rightarrow> machine \<Rightarrow> (u64 \<times> machine) option" where
  "dup_page root addr m = do {
     (newPage, s) \<leftarrow> alloc_page (vm m);
     s \<leftarrow> copy_page_via root newPage (PGADDR addr) s;
     Some (newPage, m\<lparr>vm := s\<rparr>)
   }"

text \<open>The copy for the snapshot, overlapped with the shootdown.\<close>

definition copy_pipelined ::
    "others \<Rightarrow> (nat \<Rightarrow> u32) \<Rightarrow> u64 \<Rightarrow> u64 \<Rightarrow> u64 \<Rightarrow> u64 \<Rightarrow> machine \<Rightarrow> machine option" where
  "copy_pipelined env icr root addr snapshot_pte locked_pte m = (
     let call_arg = dune_ipi_percpu_working_page (core m)
     in do {
       m \<leftarrow> dbos_tlb_shootdown env icr addr (core m) (SNAPSHOT_CORE (glob m)) call_arg False
              (new_tlb_arg call_arg addr False m);
       (newPage, m) \<leftarrow> dup_page root addr m;
       let m = m\<lparr>vm := wr snapshot_pte (PTE_ADDR newPage OR own_page_flags locked_pte) (vm m),
         tlb_args := (tlb_args m)(call_arg := (tlb_args m call_arg)\<lparr>ready_to_flush := True\<rparr>)\<rparr>;
       let m = m\<lparr>vm := dune_flush_tlb_one addr (vm m)\<rparr>;
       wait_ack env call_arg m
     })"

text \<open>The copy for the snapshot, then the shootdown if the snapshot core may hold the old entry.\<close>

definition copy_then_flush ::
    "others \<Rightarrow> (nat \<Rightarrow> u32) \<Rightarrow> u64 \<Rightarrow> u64 \<Rightarrow> u64 \<Rightarrow> u64 \<Rightarrow> bool \<Rightarrow> machine \<Rightarrow> machine option" where
  "copy_then_flush env icr root addr snapshot_pte locked_pte started m = do {
     (newPage, m) \<leftarrow> dup_page root addr m;
     ensure (PGADDR addr \<noteq> 0);
     let m = tick env m;
     let (ok, s) = pte_compare_exchange snapshot_pte locked_pte (PTE_ADDR newPage OR own_page_flags locked_pte) (vm m);
     let s = (if ok then s else wr snapshot_pte (PTE_ADDR newPage OR own_page_flags (mem s snapshot_pte)) s);
     let need_shootdown = (\<not> ok \<or> tst locked_pte PTE_A);
     let m = m\<lparr>vm := s\<rparr>;
     m \<leftarrow> (if started \<and> (need_shootdown \<or> \<not> dbos_selective_TLB_shootdown (glob m)) then
         let call_arg = dune_ipi_percpu_working_page (core m)
         in dbos_tlb_shootdown env icr addr (core m) (SNAPSHOT_CORE (glob m)) call_arg True
              (new_tlb_arg call_arg addr True m)
       else Some m);
     Some (m\<lparr>fs := (fs m)\<lparr>thread_pgfaults := (thread_pgfaults (fs m))(core m := thread_pgfaults (fs m) (core m) + 1)\<rparr>\<rparr>)
   }"

text \<open>One run up to the end or to the jump back to \<open>retry\<close>; the flag says whether to flush locally.\<close>

datatype attempt = Again machine | Out bool machine

definition main_cow_fault ::
    "others \<Rightarrow> (nat \<Rightarrow> u32) \<Rightarrow> u64 \<Rightarrow> u64 \<Rightarrow> u64 \<Rightarrow> u64 \<Rightarrow> u64 \<Rightarrow> bool \<Rightarrow> machine \<Rightarrow> attempt option" where
  "main_cow_fault env icr root snapshot_root addr pte old_pte started m = do {
     let pte_addr = PTE_ADDR old_pte;
     let prm = unprotect_flags old_pte;
     (rc, _, snapshot_pte, s) \<leftarrow> dune_vm_lookup snapshot_root addr False (vm m);
     snapshot_pte \<leftarrow> snapshot_pte;
     ensure (pte \<noteq> snapshot_pte);
     let old_snapshot_pte = mem s snapshot_pte;
     let new_snapshot_pte = old_snapshot_pte OR PTE_LOCK;
     let m = tick env (m\<lparr>vm := s\<rparr>);
     let (ok, s) = pte_compare_exchange snapshot_pte old_snapshot_pte new_snapshot_pte (vm m);
     let m = m\<lparr>vm := s\<rparr>;
     if \<not> ok then Some (Again (m\<lparr>vm := wr pte (pte_addr OR reprotect_flags prm) s\<rparr>))
     else if pte_addr \<noteq> PTE_ADDR new_snapshot_pte then
       Some (Out True (m\<lparr>vm := wr pte (pte_addr OR prm)
         (wr snapshot_pte (PTE_ADDR new_snapshot_pte OR snapshot_flags new_snapshot_pte) s)\<rparr>))
     else do {
       let pipelined = (cow_pipeline_copy_and_ipi (glob m) \<and> started);
       m \<leftarrow> (if pipelined then copy_pipelined env icr root addr snapshot_pte new_snapshot_pte m
             else copy_then_flush env icr root addr snapshot_pte new_snapshot_pte started m);
       s \<leftarrow> put_if_pool (PTE_ADDR new_snapshot_pte) (vm m);
       Some (Out (\<not> pipelined) (m\<lparr>vm := wr pte (pte_addr OR prm) s\<rparr>))
     }
   }"

definition snapshot_cow_fault :: "u64 \<Rightarrow> u64 \<Rightarrow> u64 \<Rightarrow> u64 \<Rightarrow> machine \<Rightarrow> attempt option" where
  "snapshot_cow_fault root addr pte old_pte m = do {
     (newPage, m) \<leftarrow> dup_page root addr m;
     s \<leftarrow> put_if_pool (PTE_ADDR old_pte) (wr pte (PTE_ADDR newPage OR unprotect_flags old_pte) (vm m));
     Some (Out True (m\<lparr>vm := s\<rparr>))
   }"

definition pgflt_attempt :: "others \<Rightarrow> (nat \<Rightarrow> u32) \<Rightarrow> u64 \<Rightarrow> u64 \<Rightarrow> u64 \<Rightarrow> machine \<Rightarrow> attempt option" where
  "pgflt_attempt env icr root addr fec m = (
     let snapshot_root = pgroot_snapshot (fs m);
         snapshot_pgtable_exists = (snapshot_root \<noteq> 0);
         snapshot = (core m = SNAPSHOT_CORE (glob m))
     in do {
       ensure (if snapshot then (snapshot_pgtable_exists \<longrightarrow> snapshot_root = root) \<and> root \<noteq> main_pgroot (fs m)
               else root = main_pgroot (fs m));
       (rc, _, pte, s) \<leftarrow> dune_vm_lookup root addr False (vm m);
       ensure (rc = 0);
       pte \<leftarrow> pte;
       let old_pte = mem s pte;
       if tst fec FEC_W \<and> tst old_pte PTE_COW \<and> \<not> tst old_pte PTE_W \<and> \<not> tst old_pte PTE_LOCK then do {
         let m = tick env (m\<lparr>vm := s\<rparr>);
         let (ok, s) = pte_compare_exchange pte old_pte (old_pte OR PTE_LOCK) (vm m);
         let m = m\<lparr>vm := s\<rparr>;
         let pte_addr = PTE_ADDR old_pte;
         let started = (dune_get_thread_state (fs m) (SNAPSHOT_CORE (glob m)) = DUNE_THREAD_SNAPSHOT);
         if \<not> ok then Some (Out True m)
         else if dune_page_isfrompool pte_addr (pool s) \<and> page_ref (pool s) (dune_pa2page pte_addr) = 1 then
           Some (Out True (m\<lparr>vm := wr pte (pte_addr OR unprotect_flags old_pte) s\<rparr>))
         else if snapshot then snapshot_cow_fault root addr pte old_pte m
         else if snapshot_pgtable_exists then main_cow_fault env icr root snapshot_root addr pte old_pte started m
         else Some (Out True (m\<lparr>vm := wr pte (pte_addr OR unprotect_flags old_pte) s\<rparr>))
       } else Some (Out True (m\<lparr>vm := s\<rparr>))
     })"

partial_function (option) pgflt_retry ::
    "others \<Rightarrow> (nat \<Rightarrow> u32) \<Rightarrow> u64 \<Rightarrow> u64 \<Rightarrow> u64 \<Rightarrow> machine \<Rightarrow> (bool \<times> machine) option" where
  "pgflt_retry env icr root addr fec m =
     Option.bind (pgflt_attempt env icr root addr fec m) (\<lambda>r. case r of
       Again m \<Rightarrow> pgflt_retry env icr root addr fec m
     | Out need_local_flush m \<Rightarrow> Some (need_local_flush, m))"

definition dbos_fast_spawn_pgflt_handler :: "others \<Rightarrow> (nat \<Rightarrow> u32) \<Rightarrow> u64 \<Rightarrow> u64 \<Rightarrow> machine \<Rightarrow> machine option" where
  "dbos_fast_spawn_pgflt_handler env icr addr fec m = do {
     (need_local_flush, m) \<leftarrow> pgflt_retry env icr (cr3 m (core m)) addr fec m;
     Some (if need_local_flush then m\<lparr>vm := dune_flush_tlb_one addr (vm m)\<rparr> else m)
   }"

definition calm :: "others \<Rightarrow> bool" where
  "calm env \<longleftrightarrow> (\<forall>n m. vm (env n m) = vm m \<and> fs (env n m) = fs m \<and> glob (env n m) = glob m \<and>
     core (env n m) = core m \<and> pv (env n m) = pv m)"

definition shared_cow :: "tables \<Rightarrow> tables \<Rightarrow> u64 \<Rightarrow> u64 \<Rightarrow> u64 \<Rightarrow> machine \<Rightarrow> bool" where
  "shared_cow Tm Ts addr e f m \<longleftrightarrow>
     spaces_ok Tm (main_pgroot (fs m)) Ts (pgroot_snapshot (fs m)) (vm m) \<and> pgroot_snapshot (fs m) \<noteq> 0 \<and>
     pview (mem (vm m)) (main_pgroot (fs m)) (vpn addr) = (0, e) \<and> pte_present e \<and>
     tst e PTE_COW \<and> \<not> tst e PTE_W \<and> \<not> tst e PTE_LOCK \<and>
     pview (mem (vm m)) (pgroot_snapshot (fs m)) (vpn addr) = (0, f) \<and> pte_present f \<and> PTE_ADDR f = PTE_ADDR e \<and>
     data_page Tm Ts (PTE_ADDR e) (vm m) \<and>
     (PAGEBASE \<le> PTE_ADDR e \<longrightarrow> PTE_ADDR e < PAGEBASE_END \<longrightarrow> page_ref (pool (vm m)) (dune_pa2page (PTE_ADDR e)) \<noteq> 1)"

text \<open>A main core on its own table, with a free page at hand, that need not wait for the snapshot core.\<close>

definition main_core_ready :: "u64 \<Rightarrow> machine \<Rightarrow> bool" where
  "main_core_ready f m \<longleftrightarrow>
     core m \<noteq> SNAPSHOT_CORE (glob m) \<and> cr3 m (core m) = main_pgroot (fs m) \<and>
     pages_free (pool (vm m)) (local_list (pool (vm m))) \<noteq> [] \<and>
     (thread_states (fs m) (SNAPSHOT_CORE (glob m)) \<noteq> DUNE_THREAD_SNAPSHOT \<or>
      \<not> cow_pipeline_copy_and_ipi (glob m) \<and>
      (dbos_selective_TLB_shootdown (glob m) \<and> \<not> tst f PTE_A \<or>
       tst (pv_flag (pv m (SNAPSHOT_CORE (glob m)))) DUNE_PV_TLB_IN_HOST))"

text \<open>The copy step: what the two tables and the two pages look like once the snapshot has its own page.\<close>

definition snapshot_copied ::
    "tables \<Rightarrow> u64 \<Rightarrow> tables \<Rightarrow> u64 \<Rightarrow> nat \<Rightarrow> u64 \<Rightarrow> u64 \<Rightarrow> u64 \<Rightarrow> dune \<Rightarrow> dune \<Rightarrow> bool" where
  "snapshot_copied Tm rm Ts rs n pa np v s s' \<longleftrightarrow>
     spaces_ok Tm rm Ts rs s' \<and> Tm np = None \<and> Ts np = None \<and> np \<noteq> pa \<and> same_page (mem s') np (mem s) pa \<and> same_page (mem s') pa (mem s) pa \<and>
     (\<forall>k < 0x1000000000. pt_leaf (mem s') 3 rm k = pt_leaf (mem s) 3 rm k \<and> pview (mem s') rm k = pview (mem s) rm k \<and>
        pview (mem s') rs k = (if k = n then (0, v) else pview (mem s) rs k))"

definition example_cells :: memory where
  "example_cells = (\<lambda>_. 0)(
     ent 0x1000 0 := 0x2007, ent 0x2000 0 := 0x3007, ent 0x3000 0 := 0x4007, ent 0x4000 5 := 0x20205,
     ent 0x11000 0 := 0x12007, ent 0x12000 0 := 0x13007, ent 0x13000 0 := 0x14007, ent 0x14000 5 := 0x20205,
     ent 0x20000 0 := 42)"

definition snapshot_pool :: page_pool where
  "snapshot_pool = example_pool\<lparr>num_pages := 1, pages_free := (\<lambda>_. [])(0 := [0])\<rparr>"

definition example_fs :: fast_spawn_state where
  "example_fs = \<lparr>snapshots = replicate MAX_SNAPSHOTS \<lparr>snapshot_table = 0, epoch = 0, active = 0\<rparr>, num_snapshots = 0,
     E_global = 0, main_pgroot = 0x1000, shadow_pgroot1 = 0, shadow_pgroot2 = 0, pgroot_snapshot = 0x11000,
     async_copy_job = False, snapshot_worker_ready = True, async_copy_worker_ready = True, tearing_down = False,
     snapshot_runs_started_version = 0, snapshot_runs_finished_version = 0, thread_states = (\<lambda>_. DUNE_THREAD_NONE),
     thread_pgfaults = (\<lambda>_. 0), cow_staging_buffer = (\<lambda>_. 0), ipi_calls = (\<lambda>_. 0), shootdowns = (\<lambda>_. 0),
     ipi_call_queue_full = (\<lambda>_. 0), write_calls = (\<lambda>_. 0), snapshot_user_work_func = 0, snapshot_user_work_func_arg = 0\<rparr>"

definition example_machine :: machine where
  "example_machine = \<lparr>vm = \<lparr>mem = example_cells, pool = snapshot_pool, pgroot = 0x1000, tlb_log = []\<rparr>, fs = example_fs,
     glob = \<lparr>avoid = example_pmem, SNAPSHOT_CORE = 2, ASYNC_COPY_CORE = 3, cow_pipeline_copy_and_ipi = False,
       dbos_selective_TLB_shootdown = True, fn_tlb_flush = 0x401000, fn_change_pgtable = 0x402000\<rparr>,
     ipi_rings = example_rings, intr = example_apic, pv = (\<lambda>_. \<lparr>pv_flag = 0, full_flush_count = 0\<rparr>), kicks = [],
     tlb_args = (\<lambda>_. \<lparr>arg_addr = 0, ready_to_flush = False, flushed = False\<rparr>),
     change_args = (\<lambda>_. \<lparr>new_pgroot = 0, change_done = False\<rparr>), cr3 = (\<lambda>_. 0x1000), core = 0, clock = 0\<rparr>"

definition example_main :: tables where "example_main = chain_tables 0x1000 0x2000 0x3000 0x4000"
definition example_snap :: tables where "example_snap = chain_tables 0x11000 0x12000 0x13000 0x14000"

definition snapshot_cow :: "tables \<Rightarrow> tables \<Rightarrow> u64 \<Rightarrow> u64 \<Rightarrow> machine \<Rightarrow> bool" where
  "snapshot_cow Tm Ts addr f m \<longleftrightarrow>
     spaces_ok Tm (main_pgroot (fs m)) Ts (pgroot_snapshot (fs m)) (vm m) \<and>
     core m = SNAPSHOT_CORE (glob m) \<and> cr3 m (core m) = pgroot_snapshot (fs m) \<and>
     pages_free (pool (vm m)) (local_list (pool (vm m))) \<noteq> [] \<and>
     pview (mem (vm m)) (pgroot_snapshot (fs m)) (vpn addr) = (0, f) \<and> pte_present f \<and>
     tst f PTE_COW \<and> \<not> tst f PTE_W \<and> \<not> tst f PTE_LOCK \<and> data_page Tm Ts (PTE_ADDR f) (vm m) \<and>
     (PAGEBASE \<le> PTE_ADDR f \<longrightarrow> PTE_ADDR f < PAGEBASE_END \<longrightarrow> page_ref (pool (vm m)) (dune_pa2page (PTE_ADDR f)) \<noteq> 1)"

section \<open>Other cores that stay off the shared tables\<close>

lemma tick_calm [simp]:
  assumes "calm env"
  shows "vm (tick env m) = vm m" "fs (tick env m) = fs m" "glob (tick env m) = glob m"
    "core (tick env m) = core m" "pv (tick env m) = pv m"
  using assms by (simp_all add: calm_def tick_def)

lemma shootdown_in_host:
  assumes "calm env" "tst (pv_flag (pv m target)) DUNE_PV_TLB_IN_HOST"
  obtains m' where "dbos_tlb_shootdown env icr addr src target arg w m = Some m'"
    "vm m' = vm m" "glob m' = glob m" "core m' = core m" "fs m' = fs (count_shootdown src m)"
    "tst (pv_flag (pv m' target)) DUNE_PV_TLB_FLUSH_ON_REENTRY" "ipi_rings m' = ipi_rings (tick env m) \<or> ipi_rings m' = ipi_rings (tick env (tick env m))"
proof (cases "tst (pv_flag (pv m target)) DUNE_PV_TLB_FLUSH_ON_REENTRY")
  case True
  then show thesis
    using assms by (intro that [of "count_shootdown src (tick env m)"])
      (simp_all add: dbos_tlb_shootdown_def in_host_flush_def dune_pv_info_for_core_def count_shootdown_def Let_def)
next
  case False
  let ?f = "pv_flag (pv m target)"
  let ?m = "(tick env (tick env m))\<lparr>pv := (pv m)(target := (pv m target)\<lparr>pv_flag := ?f OR DUNE_PV_TLB_FLUSH_ON_REENTRY\<rparr>)\<rparr>"
  have "tst (?f OR DUNE_PV_TLB_FLUSH_ON_REENTRY) DUNE_PV_TLB_FLUSH_ON_REENTRY"
    by (simp add: tst_def DUNE_PV_TLB_FLUSH_ON_REENTRY_def bit.conj_disj_distrib2 flip: bit_iff_and_push_bit_not_eq_0)
  then show thesis
    using assms False by (intro that [of "count_shootdown src ?m"])
      (simp_all add: dbos_tlb_shootdown_def in_host_flush_def dune_pv_info_for_core_def dune_pv_info_cmpswap_def count_shootdown_def Let_def)
qed

declare vpn_less [simp]

lemma vpn_PGADDR [simp]: "vpn (PGADDR a) = vpn a"
proof -
  have "(unat a - unat a mod 4096) div 4096 = unat a div 4096"
    by (metis minus_mod_eq_div_mult nonzero_mult_div_cancel_right zero_neq_numeral)
  then show ?thesis by (simp add: vpn_def unat_PGADDR)
qed


section \<open>The copy for the snapshot\<close>

lemma dup_page_ok:
  assumes ok: "spaces_ok T1 r1 T2 r2 (vm m)" and free: "pages_free (pool (vm m)) (local_list (pool (vm m))) \<noteq> []"
    and a: "pt_leaf (mem (vm m)) 3 root (vpn addr) = Some (0, a)" "pte_present (mem (vm m) a)"
  obtains np p where
    "dup_page root addr m = Some (np, m\<lparr>vm := (vm m)\<lparr>pool := p,
       mem := memcpy_page np (\<lambda>off. mem (vm m) (PTE_ADDR (mem (vm m) a) + off)) (mem (vm m))\<rparr>\<rparr>)"
    "np \<noteq> 0" "pg_aligned np" "PTE_ADDR np = np" "T1 np = None" "T2 np = None"
    "alloc_spec (pool (vm m)) (Some (dune_pa2page np)) p" "thread_ok p" "\<And>pa. data_page T1 T2 pa (vm m) \<Longrightarrow> pa \<noteq> np"
proof -
  obtain t p where f: "alloc_page (vm m) = Some (t, (vm m)\<lparr>pool := p\<rparr>)" "t \<noteq> 0"
    "pg_aligned t" "T1 t = None" "T2 t = None" "PTE_ADDR t = t" "alloc_spec (pool (vm m)) (Some (dune_pa2page t)) p" "thread_ok p"
    "\<And>pa. data_page T1 T2 pa (vm m) \<Longrightarrow> pa \<noteq> t"
    using fresh_page [OF ok free] by metis
  have "hw_page (mem (vm m)) root (PGADDR addr) = Some (PTE_ADDR (mem (vm m) a))"
    by (rule hw_page_leaf0) (use a in simp_all)
  then show thesis
    using f by (intro that [of t p]) (simp_all add: dup_page_def copy_page_via_def)
qed

lemma copy_page_content:
  assumes "pg_aligned np" "pg_aligned pa" "pa \<noteq> np"
  shows "same_page (memcpy_page np (\<lambda>off. m (pa + off)) m) np m pa"
    "same_page (memcpy_page np (\<lambda>off. m (pa + off)) m) pa m pa"
  using assms by (simp_all add: same_page_def) (simp add: ent_def)

lemma copy_then_flush_ok:
  assumes "calm env" "PGADDR addr \<noteq> 0" and dup: "dup_page root addr m = Some (np, m1)" "PTE_ADDR np = np"
    and b: "mem (vm m1) b = lk" and gl: "glob m1 = glob m" "core m1 = core m" "pv m1 = pv m"
    and q: "\<not> started \<or> dbos_selective_TLB_shootdown (glob m) \<and> \<not> tst lk PTE_A \<or>
            tst (pv_flag (pv m (SNAPSHOT_CORE (glob m)))) DUNE_PV_TLB_IN_HOST"
  obtains m' where "copy_then_flush env icr root addr b lk started m = Some m'"
    "vm m' = wr b (np OR own_page_flags lk) (vm m1)"
proof (cases "started \<and> (tst lk PTE_A \<or> \<not> dbos_selective_TLB_shootdown (glob m))")
  case True
  let ?c = "dune_ipi_percpu_working_page (core m)"
  let ?m = "new_tlb_arg ?c addr True ((tick env m1)\<lparr>vm := wr b (np OR own_page_flags lk) (vm m1)\<rparr>)"
  have h: "tst (pv_flag (pv ?m (SNAPSHOT_CORE (glob m)))) DUNE_PV_TLB_IN_HOST"
    using True q assms(1) gl by (auto simp: new_tlb_arg_def)
  obtain m2 where m2: "dbos_tlb_shootdown env icr addr (core m) (SNAPSHOT_CORE (glob m)) ?c True ?m = Some m2" "vm m2 = vm ?m"
    using shootdown_in_host [OF assms(1) h] by metis
  show thesis
    using assms True m2
    by (intro that [of "m2\<lparr>fs := (fs m2)\<lparr>thread_pgfaults := (thread_pgfaults (fs m2))(core m2 := thread_pgfaults (fs m2) (core m2) + 1)\<rparr>\<rparr>"]) (simp_all add: copy_then_flush_def pte_compare_exchange_def new_tlb_arg_def)
next
  case False
  then show thesis
    using assms by (intro that) (auto simp: copy_then_flush_def pte_compare_exchange_def)
qed

lemma isfrompool_range: "pool_inv p \<Longrightarrow> dune_page_isfrompool pa p \<Longrightarrow> PAGEBASE \<le> pa \<and> pa < PAGEBASE_END"
  by (auto simp: dune_page_isfrompool_nat pool_inv_def word_le_nat_alt word_less_nat_alt consts_def)

lemma put_keeps_victim: "dune_page_put pg p = Some p' \<Longrightarrow> last_stealed p' = last_stealed p"
  by (auto simp: dune_page_put_def dune_page_free_def insert_free_def Let_def bind_Some_iff split: if_splits)

lemma put_shared_page:
  assumes ok: "spaces_ok T1 r1 T2 r2 s" and dp: "data_page T1 T2 pa s"
    and ref: "PAGEBASE \<le> pa \<Longrightarrow> pa < PAGEBASE_END \<Longrightarrow> page_ref (pool s) (dune_pa2page pa) \<noteq> 1"
  obtains p where "put_if_pool pa s = Some (s\<lparr>pool := p\<rparr>)" "spaces_ok T1 r1 T2 r2 (s\<lparr>pool := p\<rparr>)"
    "page_ref p = (if dune_page_isfrompool pa (pool s)
       then (page_ref (pool s))(dune_pa2page pa := page_ref (pool s) (dune_pa2page pa) - 1) else page_ref (pool s))"
proof (cases "dune_page_isfrompool pa (pool s)")
  case False
  then show thesis using that [of "pool s"] ok by (simp add: put_if_pool_def)
next
  case True
  have d: "pool_inv (pool s)" "thread_ok (pool s)" using ok by (auto simp: spaces_ok_def vm_ok_def)
  note rg = isfrompool_range [OF d(1) True]
  have u: "dune_pa2page pa \<in> in_use (pool s)" "page_ref (pool s) (dune_pa2page pa) \<noteq> 1"
    using dp ref rg by (auto simp: data_page_def)
  obtain p where p: "dune_page_put (dune_pa2page pa) (pool s) = Some p" "pool_inv p" "same_thread (pool s) p"
      "page_ref p = (page_ref (pool s))(dune_pa2page pa := page_ref (pool s) (dune_pa2page pa) - 1)"
    using dune_page_put_Some [OF d(1) u(1) conjunct2 [OF thread_ok_local_list [OF d(2)]]] by blast
  have "in_use (pool s) \<subseteq> in_use p" using u p(4) by (auto simp: in_use_def)
  then have "spaces_ok T1 r1 T2 r2 (s\<lparr>pool := p\<rparr>)"
    using d(2) p put_keeps_victim [OF p(1)] by (intro spaces_pool [OF ok]) (auto simp: thread_ok_def same_thread_def)
  then show thesis using that [of p] True p by (simp add: put_if_pool_def)
qed

section \<open>A write fault on a main core\<close>

lemma lock_bits:
  "PTE_ADDR (e OR PTE_LOCK) = PTE_ADDR e" "pte_present (e OR PTE_LOCK) = pte_present e"
  "tst (e OR PTE_LOCK) PTE_A = tst e PTE_A" "own_page_flags (e OR PTE_LOCK) = own_page_flags e"
  by (auto simp: pte_bits pte_present_bit own_page_flags_def snapshot_flags_def intro!: bit_word_eqI)

lemma leaf0_value: "pt_leaf m 3 root n = Some (0, a) \<Longrightarrow> pview m root n = (0, v) \<Longrightarrow> m a = v"
  by (simp add: pview_def)

lemma same_page_trans: "same_page m p m' p' \<Longrightarrow> same_page m' p' m'' p'' \<Longrightarrow> same_page m p m'' p''"
  by (simp add: same_page_def)

lemma snapshot_copy:
  assumes ok: "spaces_ok Tm rm Ts rs (vm m)" and free: "pages_free (pool (vm m)) (local_list (pool (vm m))) \<noteq> []"
    and a: "pt_leaf (mem (vm m)) 3 rm (vpn addr) = Some (0, a)" "pte_present (mem (vm m) a)"
    and b: "pt_leaf (mem (vm m)) 3 rs (vpn addr) = Some (0, b)" "mem (vm m) b = lk"
    and dp: "data_page Tm Ts (PTE_ADDR (mem (vm m) a)) (vm m)" and env: "calm env" "PGADDR addr \<noteq> 0"
    and q: "\<not> started \<or> dbos_selective_TLB_shootdown (glob m) \<and> \<not> tst lk PTE_A \<or>
            tst (pv_flag (pv m (SNAPSHOT_CORE (glob m)))) DUNE_PV_TLB_IN_HOST"
  obtains m' np p where "copy_then_flush env icr rm addr b lk started m = Some m'"
    "snapshot_copied Tm rm Ts rs (vpn addr) (PTE_ADDR (mem (vm m) a)) np (np OR own_page_flags lk) (vm m) (vm m')"
    "pool (vm m') = p" "alloc_spec (pool (vm m)) (Some (dune_pa2page np)) p" "PTE_ADDR np = np" "pg_aligned np"
proof -
  let ?P = "PTE_ADDR (mem (vm m) a)"
  let ?cp = "\<lambda>np. memcpy_page np (\<lambda>off. mem (vm m) (?P + off)) (mem (vm m))"
  obtain np p where d: "dup_page rm addr m = Some (np, m\<lparr>vm := (vm m)\<lparr>pool := p, mem := ?cp np\<rparr>\<rparr>)"
    "pg_aligned np" "PTE_ADDR np = np" "Tm np = None" "Ts np = None"
    "alloc_spec (pool (vm m)) (Some (dune_pa2page np)) p" "thread_ok p" "?P \<noteq> np"
    using dup_page_ok [OF ok free a] dp by metis
  let ?s = "(vm m)\<lparr>pool := p, mem := ?cp np\<rparr>"
  have ok1: "spaces_ok Tm rm Ts rs ((vm m)\<lparr>pool := p\<rparr>)"
    by (rule spaces_pool [OF ok _ d(7) alloc_spec_in_use [OF d(6)]]) (use d(6) in \<open>simp add: alloc_spec_def\<close>)
  note f = fill_page [OF ok1 d(2,4,5), where src = "\<lambda>off. mem (vm m) (?P + off)", simplified]
  have b1: "pt_leaf (mem ?s) 3 rs (vpn addr) = Some (0, b)" "mem ?s b = lk"
    using b f(3,5) [of "vpn addr"] leaf0_value [of "mem ?s" rs "vpn addr" b lk] by (simp_all add: pview_def)
  have ok2: "spaces_ok Tm rm Ts rs ?s" using f(1) by simp
  note w = leaf0_write_other [OF ok2 b1(1) vpn_less, where v = "np OR own_page_flags lk"]
  obtain m' where m': "copy_then_flush env icr rm addr b lk started m = Some m'" "vm m' = wr b (np OR own_page_flags lk) ?s"
    by (rule copy_then_flush_ok [OF env d(1,3), where b = b and lk = lk and started = started and icr = icr])
      (use b1(2) q in simp_all)
  have al: "pg_aligned ?P" "Ts ?P = None" using dp by (simp_all add: data_page_def)
  have c: "same_page (mem (vm m')) np (?cp np) np" "same_page (mem (vm m')) ?P (?cp np) ?P"
    using w(6) d al by (simp_all add: m' same_page_def)
  have "same_page (mem (vm m')) np (mem (vm m)) ?P" "same_page (mem (vm m')) ?P (mem (vm m)) ?P"
    using c copy_page_content [OF d(2) al(1) d(8), of "mem (vm m)"] same_page_trans by metis+
  moreover have "pool (vm m') = p" by (simp add: m' wr_def)
  ultimately show thesis
    using m' w f d by (intro that [of m' np p]) (auto simp: snapshot_copied_def)
qed

lemma data_page_after_alloc:
  assumes "data_page T1 T2 pa s" "alloc_spec (pool s) (Some pg) (pool s')"
  shows "data_page T1 T2 pa s'"
    "PAGEBASE \<le> pa \<Longrightarrow> pa < PAGEBASE_END \<Longrightarrow> page_ref (pool s') (dune_pa2page pa) = page_ref (pool s) (dune_pa2page pa)"
  using assms by (auto simp: data_page_def alloc_spec_def in_use_def)

lemma main_cow_fault_ok:
  assumes ok: "spaces_ok Tm rm Ts rs (vm m)" and cond: "calm env" "PGADDR addr \<noteq> 0"
    and a: "pt_leaf (mem (vm m)) 3 rm (vpn addr) = Some (0, a)" "mem (vm m) a = e OR PTE_LOCK" "pte_present e"
    and f: "pview (mem (vm m)) rs (vpn addr) = (0, f)" "pte_present f" "PTE_ADDR f = PTE_ADDR e"
    and dp: "data_page Tm Ts (PTE_ADDR e) (vm m)"
    and ref: "PAGEBASE \<le> PTE_ADDR e \<Longrightarrow> PTE_ADDR e < PAGEBASE_END \<Longrightarrow> page_ref (pool (vm m)) (dune_pa2page (PTE_ADDR e)) \<noteq> 1"
    and free: "pages_free (pool (vm m)) (local_list (pool (vm m))) \<noteq> []"
    and q: "\<not> started \<or> \<not> cow_pipeline_copy_and_ipi (glob m) \<and> (dbos_selective_TLB_shootdown (glob m) \<and> \<not> tst f PTE_A \<or>
            tst (pv_flag (pv m (SNAPSHOT_CORE (glob m)))) DUNE_PV_TLB_IN_HOST)"
  obtains m' s4 np where "main_cow_fault env icr rm rs addr a e started m = Some (Out True m')"
    "vm m' = wr a (PTE_ADDR e OR unprotect_flags e) s4"
    "snapshot_copied Tm rm Ts rs (vpn addr) (PTE_ADDR e) np (np OR own_page_flags f) (vm m) s4" "PTE_ADDR np = np"
proof -
  let ?P = "PTE_ADDR e" and ?lk = "f OR PTE_LOCK"
  have o: "vm_ok Ts rs (vm m)" using ok by (simp add: spaces_ok_def)
  have "f \<noteq> 0" using f(2) by (auto simp: zero_entry)
  then obtain b where b: "pt_leaf (mem (vm m)) 3 rs (vpn addr) = Some (0, b)" "mem (vm m) b = f"
    using pview_leaf0 [OF o f(1)] vpn_less by metis
  have ab: "a \<noteq> b" by (rule leaves_distinct [OF ok a(1) b(1) vpn_less])
  note w = leaf0_write_other [OF ok b(1) vpn_less, where v = ?lk]
  let ?m = "(tick env m)\<lparr>vm := wr b ?lk (vm m)\<rparr>"
  have a1: "pt_leaf (mem (vm ?m)) 3 rm (vpn addr) = Some (0, a)" "mem (vm ?m) a = e OR PTE_LOCK"
    using w(2) [of "vpn addr"] a ab by (simp_all add: wr_def)
  have b1: "pt_leaf (mem (vm ?m)) 3 rs (vpn addr) = Some (0, b)" "mem (vm ?m) b = ?lk"
    using w(3) [of "vpn addr"] b by (simp_all add: wr_def)
  have pl: "pool (vm ?m) = pool (vm m)" by (simp add: wr_def)
  have dp1: "data_page Tm Ts ?P (vm ?m)" using dp by (simp add: data_page_def wr_def)
  have pr: "pte_present (mem (vm ?m) a)" using a1(2) a(3) lock_bits(2) by simp
  have dp2: "data_page Tm Ts (PTE_ADDR (mem (vm ?m) a)) (vm ?m)" using dp1 a1(2) lock_bits(1) by simp
  have ok1: "spaces_ok Tm rm Ts rs (vm ?m)" using w(1) by simp
  have free1: "pages_free (pool (vm ?m)) (local_list (pool (vm ?m))) \<noteq> []" unfolding pl by (rule free)
  have q1: "\<not> started \<or> dbos_selective_TLB_shootdown (glob ?m) \<and> \<not> tst ?lk PTE_A \<or>
            tst (pv_flag (pv ?m (SNAPSHOT_CORE (glob ?m)))) DUNE_PV_TLB_IN_HOST"
    using q cond(1) lock_bits(3) by auto
  obtain m3 np p where c: "copy_then_flush env icr rm addr b ?lk started ?m = Some m3"
    "snapshot_copied Tm rm Ts rs (vpn addr) ?P np (np OR own_page_flags f) (vm ?m) (vm m3)"
    "pool (vm m3) = p" "alloc_spec (pool (vm ?m)) (Some (dune_pa2page np)) p" "PTE_ADDR np = np"
    using snapshot_copy [OF ok1 free1 a1(1) pr b1 dp2 cond q1, where icr = icr]
    unfolding a1(2) lock_bits by metis
  have ok3: "spaces_ok Tm rm Ts rs (vm m3)" using c(2) by (simp add: snapshot_copied_def)
  note da = data_page_after_alloc [OF dp1 c(4) [folded c(3)]]
  obtain p' where p': "put_if_pool ?P (vm m3) = Some ((vm m3)\<lparr>pool := p'\<rparr>)" "spaces_ok Tm rm Ts rs ((vm m3)\<lparr>pool := p'\<rparr>)"
    using put_shared_page [OF ok3 da(1)] da(2) ref unfolding pl by metis
  have sc: "snapshot_copied Tm rm Ts rs (vpn addr) ?P np (np OR own_page_flags f) (vm m) ((vm m3)\<lparr>pool := p'\<rparr>)"
    using c(2) p'(2) w dp by (auto simp: snapshot_copied_def same_page_def data_page_def)
  have "main_cow_fault env icr rm rs addr a e started m =
      Some (Out True (m3\<lparr>vm := wr a (?P OR unprotect_flags e) ((vm m3)\<lparr>pool := p'\<rparr>)\<rparr>))"
    using lookup_leaf0 [OF b(1)] ab b(2) c(1) p'(1) f(3) cond(1) q
    by (auto simp: main_cow_fault_def pte_compare_exchange_def lock_bits Let_def)
  then show thesis using that [OF _ _ sc] c(5) by simp
qed

lemma write_fault_attempt:
  assumes "shared_cow Tm Ts addr e f m" "main_core_ready f m" "calm env" "tst fec FEC_W" "PGADDR addr \<noteq> 0"
  obtains m' s4 np a where
    "pgflt_attempt env icr (cr3 m (core m)) addr fec m = Some (Out True m')"
    "pt_leaf (mem (vm m)) 3 (main_pgroot (fs m)) (vpn addr) = Some (0, a)"
    "vm m' = wr a (PTE_ADDR e OR unprotect_flags e) s4" "PTE_ADDR np = np"
    "snapshot_copied Tm (main_pgroot (fs m)) Ts (pgroot_snapshot (fs m)) (vpn addr) (PTE_ADDR e) np (np OR own_page_flags f)
       (wr a (e OR PTE_LOCK) (vm m)) s4"
proof -
  let ?rm = "main_pgroot (fs m)" and ?rs = "pgroot_snapshot (fs m)" and ?P = "PTE_ADDR e"
  note c = assms(1) [unfolded shared_cow_def] and r = assms(2) [unfolded main_core_ready_def]
  have ok: "spaces_ok Tm ?rm Ts ?rs (vm m)" and om: "vm_ok Tm ?rm (vm m)" using c by (auto simp: spaces_ok_def)
  have "e \<noteq> 0" using c by (auto simp: zero_entry)
  then obtain a where a: "pt_leaf (mem (vm m)) 3 ?rm (vpn addr) = Some (0, a)" "mem (vm m) a = e"
    using pview_leaf0 [OF om] c vpn_less by metis
  note w = leaf0_write [OF ok a(1) vpn_less, where v = "e OR PTE_LOCK"]
  let ?m = "(tick env m)\<lparr>vm := wr a (e OR PTE_LOCK) (vm m)\<rparr>"
  let ?st = "thread_states (fs m) (SNAPSHOT_CORE (glob m)) = DUNE_THREAD_SNAPSHOT"
  have pl: "pool (vm ?m) = pool (vm m)" by (simp add: wr_def)
  obtain m' s4 np where h: "main_cow_fault env icr ?rm ?rs addr a e ?st ?m = Some (Out True m')"
    "vm m' = wr a (?P OR unprotect_flags e) s4"
    "snapshot_copied Tm ?rm Ts ?rs (vpn addr) ?P np (np OR own_page_flags f) (vm ?m) s4" "PTE_ADDR np = np"
  proof (rule main_cow_fault_ok [where m = ?m and e = e and f = f and started = ?st and icr = icr])
    show "spaces_ok Tm ?rm Ts ?rs (vm ?m)" using w(1) by simp
    show "pt_leaf (mem (vm ?m)) 3 ?rm (vpn addr) = Some (0, a)" using w(2) [of "vpn addr"] a by simp
    show "pview (mem (vm ?m)) ?rs (vpn addr) = (0, f)" using w(5) [of "vpn addr"] c by simp
    show "data_page Tm Ts ?P (vm ?m)" using c by (simp add: data_page_def wr_def)
    show "pages_free (pool (vm ?m)) (local_list (pool (vm ?m))) \<noteq> []" unfolding pl using r by blast
  qed (use assms c r in \<open>auto simp: wr_def\<close>)
  have att: "pgflt_attempt env icr (cr3 m (core m)) addr fec m = Some (Out True m')"
    using c r assms(3,4) lookup_leaf0 [OF a(1)] a(2) h(1) isfrompool_range vm_okD(2) [OF om]
    by (auto simp: pgflt_attempt_def pte_compare_exchange_def dune_get_thread_state_def Let_def wr_def)
  show thesis by (rule that [OF att a(1) h(2) h(4)]) (use h(3) in simp)
qed

text \<open>
  C2: a write fault of a main core on a copy-on-write page that the snapshot still shares is resolved in
  favour of both sides. The handler returns; the main core keeps the physical page, now writable and
  unlocked, with its contents untouched; the snapshot's entry points, writable, to another page
  with the same contents; every other page of both tables is mapped as before, the tables stay well-formed and
  disjoint, and the stale translation is flushed.
\<close>

theorem write_fault_isolates_snapshot:
  assumes "shared_cow Tm Ts addr e f m" "main_core_ready f m" "calm env" "tst fec FEC_W" "PGADDR addr \<noteq> 0"
  shows "\<exists>m' np. dbos_fast_spawn_pgflt_handler env icr addr fec m = Some m' \<and>
    spaces_ok Tm (main_pgroot (fs m)) Ts (pgroot_snapshot (fs m)) (vm m') \<and>
    (\<forall>k < 0x1000000000.
       pview (mem (vm m')) (main_pgroot (fs m)) k =
         (if k = vpn addr then (0, PTE_ADDR e OR unprotect_flags e) else pview (mem (vm m)) (main_pgroot (fs m)) k) \<and>
       pview (mem (vm m')) (pgroot_snapshot (fs m)) k =
         (if k = vpn addr then (0, np OR own_page_flags f) else pview (mem (vm m)) (pgroot_snapshot (fs m)) k)) \<and>
    np \<noteq> PTE_ADDR e \<and> PTE_ADDR np = np \<and>
    same_page (mem (vm m')) np (mem (vm m)) (PTE_ADDR e) \<and> same_page (mem (vm m')) (PTE_ADDR e) (mem (vm m)) (PTE_ADDR e) \<and>
    last (tlb_log (vm m')) = Flush_One addr"
proof -
  let ?rm = "main_pgroot (fs m)" and ?rs = "pgroot_snapshot (fs m)" and ?P = "PTE_ADDR e"
  obtain m' s4 np a where h: "pgflt_attempt env icr (cr3 m (core m)) addr fec m = Some (Out True m')"
    "pt_leaf (mem (vm m)) 3 ?rm (vpn addr) = Some (0, a)" "vm m' = wr a (?P OR unprotect_flags e) s4" "PTE_ADDR np = np"
    "snapshot_copied Tm ?rm Ts ?rs (vpn addr) ?P np (np OR own_page_flags f) (wr a (e OR PTE_LOCK) (vm m)) s4"
    using write_fault_attempt [OF assms] by metis
  have ok: "spaces_ok Tm ?rm Ts ?rs (vm m)" and dp: "pg_aligned ?P" "Tm ?P = None"
    using assms(1) by (auto simp: shared_cow_def data_page_def)
  note w = leaf0_write [OF ok h(2) vpn_less, where v = "e OR PTE_LOCK"] and s = h(5) [unfolded snapshot_copied_def]
  have a4: "pt_leaf (mem s4) 3 ?rm (vpn addr) = Some (0, a)" using s w(2) [of "vpn addr"] h(2) by simp
  note w4 = leaf0_write [OF conjunct1 [OF s] a4 vpn_less, where v = "?P OR unprotect_flags e"]
  let ?s = "wr a (?P OR unprotect_flags e) s4"
  have np: "pg_aligned np" using h(4) pg_aligned_PTE_ADDR [of np] by simp
  have run: "dbos_fast_spawn_pgflt_handler env icr addr fec m = Some (m'\<lparr>vm := dune_flush_tlb_one addr (vm m')\<rparr>)"
    by (simp add: dbos_fast_spawn_pgflt_handler_def pgflt_retry.simps h(1))
  have "same_page (mem ?s) np (mem (vm m)) ?P" "same_page (mem ?s) ?P (mem (vm m)) ?P"
    using s w(6) [OF dp] w4(6) [OF dp] w4(6) [OF np] by (simp_all add: same_page_def)
  moreover have "spaces_ok Tm ?rm Ts ?rs (dune_flush_tlb_one addr ?s)"
    using w4(1) by (simp add: spaces_ok_def vm_ok_def dune_flush_tlb_one_def)
  moreover have "mem (dune_flush_tlb_one addr ?s) = mem ?s" by (simp add: dune_flush_tlb_one_def)
  ultimately show ?thesis
    using run h(3,4) s w w4 by (intro exI [of _ "m'\<lparr>vm := dune_flush_tlb_one addr (vm m')\<rparr>"] exI [of _ np])
      (simp add: dune_flush_tlb_one_def)
qed

section \<open>A machine with a snapshot\<close>

lemma example_aligned:
  "pg_aligned 0x1000" "pg_aligned 0x2000" "pg_aligned 0x3000" "pg_aligned 0x4000" "pg_aligned 0x11000" "pg_aligned 0x12000"
  "pg_aligned 0x13000" "pg_aligned 0x14000" "pg_aligned 0x20000"
  by (simp_all add: pg_aligned_def PGADDR_def)

lemma example_chains:
  "chain_cells 0x1000 0x2000 0x3000 0x4000 example_cells" "chain_cells 0x11000 0x12000 0x13000 0x14000 example_cells"
  by (auto simp: chain_cells_def example_cells_def example_aligned PTE_ADDR_def PTE_DEF_FLAGS_def consts_def ent_inject)

lemma snapshot_pool_ok: "pool_inv snapshot_pool" "thread_ok snapshot_pool"
proof -
  have "free_mset snapshot_pool = {#0#}"
    by (simp add: free_mset_def snapshot_pool_def NUM_GLOBAL_LISTS_def upt_rec numeral_eq_Suc lessThan_Suc)
  then show "pool_inv snapshot_pool" by (simp add: pool_inv_def snapshot_pool_def example_pool_def MAX_PAGES_def)
  show "thread_ok snapshot_pool" by (simp add: thread_ok_def snapshot_pool_def example_pool_def NUM_GLOBAL_LISTS_def)
qed

lemma example_spaces: "spaces_ok example_main 0x1000 example_snap 0x11000 (vm example_machine)"
proof -
  have "tables_used example_main snapshot_pool" "tables_used example_snap snapshot_pool"
    by (auto simp: tables_used_def example_main_def example_snap_def chain_tables_def PAGEBASE_def split: if_splits)
  moreover have "dom example_main \<inter> dom example_snap = {}"
    by (auto simp: example_main_def example_snap_def chain_tables_def split: if_splits)
  ultimately show ?thesis
    using chain_wf [OF example_chains(1)] chain_wf [OF example_chains(2)] snapshot_pool_ok
    by (simp add: spaces_ok_def vm_ok_def example_machine_def example_main_def example_snap_def)
qed

lemma example_vpn: "vpn 0x5123 = 5" by (simp add: vpn_def)

lemma example_entries:
  "pview example_cells 0x1000 5 = (0, 0x20205)" "pview example_cells 0x11000 5 = (0, 0x20205)"
  by (simp_all add: chain_leaf(2) [OF example_chains(1)] chain_leaf(2) [OF example_chains(2)])
    (simp_all add: example_cells_def example_aligned)

lemma example_shared_cow: "shared_cow example_main example_snap 0x5123 0x20205 0x20205 example_machine"
proof -
  have "data_page example_main example_snap 0x20000 (vm example_machine)"
    by (simp add: data_page_def example_aligned example_main_def example_snap_def chain_tables_def PAGEBASE_def)
  moreover have "PTE_ADDR 0x20205 = 0x20000" by (simp add: PTE_ADDR_def)
  ultimately show ?thesis
    using example_spaces example_entries
    by (simp add: shared_cow_def example_vpn example_machine_def example_fs_def tst_def consts_def pte_present_def PTE_FLAGS_def)
qed

lemma example_ready: "main_core_ready 0x20205 example_machine"
  by (simp add: main_core_ready_def example_machine_def example_fs_def snapshot_pool_def example_pool_def local_list_def)

theorem write_fault_isolates_snapshot_witness:
  "\<exists>m' np. dbos_fast_spawn_pgflt_handler (\<lambda>_ m. m) (\<lambda>_. 0) 0x5123 FEC_W example_machine = Some m' \<and>
     pview (mem (vm m')) 0x11000 5 = (0, np OR own_page_flags 0x20205) \<and> mem (vm m') (ent np 0) = 42"
proof -
  have "tst FEC_W FEC_W" "PGADDR 0x5123 \<noteq> 0" by (simp_all add: FEC_W_def tst_def PGADDR_def)
  moreover have "calm (\<lambda>_ m. m)" by (simp add: calm_def)
  moreover have "PTE_ADDR 0x20205 = 0x20000" by (simp add: PTE_ADDR_def)
  moreover have "main_pgroot (fs example_machine) = 0x1000" "pgroot_snapshot (fs example_machine) = 0x11000"
    "mem (vm example_machine) (ent 0x20000 0) = 42"
    by (simp_all add: example_machine_def example_fs_def example_cells_def)
  ultimately show ?thesis
    using write_fault_isolates_snapshot [OF example_shared_cow example_ready, of "\<lambda>_ m. m" FEC_W "\<lambda>_. 0"] example_vpn
    by (fastforce simp: same_page_def)
qed

section \<open>A write fault on the snapshot core\<close>

lemma snapshot_cow_fault_ok:
  assumes ok: "spaces_ok Tm rm Ts rs (vm m)" and free: "pages_free (pool (vm m)) (local_list (pool (vm m))) \<noteq> []"
    and b: "pt_leaf (mem (vm m)) 3 rs (vpn addr) = Some (0, b)" "mem (vm m) b = f OR PTE_LOCK" "pte_present f"
    and dp: "data_page Tm Ts (PTE_ADDR f) (vm m)"
    and ref: "PAGEBASE \<le> PTE_ADDR f \<Longrightarrow> PTE_ADDR f < PAGEBASE_END \<Longrightarrow> page_ref (pool (vm m)) (dune_pa2page (PTE_ADDR f)) \<noteq> 1"
  obtains m' np where "snapshot_cow_fault rs addr b f m = Some (Out True m')" "PTE_ADDR np = np"
    "snapshot_copied Tm rm Ts rs (vpn addr) (PTE_ADDR f) np (np OR unprotect_flags f) (vm m) (vm m')"
proof -
  let ?P = "PTE_ADDR f"
  let ?cp = "\<lambda>np. memcpy_page np (\<lambda>off. mem (vm m) (?P + off)) (mem (vm m))"
  have pr: "pte_present (mem (vm m) b)" using b lock_bits(2) by simp
  obtain np p where d: "dup_page rs addr m = Some (np, m\<lparr>vm := (vm m)\<lparr>pool := p, mem := ?cp np\<rparr>\<rparr>)"
    "pg_aligned np" "PTE_ADDR np = np" "Tm np = None" "Ts np = None"
    "alloc_spec (pool (vm m)) (Some (dune_pa2page np)) p" "thread_ok p" "?P \<noteq> np"
    using dup_page_ok [OF ok free b(1) pr] dp unfolding b(2) lock_bits(1) by metis
  let ?s = "(vm m)\<lparr>pool := p, mem := ?cp np\<rparr>"
  have ok1: "spaces_ok Tm rm Ts rs ((vm m)\<lparr>pool := p\<rparr>)"
    by (rule spaces_pool [OF ok _ d(7) alloc_spec_in_use [OF d(6)]]) (use d(6) in \<open>simp add: alloc_spec_def\<close>)
  note f = fill_page [OF ok1 d(2,4,5), where src = "\<lambda>off. mem (vm m) (?P + off)", simplified]
  have b1: "pt_leaf (mem ?s) 3 rs (vpn addr) = Some (0, b)" and ok2: "spaces_ok Tm rm Ts rs ?s"
    using b f(1,3) by simp_all
  note w = leaf0_write_other [OF ok2 b1 vpn_less, where v = "np OR unprotect_flags f"]
  let ?s2 = "wr b (np OR unprotect_flags f) ?s"
  have "alloc_spec (pool (vm m)) (Some (dune_pa2page np)) (pool ?s2)" using d(6) by (simp add: wr_def)
  note da = data_page_after_alloc [OF dp this]
  obtain p' where p': "put_if_pool ?P ?s2 = Some (?s2\<lparr>pool := p'\<rparr>)" "spaces_ok Tm rm Ts rs (?s2\<lparr>pool := p'\<rparr>)"
    by (rule put_shared_page [OF w(1) da(1)]) (use da(2) ref in simp_all)
  have al: "pg_aligned ?P" "Ts ?P = None" using dp by (simp_all add: data_page_def)
  have c: "same_page (mem ?s2) np (?cp np) np" "same_page (mem ?s2) ?P (?cp np) ?P"
    using w(6) d al by (simp_all add: same_page_def)
  note cc = copy_page_content [OF d(2) al(1) d(8), of "mem (vm m)"]
  note same_page_trans [OF c(1) cc(1)] same_page_trans [OF c(2) cc(2)]
  then have "snapshot_copied Tm rm Ts rs (vpn addr) ?P np (np OR unprotect_flags f) (vm m) (?s2\<lparr>pool := p'\<rparr>)"
    using w f d p'(2) by (auto simp: snapshot_copied_def)
  then show thesis
    using d(1,3) p'(1) by (intro that [of "m\<lparr>vm := ?s2\<lparr>pool := p'\<rparr>\<rparr>" np]) (simp_all add: snapshot_cow_fault_def)
qed

lemma snapshot_fault_attempt:
  assumes "snapshot_cow Tm Ts addr f m" "calm env" "tst fec FEC_W"
  obtains m' np b where
    "dbos_fast_spawn_pgflt_handler env icr addr fec m = Some (m'\<lparr>vm := dune_flush_tlb_one addr (vm m')\<rparr>)" "PTE_ADDR np = np"
    "pt_leaf (mem (vm m)) 3 (pgroot_snapshot (fs m)) (vpn addr) = Some (0, b)"
    "snapshot_copied Tm (main_pgroot (fs m)) Ts (pgroot_snapshot (fs m)) (vpn addr) (PTE_ADDR f) np (np OR unprotect_flags f)
       (wr b (f OR PTE_LOCK) (vm m)) (vm m')"
proof -
  let ?rm = "main_pgroot (fs m)" and ?rs = "pgroot_snapshot (fs m)" and ?P = "PTE_ADDR f"
  note c = assms(1) [unfolded snapshot_cow_def]
  have ok: "spaces_ok Tm ?rm Ts ?rs (vm m)" and os: "vm_ok Ts ?rs (vm m)" using c by (auto simp: spaces_ok_def)
  have cr: "cr3 m (core m) = ?rs" using c by blast
  have ne: "?rs \<noteq> ?rm"
    using ok wf_root [OF vm_okD(5) [OF os]] wf_root [OF vm_okD(5), of Tm ?rm "vm m"] by (auto simp: spaces_ok_def)
  have "f \<noteq> 0" using c by (auto simp: zero_entry)
  then obtain b where b: "pt_leaf (mem (vm m)) 3 ?rs (vpn addr) = Some (0, b)" "mem (vm m) b = f"
    using pview_leaf0 [OF os] c vpn_less by metis
  note w = leaf0_write_other [OF ok b(1) vpn_less, where v = "f OR PTE_LOCK"]
  let ?m = "(tick env m)\<lparr>vm := wr b (f OR PTE_LOCK) (vm m)\<rparr>"
  have pl: "pool (vm ?m) = pool (vm m)" by (simp add: wr_def)
  obtain m' np where h: "snapshot_cow_fault ?rs addr b f ?m = Some (Out True m')" "PTE_ADDR np = np"
    "snapshot_copied Tm ?rm Ts ?rs (vpn addr) ?P np (np OR unprotect_flags f) (vm ?m) (vm m')"
  proof (rule snapshot_cow_fault_ok [where m = ?m and f = f])
    show "spaces_ok Tm ?rm Ts ?rs (vm ?m)" using w(1) by simp
    show "pt_leaf (mem (vm ?m)) 3 ?rs (vpn addr) = Some (0, b)" using w(3) [of "vpn addr"] b by simp
    show "data_page Tm Ts ?P (vm ?m)" using c by (simp add: data_page_def wr_def)
    show "pages_free (pool (vm ?m)) (local_list (pool (vm ?m))) \<noteq> []" unfolding pl using c by blast
  qed (use c in \<open>auto simp: wr_def\<close>)
  have "pgflt_attempt env icr ?rs addr fec m = Some (Out True m')"
    using c assms(2,3) ne lookup_leaf0 [OF b(1)] b(2) h(1) isfrompool_range vm_okD(2) [OF os]
    by (auto simp: pgflt_attempt_def pte_compare_exchange_def Let_def wr_def)
  then have run: "dbos_fast_spawn_pgflt_handler env icr addr fec m = Some (m'\<lparr>vm := dune_flush_tlb_one addr (vm m')\<rparr>)"
    by (simp add: dbos_fast_spawn_pgflt_handler_def pgflt_retry.simps cr)
  show thesis by (rule that [OF run h(2) b(1)]) (use h(3) in simp)
qed

text \<open>
  C6: a write fault of the snapshot core on a copy-on-write page gives the snapshot a page of its own with the
  same contents, and the main table keeps every mapping and the contents of the page it still uses.
\<close>

theorem snapshot_fault_isolates_main:
  assumes "snapshot_cow Tm Ts addr f m" "calm env" "tst fec FEC_W"
  shows "\<exists>m' np. dbos_fast_spawn_pgflt_handler env icr addr fec m = Some m' \<and>
    spaces_ok Tm (main_pgroot (fs m)) Ts (pgroot_snapshot (fs m)) (vm m') \<and>
    (\<forall>k < 0x1000000000.
       pview (mem (vm m')) (main_pgroot (fs m)) k = pview (mem (vm m)) (main_pgroot (fs m)) k \<and>
       pview (mem (vm m')) (pgroot_snapshot (fs m)) k =
         (if k = vpn addr then (0, np OR unprotect_flags f) else pview (mem (vm m)) (pgroot_snapshot (fs m)) k)) \<and>
    np \<noteq> PTE_ADDR f \<and> PTE_ADDR np = np \<and>
    same_page (mem (vm m')) np (mem (vm m)) (PTE_ADDR f) \<and> same_page (mem (vm m')) (PTE_ADDR f) (mem (vm m)) (PTE_ADDR f)"
proof -
  let ?rm = "main_pgroot (fs m)" and ?rs = "pgroot_snapshot (fs m)" and ?P = "PTE_ADDR f"
  obtain m' np b where
    h: "dbos_fast_spawn_pgflt_handler env icr addr fec m = Some (m'\<lparr>vm := dune_flush_tlb_one addr (vm m')\<rparr>)" "PTE_ADDR np = np"
    "pt_leaf (mem (vm m)) 3 ?rs (vpn addr) = Some (0, b)"
    "snapshot_copied Tm ?rm Ts ?rs (vpn addr) ?P np (np OR unprotect_flags f) (wr b (f OR PTE_LOCK) (vm m)) (vm m')"
    using snapshot_fault_attempt [OF assms] by metis
  have ok: "spaces_ok Tm ?rm Ts ?rs (vm m)" and dp: "pg_aligned ?P" "Ts ?P = None"
    using assms(1) by (auto simp: snapshot_cow_def data_page_def)
  note w = leaf0_write_other [OF ok h(3) vpn_less, where v = "f OR PTE_LOCK"] and s = h(4) [unfolded snapshot_copied_def]
  have "spaces_ok Tm ?rm Ts ?rs (dune_flush_tlb_one addr (vm m'))"
    using s by (simp add: spaces_ok_def vm_ok_def dune_flush_tlb_one_def)
  then show ?thesis
    using h(1,2) s w w(6) [OF dp] by (intro exI [of _ "m'\<lparr>vm := dune_flush_tlb_one addr (vm m')\<rparr>"] exI [of _ np])
      (auto simp: dune_flush_tlb_one_def same_page_def)
qed

theorem snapshot_fault_isolates_main_witness:
  "\<exists>m' np. dbos_fast_spawn_pgflt_handler (\<lambda>_ m. m) (\<lambda>_. 0) 0x5123 FEC_W
      (example_machine\<lparr>core := 2, cr3 := (\<lambda>_. 0x11000)\<rparr>) = Some m' \<and>
    pview (mem (vm m')) 0x11000 5 = (0, np OR unprotect_flags 0x20205) \<and> pview (mem (vm m')) 0x1000 5 = (0, 0x20205)"
proof -
  let ?m = "example_machine\<lparr>core := 2, cr3 := (\<lambda>_. 0x11000)\<rparr>"
  have "snapshot_cow example_main example_snap 0x5123 0x20205 ?m"
    using example_shared_cow example_ready by (simp add: snapshot_cow_def shared_cow_def main_core_ready_def)
      (simp add: example_machine_def example_fs_def)
  moreover have "tst FEC_W FEC_W" by (simp add: FEC_W_def tst_def)
  moreover have "calm (\<lambda>_ m. m)" by (simp add: calm_def)
  moreover have "main_pgroot (fs ?m) = 0x1000" "pgroot_snapshot (fs ?m) = 0x11000" "mem (vm ?m) = example_cells"
    by (simp_all add: example_machine_def example_fs_def)
  ultimately show ?thesis
    using snapshot_fault_isolates_main [of example_main example_snap "0x5123" "0x20205" ?m "\<lambda>_ m. m" FEC_W "\<lambda>_. 0"]
      example_vpn example_entries by fastforce
qed

section \<open>Faults that change nothing, and the flaws of the protocol\<close>

lemma wait_ack_returns:
  "wait_ack env call_arg m = Some m' \<Longrightarrow> (\<forall>n m. tlb_args (env n m) = tlb_args m) \<longrightarrow> flushed (tlb_args m call_arg)"
  by (rule wait_ack.raw_induct [where P = "\<lambda>env c m _. (\<forall>n m. tlb_args (env n m) = tlb_args m) \<longrightarrow> flushed (tlb_args m c)", rotated])
    (auto simp: Let_def tick_def split: if_splits)

lemma dup_page_args: "dup_page root addr m = Some (np, m') \<Longrightarrow> tlb_args m' = tlb_args m"
  by (auto simp: dup_page_def bind_Some_iff)

lemma shootdown_args:
  assumes "calm env" "\<forall>n m. tlb_args (env n m) = tlb_args m" "tst (pv_flag (pv m target)) DUNE_PV_TLB_IN_HOST"
    "dbos_tlb_shootdown env icr addr src target arg w m = Some m'"
  shows "tlb_args m' = tlb_args m"
proof -
  have "tlb_args (tick env m) = tlb_args m" for m using assms(2) by (simp add: tick_def)
  then show ?thesis
    using assms by (auto simp: dbos_tlb_shootdown_def in_host_flush_def dune_pv_info_for_core_def dune_pv_info_cmpswap_def
        count_shootdown_def Let_def split: if_splits)
qed

text \<open>
  C24: a fault that is no write, or that finds the page writable, not marked copy-on-write or locked by
  another core, only flushes the stale translation: memory, tables, pool and the facility's state are as before.
\<close>

theorem spurious_fault_only_flushes:
  assumes "vm_ok T (cr3 m (core m)) (vm m)" "core m \<noteq> SNAPSHOT_CORE (glob m)" "cr3 m (core m) = main_pgroot (fs m)"
    and "pview (mem (vm m)) (cr3 m (core m)) (vpn addr) = (0, e)" "e \<noteq> 0"
    and "\<not> tst fec FEC_W \<or> \<not> tst e PTE_COW \<or> tst e PTE_W \<or> tst e PTE_LOCK"
  shows "dbos_fast_spawn_pgflt_handler env icr addr fec m = Some (m\<lparr>vm := dune_flush_tlb_one addr (vm m)\<rparr>)"
proof -
  obtain a where a: "pt_leaf (mem (vm m)) 3 (cr3 m (core m)) (vpn addr) = Some (0, a)" "mem (vm m) a = e"
    using pview_leaf0 [OF assms(1,4,5)] vpn_less by metis
  have "pgflt_attempt env icr (cr3 m (core m)) addr fec m = Some (Out True m)"
    using lookup_leaf0 [OF a(1)] a(2) assms(2,3,6) by (auto simp: pgflt_attempt_def Let_def)
  then show ?thesis by (simp add: dbos_fast_spawn_pgflt_handler_def pgflt_retry.simps)
qed

theorem spurious_fault_only_flushes_witness:
  "dbos_fast_spawn_pgflt_handler (\<lambda>_ m. m) (\<lambda>_. 0) 0x5123 0 example_machine =
     Some (example_machine\<lparr>vm := dune_flush_tlb_one 0x5123 (vm example_machine)\<rparr>)"
proof -
  have "cr3 example_machine (core example_machine) = 0x1000" "core example_machine \<noteq> SNAPSHOT_CORE (glob example_machine)"
    "main_pgroot (fs example_machine) = 0x1000" "mem (vm example_machine) = example_cells"
    by (simp_all add: example_machine_def example_fs_def)
  moreover have "vm_ok example_main 0x1000 (vm example_machine)" using example_spaces by (simp add: spaces_ok_def)
  moreover have "\<not> tst 0 FEC_W" by (simp add: tst_def)
  ultimately show ?thesis
    using spurious_fault_only_flushes [of example_main example_machine "0x5123" "0x20205" 0] example_vpn example_entries by simp
qed





end
