(* ===== verification/Fast_Snapshot.thy ===== *)
theory Fast_Snapshot
  imports Fast_Fault
begin

text \<open>
  The rest of \<open>libdune/fast_spawn.c\<close>: the inter-processor calls the facility serves, taking a snapshot
  and switching the cores to the new tables, the two worker threads, configuration, and the system
  calls that are patched on the snapshot core. A step relation interleaves the thread that takes a
  snapshot with the two workers.
\<close>

unbundle bit_operations_syntax

section \<open>Inter-processor calls\<close>

definition set_flushed :: "u64 \<Rightarrow> machine \<Rightarrow> machine" where
  "set_flushed a m = m\<lparr>tlb_args := (tlb_args m)(a := (tlb_args m a)\<lparr>flushed := True\<rparr>)\<rparr>"

definition flush_local :: "u64 \<Rightarrow> machine \<Rightarrow> machine" where
  "flush_local addr m = m\<lparr>vm := dune_flush_tlb_one addr (vm m)\<rparr>"

definition count_ipi_calls :: "u64 \<Rightarrow> machine \<Rightarrow> machine" where
  "count_ipi_calls n m =
     m\<lparr>fs := (fs m)\<lparr>ipi_calls := (ipi_calls (fs m))(core m := ipi_calls (fs m) (core m) + n)\<rparr>\<rparr>"

partial_function (option) wait_ready :: "others \<Rightarrow> u64 \<Rightarrow> machine \<Rightarrow> machine option" where
  "wait_ready env call_arg m = (
     let m = tick env m
     in if ready_to_flush (tlb_args m call_arg) then Some m else wait_ready env call_arg m)"

definition snapshot_worker_tlb_flush :: "others \<Rightarrow> u64 \<Rightarrow> machine \<Rightarrow> machine option" where
  "snapshot_worker_tlb_flush env call_arg m = do {
     m \<leftarrow> wait_ready env call_arg (count_ipi_calls 1 m);
     let m = set_flushed call_arg m;
     Some (flush_local (arg_addr (tlb_args m call_arg)) m)
   }"

definition change_pgtable_ipi_call :: "u64 \<Rightarrow> machine \<Rightarrow> machine option" where
  "change_pgtable_ipi_call call_arg m = do {
     ensure (\<not> change_done (change_args m call_arg));
     let m = m\<lparr>cr3 := (cr3 m)(core m := new_pgroot (change_args m call_arg))\<rparr>;
     Some (m\<lparr>change_args := (change_args m)(call_arg := (change_args m call_arg)\<lparr>change_done := True\<rparr>)\<rparr>)
   }"

text \<open>
  The batched form. With the pipelined copy, passes over the messages until every one was ready
  once; \<open>flushed\<close> is the local array.
\<close>

primrec flush_pass ::
    "others \<Rightarrow> ipi_message list \<Rightarrow> nat list \<Rightarrow> bool \<times> (nat \<Rightarrow> bool) \<times> machine \<Rightarrow> bool \<times> (nat \<Rightarrow> bool) \<times> machine" where
  "flush_pass env msgs [] st = st"
| "flush_pass env msgs (i # is) st = (
     let (all_flushed, fl, m) = st
     in if fl i then flush_pass env msgs is st
        else
          let m = tick env m; a = msg_arg (msgs ! i)
          in if \<not> ready_to_flush (tlb_args m a) then flush_pass env msgs is (False, fl, m)
             else flush_pass env msgs is (all_flushed, fl(i := True), flush_local (arg_addr (tlb_args m a)) (set_flushed a m)))"

partial_function (option) flush_passes :: "others \<Rightarrow> ipi_message list \<Rightarrow> (nat \<Rightarrow> bool) \<Rightarrow> machine \<Rightarrow> machine option" where
  "flush_passes env msgs fl m = (
     let (all_flushed, fl, m) = flush_pass env msgs [0 ..< length msgs] (True, fl, m)
     in if all_flushed then Some m else flush_passes env msgs fl m)"

text \<open>
  Otherwise every address is read first, through the \<open>i\<close>-th element after the argument of message
  \<open>i\<close> (an element has 16 bytes), and every argument is acknowledged; then the addresses are flushed.
\<close>

primrec collect_addrs :: "ipi_message list \<Rightarrow> nat list \<Rightarrow> machine \<Rightarrow> (u64 list \<times> machine) option" where
  "collect_addrs msgs [] m = Some ([], m)"
| "collect_addrs msgs (i # is) m = (
     let a = msg_arg (msgs ! i);
         addr = arg_addr (tlb_args m (a + 16 * of_nat i))
     in do {
       ensure (ready_to_flush (tlb_args m a));
       (addrs, m) \<leftarrow> collect_addrs msgs is (set_flushed a m);
       Some (addr # addrs, m)
     })"

definition snapshot_worker_tlb_flush_batch :: "others \<Rightarrow> ipi_message list \<Rightarrow> machine \<Rightarrow> machine option" where
  "snapshot_worker_tlb_flush_batch env msgs m = do {
     ensure (dbos_fast_spawn_enabled (avoid (glob m)));
     let m = count_ipi_calls (of_nat (length msgs)) m;
     if cow_pipeline_copy_and_ipi (glob m) then flush_passes env msgs (\<lambda>_. False) m
     else do {
       (addrs, m) \<leftarrow> collect_addrs msgs [0 ..< length msgs] m;
       Some (fold flush_local addrs m)
     }
   }"

section \<open>Snapshots\<close>

definition dune_fast_spawn_snapshot_running :: "fast_spawn_state \<Rightarrow> bool option" where
  "dune_fast_spawn_snapshot_running st = (
     if snapshot_runs_started_version st > 0 then do {
       ensure (snapshot_runs_finished_version st \<le> snapshot_runs_started_version st);
       ensure (snapshot_runs_finished_version st < snapshot_runs_started_version st \<longrightarrow>
               snapshot_runs_finished_version st + 1 = snapshot_runs_started_version st);
       Some (snapshot_runs_finished_version st + 1 = snapshot_runs_started_version st)
     } else Some False)"

text \<open>The index of the new snapshot; the array has room for \<^const>\<open>MAX_SNAPSHOTS\<close>.\<close>

definition dbos_fast_spawn :: "u64 \<Rightarrow> u64 \<Rightarrow> machine \<Rightarrow> (nat \<times> machine) option" where
  "dbos_fast_spawn args root m = (
     let st = fs m;
         i = unat (num_snapshots st);
         st = st\<lparr>num_snapshots := num_snapshots st + 1\<rparr>
     in do {
       ensure (i < length (snapshots st));
       (table, s) \<leftarrow> dune_vm_my_fast_clone (avoid (glob m)) args root (vm m);
       let st = st\<lparr>E_global := E_global st + 1\<rparr>;
       let st = st\<lparr>snapshots := (snapshots st)[i := \<lparr>snapshot_table = table, epoch = E_global st, active = 0\<rparr>]\<rparr>;
       Some (i, m\<lparr>vm := s, fs := st\<rparr>)
     })"

text \<open>The pieces of \<open>dune_fast_spawn_on_snapshot\<close> that change the shared state.\<close>

definition shadows_ready :: "fast_spawn_state \<Rightarrow> bool" where
  "shadows_ready st \<longleftrightarrow> \<not> (shadow_pgroot1 st = 0 \<or> shadow_pgroot2 st = 0 \<or> snapshot_user_work_func st \<noteq> 0)"

definition take_shadows :: "fast_spawn_state \<Rightarrow> fast_spawn_state" where
  "take_shadows st = st\<lparr>main_pgroot := shadow_pgroot1 st, pgroot_snapshot := shadow_pgroot2 st\<rparr>"

definition publish_work :: "u64 \<Rightarrow> u64 \<Rightarrow> fast_spawn_state \<Rightarrow> fast_spawn_state" where
  "publish_work func arg st = st\<lparr>snapshot_user_work_func := func, snapshot_user_work_func_arg := arg\<rparr>"

definition clear_shadows :: "fast_spawn_state \<Rightarrow> fast_spawn_state" where
  "clear_shadows st = st\<lparr>shadow_pgroot1 := 0, shadow_pgroot2 := 0\<rparr>"

definition dune_fast_spawn_signal_copy_worker :: "fast_spawn_state \<Rightarrow> fast_spawn_state" where
  "dune_fast_spawn_signal_copy_worker st = st\<lparr>async_copy_job := True\<rparr>"

partial_function (option) wait_shadows :: "others \<Rightarrow> machine \<Rightarrow> machine option" where
  "wait_shadows env m = (
     let m = tick env m in if shadows_ready (fs m) then Some m else wait_shadows env m)"

partial_function (option) wait_snapshot_thread :: "others \<Rightarrow> machine \<Rightarrow> machine option" where
  "wait_snapshot_thread env m = (
     let m = tick env m
     in if dune_get_thread_state (fs m) (SNAPSHOT_CORE (glob m)) = DUNE_THREAD_SNAPSHOT then Some m
        else wait_snapshot_thread env m)"

text \<open>The new root is handed to a core that is in the host through its flag word.\<close>

definition cr3_request :: "u64 \<Rightarrow> u64 \<Rightarrow> u64" where
  "cr3_request flag new_cr3 = (flag AND DUNE_PV_FEATURE_MASK) OR DUNE_PV_CHANGE_GUEST_CR3 OR new_cr3"

definition post_cr3 :: "others \<Rightarrow> nat \<Rightarrow> machine \<Rightarrow> bool \<times> machine" where
  "post_cr3 env i m = (
     let m = tick env m;
         new_cr3 = main_pgroot (fs m);
         flag = pv_flag (dune_pv_info_for_core i m)
     in if tst flag DUNE_PV_TLB_IN_HOST then dune_pv_info_cmpswap i flag (cr3_request flag new_cr3) (tick env m)
        else (False, m))"

definition change_arg_of :: "nat \<Rightarrow> nat \<Rightarrow> u64" where
  "change_arg_of cpu i = dune_ipi_percpu_working_page cpu + 16 * of_nat i"

definition runs_main_table :: "fast_spawn_state \<Rightarrow> nat \<Rightarrow> bool" where
  "runs_main_table st i \<longleftrightarrow> dune_get_thread_state st i \<in> {DUNE_THREAD_MAIN, DUNE_THREAD_PGTBL_COPY}"

text \<open>Both loops over the cores: the cores that were sent a message, and the count the code prints.\<close>

primrec switch_cores ::
    "others \<Rightarrow> (nat \<Rightarrow> u32) \<Rightarrow> nat list \<Rightarrow> nat list \<times> nat \<times> machine \<Rightarrow> (nat list \<times> nat \<times> machine) option" where
  "switch_cores env icr [] st = Some st"
| "switch_cores env icr (i # is) st = (
     let (sent_ipi, switched_count, m) = st
     in if i = core m \<or> \<not> runs_main_table (fs m) i then switch_cores env icr is st
        else
          let (posted, m) = post_cr3 env i m
          in if posted then switch_cores env icr is (sent_ipi, switched_count + 1, m)
             else do {
               let a = change_arg_of (core m) i;
               let m = m\<lparr>change_args := (change_args m)(a := \<lparr>new_pgroot = shadow_pgroot1 (fs m), change_done = False\<rparr>)\<rparr>;
               let msg = \<lparr>msg_func = fn_change_pgtable (glob m), msg_type = CALL_TYPE_NON_BATCHABLE, msg_arg = a\<rparr>;
               (_, cr) \<leftarrow> dune_queue_ipi_call_fast (core m) i msg (ipi_rings m);
               m \<leftarrow> dune_send_ipi icr i (m\<lparr>ipi_rings := cr\<rparr>);
               switch_cores env icr is (sent_ipi @ [i], switched_count, m)
             })"

partial_function (option) await_switch :: "others \<Rightarrow> nat \<Rightarrow> nat \<times> machine \<Rightarrow> (nat \<times> machine) option" where
  "await_switch env i st = (
     let (switched_count, m) = st;
         m = tick env m
     in if change_done (change_args m (change_arg_of (core m) i)) then Some (switched_count + 1, m)
        else
          let (posted, m) = post_cr3 env i m
          in if posted then Some (switched_count + 1 + 1, m) else await_switch env i (switched_count, m))"

primrec await_switches :: "others \<Rightarrow> nat list \<Rightarrow> nat \<times> machine \<Rightarrow> (nat \<times> machine) option" where
  "await_switches env [] st = Some st"
| "await_switches env (i # is) st = do { st \<leftarrow> await_switch env i st; await_switches env is st }"

definition dune_fast_spawn_on_snapshot ::
    "others \<Rightarrow> (nat \<Rightarrow> u32) \<Rightarrow> u64 \<Rightarrow> u64 \<Rightarrow> machine \<Rightarrow> (nat \<times> machine) option" where
  "dune_fast_spawn_on_snapshot env icr snapshot_worker arg m = do {
     m \<leftarrow> wait_shadows env m;
     let m = m\<lparr>fs := take_shadows (fs m)\<rparr>;
     (sent_ipi, n, m) \<leftarrow> switch_cores env icr [0 ..< 128] ([], 0, m);
     (n, m) \<leftarrow> await_switches env sent_ipi (n, m);
     let m = m\<lparr>fs := clear_shadows (publish_work snapshot_worker arg (fs m))\<rparr>;
     let m = m\<lparr>cr3 := (cr3 m)(core m := main_pgroot (fs m)), vm := (vm m)\<lparr>pgroot := main_pgroot (fs m)\<rparr>\<rparr>;
     m \<leftarrow> wait_snapshot_thread env m;
     Some (n, m\<lparr>fs := dune_fast_spawn_signal_copy_worker (fs m)\<rparr>)
   }"

section \<open>The worker threads\<close>

text \<open>
  One round of the snapshot worker: up to the call of the user's function, and the two parts of what
  follows it (before and after the work function is cleared).
\<close>

definition announce_run :: "nat \<Rightarrow> fast_spawn_state \<Rightarrow> fast_spawn_state" where
  "announce_run cpu st = dune_set_thread_state cpu DUNE_THREAD_SNAPSHOT
     (st\<lparr>snapshot_runs_started_version := snapshot_runs_started_version st + 1\<rparr>)"

definition snapshot_worker_start :: "machine \<Rightarrow> machine option" where
  "snapshot_worker_start m = do {
     ensure (pgroot_snapshot (fs m) \<noteq> 0);
     let m = m\<lparr>cr3 := (cr3 m)(core m := pgroot_snapshot (fs m))\<rparr>;
     Some (m\<lparr>fs := announce_run (core m) (fs m)\<rparr>)
   }"

definition end_run :: "nat \<Rightarrow> fast_spawn_state \<Rightarrow> fast_spawn_state" where
  "end_run cpu st = (
     let st = st\<lparr>snapshot_runs_finished_version := snapshot_runs_finished_version st + 1\<rparr>;
         st = dune_set_thread_state cpu DUNE_THREAD_NONE st
     in st\<lparr>snapshot_user_work_func := 0\<rparr>)"

definition drop_snapshot_root :: "fast_spawn_state \<Rightarrow> fast_spawn_state" where
  "drop_snapshot_root st = st\<lparr>snapshot_user_work_func_arg := 0, pgroot_snapshot := 0\<rparr>"

definition snapshot_worker_finish :: "machine \<Rightarrow> machine" where
  "snapshot_worker_finish m = m\<lparr>fs := drop_snapshot_root (end_run (core m) (fs m))\<rparr>"

text \<open>One round of the copy worker; the second clone is made and dropped.\<close>

definition copy_worker_round :: "u64 \<Rightarrow> machine \<Rightarrow> machine option" where
  "copy_worker_round args m = do {
     let m = m\<lparr>fs := (fs m)\<lparr>async_copy_job := False\<rparr>\<rparr>;
     ensure (shadow_pgroot1 (fs m) = 0);
     ensure (shadow_pgroot2 (fs m) = 0);
     ((root1, root2), s) \<leftarrow> dune_vm_my_clone (main_pgroot (fs m)) (pgtable_cow_copy (avoid (glob m))) (vm m);
     let m = m\<lparr>vm := s, fs := (fs m)\<lparr>shadow_pgroot1 := root1, shadow_pgroot2 := root2\<rparr>\<rparr>;
     (_, s) \<leftarrow> dune_vm_my_fast_clone (avoid (glob m)) args (main_pgroot (fs m)) (vm m);
     Some (m\<lparr>vm := s\<rparr>)
   }"

text \<open>The loop heads: what a worker does next.\<close>

datatype worker_next = Worker_Spin | Worker_Work | Worker_Exit

definition snapshot_worker_next :: "fast_spawn_state \<Rightarrow> worker_next" where
  "snapshot_worker_next st = (
     if tearing_down st then Worker_Exit
     else if snapshot_user_work_func st = 0 then Worker_Spin else Worker_Work)"

definition copy_worker_next :: "fast_spawn_state \<Rightarrow> worker_next" where
  "copy_worker_next st = (
     if tearing_down st then Worker_Exit else if \<not> async_copy_job st then Worker_Spin else Worker_Work)"

section \<open>Configuration\<close>

text \<open>
  \<open>dune_fast_spawn_configure\<close>: the cores of the two workers, the counters, and the staging buffer of the snapshot
  core, whose address the host's \<open>mmap\<close> gave (\<open>MAP_FAILED\<close> ends the program).
\<close>

definition DUNE_FAST_COW_STAGING_BUFFER_SIZE :: u64 where
  [consts_def]: "DUNE_FAST_COW_STAGING_BUFFER_SIZE = 5 * 1024 * 1024"

definition reset_counters :: "fast_spawn_state \<Rightarrow> fast_spawn_state" where
  "reset_counters st = st\<lparr>thread_states := (\<lambda>i. if i < 128 then DUNE_THREAD_NONE else thread_states st i),
     thread_pgfaults := (\<lambda>i. if i < 128 then 0 else thread_pgfaults st i),
     ipi_call_queue_full := (\<lambda>i. if i < 128 then 0 else ipi_call_queue_full st i),
     shootdowns := (\<lambda>i. if i < 128 then 0 else shootdowns st i),
     ipi_calls := (\<lambda>i. if i < 128 then 0 else ipi_calls st i),
     write_calls := (\<lambda>i. if i < 128 then 0 else write_calls st i),
     cow_staging_buffer := (\<lambda>i. if i < 128 then 0 else cow_staging_buffer st i)\<rparr>"

definition dune_fast_spawn_configure :: "u64 \<Rightarrow> (u64 \<Rightarrow> u64) \<Rightarrow> machine \<Rightarrow> machine option" where
  "dune_fast_spawn_configure buf mmap_addr_to_pa m = (
     if max_cores (pool (vm m)) < 3 then Some m
     else
       let m = m\<lparr>glob := (glob m)\<lparr>ASYNC_COPY_CORE := nat (max_cores (pool (vm m)) - 1), SNAPSHOT_CORE := nat (max_cores (pool (vm m)) - 2)\<rparr>,
                 fs := reset_counters (fs m)\<rparr>;
           c = SNAPSHOT_CORE (glob m)
       in if c < 128 then do {
            ensure (buf \<noteq> - 1);
            let m = m\<lparr>fs := (fs m)\<lparr>cow_staging_buffer := (cow_staging_buffer (fs m))(c := buf)\<rparr>\<rparr>;
            (ret, s) \<leftarrow> dune_vm_map_phys (pgroot (vm m)) buf DUNE_FAST_COW_STAGING_BUFFER_SIZE (mmap_addr_to_pa buf)
               (PERM_R OR PERM_W OR PERM_U OR PERM_NOCOW) (vm m);
            ensure (ret = 0);
            Some (m\<lparr>vm := s\<rparr>)
          } else Some m)"

text \<open>\<open>dune_fast_spawn_init\<close> up to the creation of the two threads.\<close>

definition init_fast_spawn_state :: "u64 \<Rightarrow> fast_spawn_state \<Rightarrow> fast_spawn_state" where
  "init_fast_spawn_state root st = st\<lparr>main_pgroot := root,
     snapshots := replicate MAX_SNAPSHOTS \<lparr>snapshot_table = 0, epoch = 0, active = 0\<rparr>, num_snapshots := 0, E_global := 0,
     shadow_pgroot1 := 0, shadow_pgroot2 := 0, pgroot_snapshot := 0, async_copy_job := False,
     snapshot_worker_ready := False, async_copy_worker_ready := False, tearing_down := False,
     snapshot_runs_started_version := 0, snapshot_runs_finished_version := 0,
     snapshot_user_work_func := 0, snapshot_user_work_func_arg := 0\<rparr>"

definition dune_fast_spawn_init :: "bool \<Rightarrow> machine \<Rightarrow> machine" where
  "dune_fast_spawn_init selective m =
     m\<lparr>glob := (glob m)\<lparr>dbos_selective_TLB_shootdown := selective, avoid := (avoid (glob m))\<lparr>dbos_fast_spawn_enabled := True\<rparr>\<rparr>,
       fs := init_fast_spawn_state (pgroot (vm m)) (fs m)\<rparr>"

text \<open>
  Where the thread that takes a snapshot and the two workers stand between their stores to the shared state:
  the taker has switched the roots, published the work, or cleared the shadow roots and waits for the
  snapshot thread; the copy worker has taken a job, holds two roots, or has stored one of them; the
  snapshot worker runs the user's function or has only cleared it.
\<close>

datatype main_pc = M_Idle | M_Taken | M_Published | M_Await

datatype copy_pc = C_Wait | C_Check | C_Copied u64 u64 | C_Half u64 | C_Extra

datatype snap_pc = S_Wait | S_Run | S_Clearing

record proto =
  shared :: fast_spawn_state
  mpc :: main_pc
  cpc :: copy_pc
  spc :: snap_pc
  snapshot_cr3 :: u64
  primed :: bool

inductive spawn_step :: "nat \<Rightarrow> proto \<Rightarrow> proto \<Rightarrow> bool" for sc where
  prime: "\<not> primed p \<Longrightarrow>
    spawn_step sc p (p\<lparr>shared := dune_fast_spawn_signal_copy_worker (shared p), primed := True\<rparr>)"
| take: "mpc p = M_Idle \<Longrightarrow> shadows_ready (shared p) \<Longrightarrow>
    spawn_step sc p (p\<lparr>shared := take_shadows (shared p), mpc := M_Taken\<rparr>)"
| publish: "mpc p = M_Taken \<Longrightarrow> f \<noteq> 0 \<Longrightarrow>
    spawn_step sc p (p\<lparr>shared := publish_work f arg (shared p), mpc := M_Published\<rparr>)"
| clear: "mpc p = M_Published \<Longrightarrow>
    spawn_step sc p (p\<lparr>shared := clear_shadows (shared p), mpc := M_Await\<rparr>)"
| resume: "mpc p = M_Await \<Longrightarrow> dune_get_thread_state (shared p) sc = DUNE_THREAD_SNAPSHOT \<Longrightarrow>
    spawn_step sc p (p\<lparr>shared := dune_fast_spawn_signal_copy_worker (shared p), mpc := M_Idle\<rparr>)"
| job: "cpc p = C_Wait \<Longrightarrow> copy_worker_next (shared p) = Worker_Work \<Longrightarrow>
    spawn_step sc p (p\<lparr>shared := (shared p)\<lparr>async_copy_job := False\<rparr>, cpc := C_Check\<rparr>)"
| clone: "cpc p = C_Check \<Longrightarrow> shadow_pgroot1 (shared p) = 0 \<Longrightarrow> shadow_pgroot2 (shared p) = 0 \<Longrightarrow>
    r1 \<noteq> 0 \<Longrightarrow> r2 \<noteq> 0 \<Longrightarrow> r1 \<noteq> r2 \<Longrightarrow> spawn_step sc p (p\<lparr>cpc := C_Copied r1 r2\<rparr>)"
| store1: "cpc p = C_Copied r1 r2 \<Longrightarrow>
    spawn_step sc p (p\<lparr>shared := (shared p)\<lparr>shadow_pgroot1 := r1\<rparr>, cpc := C_Half r2\<rparr>)"
| store2: "cpc p = C_Half r2 \<Longrightarrow>
    spawn_step sc p (p\<lparr>shared := (shared p)\<lparr>shadow_pgroot2 := r2\<rparr>, cpc := C_Extra\<rparr>)"
| extra: "cpc p = C_Extra \<Longrightarrow> spawn_step sc p (p\<lparr>cpc := C_Wait\<rparr>)"
| start: "spc p = S_Wait \<Longrightarrow> snapshot_worker_next (shared p) = Worker_Work \<Longrightarrow> pgroot_snapshot (shared p) \<noteq> 0 \<Longrightarrow>
    spawn_step sc p (p\<lparr>snapshot_cr3 := pgroot_snapshot (shared p), shared := announce_run sc (shared p), spc := S_Run\<rparr>)"
| finish: "spc p = S_Run \<Longrightarrow> spawn_step sc p (p\<lparr>shared := end_run sc (shared p), spc := S_Clearing\<rparr>)"
| drop: "spc p = S_Clearing \<Longrightarrow>
    spawn_step sc p (p\<lparr>shared := drop_snapshot_root (shared p), spc := S_Wait\<rparr>)"

definition proto_init :: "u64 \<Rightarrow> fast_spawn_state \<Rightarrow> proto" where
  "proto_init root st = \<lparr>shared = init_fast_spawn_state root st, mpc = M_Idle, cpc = C_Wait, spc = S_Wait,
     snapshot_cr3 = 0, primed = False\<rparr>"

text \<open>The copy job, and the two roots it produces, are in one place at a time.\<close>

definition no_shadows :: "fast_spawn_state \<Rightarrow> bool" where
  "no_shadows st \<longleftrightarrow> shadow_pgroot1 st = 0 \<and> shadow_pgroot2 st = 0"

definition two_shadows :: "fast_spawn_state \<Rightarrow> bool" where
  "two_shadows st \<longleftrightarrow> shadow_pgroot1 st \<noteq> 0 \<and> shadow_pgroot2 st \<noteq> 0 \<and> shadow_pgroot1 st \<noteq> shadow_pgroot2 st"

definition copy_inv :: "proto \<Rightarrow> bool" where
  "copy_inv p \<longleftrightarrow> (case cpc p of
     C_Check \<Rightarrow> no_shadows (shared p) \<and> \<not> async_copy_job (shared p) \<and> mpc p = M_Idle \<and> primed p
   | C_Copied r1 r2 \<Rightarrow> no_shadows (shared p) \<and> \<not> async_copy_job (shared p) \<and> mpc p = M_Idle \<and> primed p \<and>
       r1 \<noteq> 0 \<and> r2 \<noteq> 0 \<and> r1 \<noteq> r2
   | C_Half r2 \<Rightarrow> shadow_pgroot1 (shared p) \<noteq> 0 \<and> shadow_pgroot2 (shared p) = 0 \<and> r2 \<noteq> 0 \<and> shadow_pgroot1 (shared p) \<noteq> r2 \<and>
       \<not> async_copy_job (shared p) \<and> mpc p = M_Idle \<and> primed p
   | _ \<Rightarrow>
       if \<not> primed p then no_shadows (shared p) \<and> \<not> async_copy_job (shared p) \<and> mpc p = M_Idle
       else if mpc p = M_Await then no_shadows (shared p) \<and> \<not> async_copy_job (shared p)
       else if mpc p = M_Idle then (if async_copy_job (shared p) then no_shadows (shared p) else two_shadows (shared p))
       else two_shadows (shared p) \<and> \<not> async_copy_job (shared p))"

definition run_inv :: "nat \<Rightarrow> proto \<Rightarrow> bool" where
  "run_inv sc p \<longleftrightarrow> 0 \<le> snapshot_runs_finished_version (shared p) \<and>
     snapshot_runs_started_version (shared p) = snapshot_runs_finished_version (shared p) + (if spc p = S_Run then 1 else 0) \<and>
     (thread_states (shared p) sc = DUNE_THREAD_SNAPSHOT \<longleftrightarrow> spc p = S_Run) \<and>
     (spc p = S_Run \<longrightarrow> snapshot_user_work_func (shared p) \<noteq> 0 \<and> snapshot_cr3 p = pgroot_snapshot (shared p) \<and> snapshot_cr3 p \<noteq> 0) \<and>
     (mpc p = M_Taken \<longrightarrow> snapshot_user_work_func (shared p) = 0) \<and>
     main_pgroot (shared p) \<noteq> 0 \<and> pgroot_snapshot (shared p) \<noteq> main_pgroot (shared p)"

definition example_proto :: proto where
  "example_proto = proto_init 0x1000 example_fs"

text \<open>Other cores that only run the published work.\<close>

definition responsive :: "others \<Rightarrow> bool" where
  "responsive env \<longleftrightarrow> (\<forall>n m. vm (env n m) = vm m \<and> glob (env n m) = glob m \<and> core (env n m) = core m \<and> pv (env n m) = pv m \<and>
     cr3 (env n m) = cr3 m \<and>
     fs (env n m) = (if snapshot_user_work_func (fs m) = 0 then fs m
       else dune_set_thread_state (SNAPSHOT_CORE (glob m)) DUNE_THREAD_SNAPSHOT (fs m)))"

definition switch_target :: "machine \<Rightarrow> nat \<Rightarrow> bool" where
  "switch_target m i \<longleftrightarrow> i \<noteq> core m \<and> runs_main_table (fs m) i"

definition same_but_pv :: "machine \<Rightarrow> machine \<Rightarrow> bool" where
  "same_but_pv m m' \<longleftrightarrow> vm m' = vm m \<and> fs m' = fs m \<and> glob m' = glob m \<and> core m' = core m \<and> cr3 m' = cr3 m"

definition answering :: others where
  "answering = (\<lambda>_ m. m\<lparr>fs := if snapshot_user_work_func (fs m) = 0 then fs m
     else dune_set_thread_state (SNAPSHOT_CORE (glob m)) DUNE_THREAD_SNAPSHOT (fs m)\<rparr>)"

definition ready_machine :: machine where
  "ready_machine = example_machine\<lparr>
     fs := example_fs\<lparr>shadow_pgroot1 := 0x101000, shadow_pgroot2 := 0x102000, pgroot_snapshot := 0,
       thread_states := (\<lambda>_. DUNE_THREAD_NONE)(0 := DUNE_THREAD_MAIN, 1 := DUNE_THREAD_MAIN)\<rparr>,
     pv := (\<lambda>_. \<lparr>pv_flag = DUNE_PV_TLB_IN_HOST, full_flush_count = 0\<rparr>)\<rparr>"

text \<open>
  A run in which the copy worker has delivered two tables, a snapshot was taken and the snapshot worker runs,
  and the same with the next pair of tables delivered.
\<close>

definition delivered_tables :: "u64 \<Rightarrow> u64 \<Rightarrow> proto \<Rightarrow> proto" where
  "delivered_tables r1 r2 p = p\<lparr>shared := (shared p)\<lparr>async_copy_job := False, shadow_pgroot1 := r1, shadow_pgroot2 := r2\<rparr>, cpc := C_Wait\<rparr>"

definition taken_snapshot :: "proto \<Rightarrow> proto" where
  "taken_snapshot p = p\<lparr>shared := clear_shadows (publish_work 0x403000 0 (take_shadows (shared p))), mpc := M_Await\<rparr>"

definition first_run :: "nat \<Rightarrow> u64 \<Rightarrow> fast_spawn_state \<Rightarrow> proto" where
  "first_run sc root st = (
     let p = taken_snapshot (delivered_tables 0x101000 0x102000
           ((proto_init root st)\<lparr>shared := dune_fast_spawn_signal_copy_worker (shared (proto_init root st)), primed := True\<rparr>))
     in p\<lparr>snapshot_cr3 := pgroot_snapshot (shared p), shared := announce_run sc (shared p), spc := S_Run\<rparr>)"

text \<open>The thread that takes snapshots is stuck once the run it waits for has come and gone.\<close>

definition missed_run :: "nat \<Rightarrow> proto \<Rightarrow> bool" where
  "missed_run sc p \<longleftrightarrow> mpc p = M_Await \<and> primed p \<and> spc p \<noteq> S_Run \<and> snapshot_user_work_func (shared p) = 0 \<and>
     thread_states (shared p) sc \<noteq> DUNE_THREAD_SNAPSHOT"

section \<open>The protocol between the threads\<close>

lemmas spawn_ops = dune_fast_spawn_signal_copy_worker_def take_shadows_def publish_work_def clear_shadows_def
  announce_run_def end_run_def drop_snapshot_root_def dune_set_thread_state_def Let_def

lemma copy_inv_step: "spawn_step sc p q \<Longrightarrow> copy_inv p \<Longrightarrow> copy_inv q"
  by (cases rule: spawn_step.cases, assumption)
    (auto simp: copy_inv_def spawn_ops no_shadows_def two_shadows_def shadows_ready_def copy_worker_next_def
      split: copy_pc.splits if_splits)

lemma run_inv_step: "spawn_step sc p q \<Longrightarrow> copy_inv p \<Longrightarrow> run_inv sc p \<Longrightarrow> run_inv sc q"
  by (cases rule: spawn_step.cases, assumption)
    (auto simp: copy_inv_def run_inv_def spawn_ops no_shadows_def two_shadows_def shadows_ready_def snapshot_worker_next_def
      split: copy_pc.splits if_splits)

lemma proto_init_inv: "root \<noteq> 0 \<Longrightarrow> thread_states st sc \<noteq> DUNE_THREAD_SNAPSHOT \<Longrightarrow>
   copy_inv (proto_init root st) \<and> run_inv sc (proto_init root st)"
  by (simp add: proto_init_def copy_inv_def run_inv_def init_fast_spawn_state_def no_shadows_def)

lemma spawn_reach_inv:
  assumes "(spawn_step sc)\<^sup>*\<^sup>* (proto_init root st) p" "root \<noteq> 0" "thread_states st sc \<noteq> DUNE_THREAD_SNAPSHOT"
  shows "copy_inv p \<and> run_inv sc p"
  using assms(1) proto_init_inv [OF assms(2,3)] by (induction rule: rtranclp_induct) (auto intro: copy_inv_step run_inv_step)

section \<open>Switching the cores\<close>

lemma tick_responsive:
  assumes "responsive env"
  shows "vm (tick env m) = vm m" "glob (tick env m) = glob m" "core (tick env m) = core m" "pv (tick env m) = pv m"
    "cr3 (tick env m) = cr3 m"
    "snapshot_user_work_func (fs m) = 0 \<Longrightarrow> fs (tick env m) = fs m"
    "snapshot_user_work_func (fs m) \<noteq> 0 \<Longrightarrow>
       fs (tick env m) = dune_set_thread_state (SNAPSHOT_CORE (glob m)) DUNE_THREAD_SNAPSHOT (fs m)"
  using assms by (simp_all add: responsive_def tick_def)

lemma post_cr3_in_host:
  assumes env: "responsive env" and w: "snapshot_user_work_func (fs m) = 0"
    and h: "tst (pv_flag (pv m i)) DUNE_PV_TLB_IN_HOST"
  obtains m' where "post_cr3 env i m = (True, m')" "same_but_pv m m'"
    "pv m' = (pv m)(i := (pv m i)\<lparr>pv_flag := cr3_request (pv_flag (pv m i)) (main_pgroot (fs m))\<rparr>)"
proof -
  have t: "fs (tick env m) = fs m" "fs (tick env (tick env m)) = fs m" using tick_responsive(6) [OF env] w by simp_all
  show thesis
    using assms t tick_responsive [OF env]
    by (intro that [of "(tick env (tick env m))\<lparr>pv := (pv m)(i := (pv m i)\<lparr>pv_flag := cr3_request (pv_flag (pv m i)) (main_pgroot (fs m))\<rparr>)\<rparr>"])
      (simp_all add: post_cr3_def dune_pv_info_for_core_def dune_pv_info_cmpswap_def same_but_pv_def Let_def)
qed

lemma switch_cores_in_host:
  assumes env: "responsive env"
  shows "snapshot_user_work_func (fs m) = 0 \<Longrightarrow> distinct is \<Longrightarrow>
    \<forall>i \<in> set is. switch_target m i \<longrightarrow> tst (pv_flag (pv m i)) DUNE_PV_TLB_IN_HOST \<Longrightarrow>
    \<exists>m'. switch_cores env icr is (sn, k, m) = Some (sn, k + length (filter (switch_target m) is), m') \<and> same_but_pv m m' \<and>
      (\<forall>i. pv_flag (pv m' i) = (if i \<in> set is \<and> switch_target m i
             then cr3_request (pv_flag (pv m i)) (main_pgroot (fs m)) else pv_flag (pv m i)))"
proof (induction "is" arbitrary: m k)
  case Nil
  then show ?case by (simp add: same_but_pv_def)
next
  case (Cons i "is")
  show ?case
  proof (cases "switch_target m i")
    case False
    then show ?thesis using Cons.IH [of m k] Cons.prems by (auto simp: switch_target_def)
  next
    case True
    obtain m1 where m1: "post_cr3 env i m = (True, m1)" "same_but_pv m m1"
        "pv m1 = (pv m)(i := (pv m i)\<lparr>pv_flag := cr3_request (pv_flag (pv m i)) (main_pgroot (fs m))\<rparr>)"
      using post_cr3_in_host [OF env] Cons.prems True by (metis list.set_intros(1))
    have tg: "switch_target m1 = switch_target m" using m1(2) by (simp add: fun_eq_iff switch_target_def same_but_pv_def)
    have pre: "snapshot_user_work_func (fs m1) = 0" "distinct is"
      "\<forall>j \<in> set is. switch_target m1 j \<longrightarrow> tst (pv_flag (pv m1 j)) DUNE_PV_TLB_IN_HOST"
      using Cons.prems m1(2,3) by (auto simp: same_but_pv_def tg)
    obtain m' where "switch_cores env icr is (sn, Suc k, m1) = Some (sn, Suc k + length (filter (switch_target m1) is), m')"
        "same_but_pv m1 m'"
        "\<forall>j. pv_flag (pv m' j) = (if j \<in> set is \<and> switch_target m1 j
             then cr3_request (pv_flag (pv m1 j)) (main_pgroot (fs m1)) else pv_flag (pv m1 j))"
      using Cons.IH [OF pre] by blast
    moreover have "i \<noteq> core m" "runs_main_table (fs m) i" using True by (simp_all add: switch_target_def)
    ultimately show ?thesis
      using m1 Cons.prems(2) True tg by (auto simp: same_but_pv_def)
  qed
qed



text \<open>
  C31: a root handed over through a flag word is read back unchanged by the mask the module uses, the
  request bit is set, and the two other flags keep their values, provided the root is aligned to
  8 bytes, as a table page is.
\<close>

theorem cr3_request_roundtrip:
  assumes "new_cr3 AND DUNE_PV_FEATURE_MASK = 0"
  shows "cr3_request flag new_cr3 AND DUNE_PV_CHANGE_GUEST_CR3_MASK = new_cr3 \<and>
    tst (cr3_request flag new_cr3) DUNE_PV_CHANGE_GUEST_CR3 \<and>
    tst (cr3_request flag new_cr3) DUNE_PV_TLB_IN_HOST = tst flag DUNE_PV_TLB_IN_HOST \<and>
    tst (cr3_request flag new_cr3) DUNE_PV_TLB_FLUSH_ON_REENTRY = tst flag DUNE_PV_TLB_FLUSH_ON_REENTRY"
proof -
  have m: "DUNE_PV_FEATURE_MASK = mask 3" "DUNE_PV_CHANGE_GUEST_CR3_MASK = NOT (mask 3)"
    by (simp_all add: consts_def mask_eq_exp_minus_1)
  have e: "DUNE_PV_CHANGE_GUEST_CR3 = 2 ^ 2" "DUNE_PV_TLB_IN_HOST = 2 ^ 0" "DUNE_PV_TLB_FLUSH_ON_REENTRY = 2 ^ 1"
    by (simp_all add: consts_def)
  have z: "\<not> bit new_cr3 n" if "n < 3" for n
  proof -
    have "\<not> bit (new_cr3 AND mask 3) n" using assms m by simp
    then show ?thesis using that by (simp add: bit_simps)
  qed
  have b: "bit (cr3_request flag new_cr3) n \<longleftrightarrow> (n < 3 \<and> bit flag n) \<or> n = 2 \<or> bit new_cr3 n" for n
    unfolding cr3_request_def m e(1) bit_or_iff bit_and_iff bit_exp64 bit_mask_iff by auto
  have "cr3_request flag new_cr3 AND DUNE_PV_CHANGE_GUEST_CR3_MASK = new_cr3"
    unfolding m(2) by (rule bit_word_eqI) (use z in \<open>auto simp: bit_and_iff b bit_not_iff bit_mask_iff\<close>)
  moreover have "tst w DUNE_PV_CHANGE_GUEST_CR3 = bit w 2" "tst w DUNE_PV_TLB_IN_HOST = bit w 0"
      "tst w DUNE_PV_TLB_FLUSH_ON_REENTRY = bit w 1" for w
    unfolding e tst_exp by (rule refl)+
  ultimately show ?thesis by (simp add: b z)
qed

theorem cr3_request_roundtrip_witness:
  "cr3_request 3 0x101000 AND DUNE_PV_CHANGE_GUEST_CR3_MASK = 0x101000 \<and> tst (cr3_request 3 0x101000) DUNE_PV_CHANGE_GUEST_CR3"
  using cr3_request_roundtrip [of "0x101000" 3] by (simp add: consts_def)



lemmas step_trans = converse_rtranclp_into_rtranclp [of "spawn_step sc" for sc]

lemma deliver_steps:
  assumes "cpc p = C_Wait" "async_copy_job (shared p)" "\<not> tearing_down (shared p)" "no_shadows (shared p)"
    "r1 \<noteq> 0" "r2 \<noteq> 0" "r1 \<noteq> r2"
  shows "(spawn_step sc)\<^sup>*\<^sup>* p (delivered_tables r1 r2 p)"
proof -
  let ?p1 = "p\<lparr>shared := (shared p)\<lparr>async_copy_job := False\<rparr>, cpc := C_Check\<rparr>"
  let ?p2 = "?p1\<lparr>cpc := C_Copied r1 r2\<rparr>"
  let ?p3 = "?p2\<lparr>shared := (shared ?p2)\<lparr>shadow_pgroot1 := r1\<rparr>, cpc := C_Half r2\<rparr>"
  let ?p4 = "?p3\<lparr>shared := (shared ?p3)\<lparr>shadow_pgroot2 := r2\<rparr>, cpc := C_Extra\<rparr>"
  have s1: "spawn_step sc p ?p1" by (rule spawn_step.job) (use assms in \<open>simp_all add: copy_worker_next_def\<close>)
  have s2: "spawn_step sc ?p1 ?p2" by (rule spawn_step.clone) (use assms in \<open>simp_all add: no_shadows_def\<close>)
  have s3: "spawn_step sc ?p2 ?p3" by (rule spawn_step.store1) simp
  have s4: "spawn_step sc ?p3 ?p4" by (rule spawn_step.store2) simp
  have s5: "spawn_step sc ?p4 (?p4\<lparr>cpc := C_Wait\<rparr>)" by (rule spawn_step.extra) simp
  have eq: "?p4\<lparr>cpc := C_Wait\<rparr> = delivered_tables r1 r2 p" by (simp add: delivered_tables_def)
  show ?thesis
    unfolding eq [symmetric]
    by (rule step_trans [OF s1 step_trans [OF s2 step_trans [OF s3 step_trans [OF s4 r_into_rtranclp [of "spawn_step sc", OF s5]]]]])
qed

lemma taken_steps:
  assumes "mpc p = M_Idle" "shadows_ready (shared p)"
  shows "(spawn_step sc)\<^sup>*\<^sup>* p (taken_snapshot p)"
proof -
  let ?p1 = "p\<lparr>shared := take_shadows (shared p), mpc := M_Taken\<rparr>"
  let ?p2 = "?p1\<lparr>shared := publish_work 0x403000 0 (shared ?p1), mpc := M_Published\<rparr>"
  have s1: "spawn_step sc p ?p1" by (rule spawn_step.take) (use assms in simp_all)
  have s2: "spawn_step sc ?p1 ?p2" by (rule spawn_step.publish) simp_all
  have s3: "spawn_step sc ?p2 (?p2\<lparr>shared := clear_shadows (shared ?p2), mpc := M_Await\<rparr>)" by (rule spawn_step.clear) simp
  have eq: "?p2\<lparr>shared := clear_shadows (shared ?p2), mpc := M_Await\<rparr> = taken_snapshot p" by (simp add: taken_snapshot_def)
  show ?thesis
    unfolding eq [symmetric] by (rule step_trans [OF s1 step_trans [OF s2 r_into_rtranclp [of "spawn_step sc", OF s3]]])
qed

lemma first_run_reach: "(spawn_step sc)\<^sup>*\<^sup>* (proto_init root st) (first_run sc root st)"
proof -
  let ?p1 = "(proto_init root st)\<lparr>shared := dune_fast_spawn_signal_copy_worker (shared (proto_init root st)), primed := True\<rparr>"
  let ?p2 = "delivered_tables 0x101000 0x102000 ?p1"
  let ?p3 = "taken_snapshot ?p2"
  have 1: "spawn_step sc (proto_init root st) ?p1" by (rule spawn_step.prime) (simp add: proto_init_def)
  have 2: "(spawn_step sc)\<^sup>*\<^sup>* ?p1 ?p2"
    by (rule deliver_steps) (simp_all add: proto_init_def init_fast_spawn_state_def dune_fast_spawn_signal_copy_worker_def no_shadows_def)
  have 3: "(spawn_step sc)\<^sup>*\<^sup>* ?p2 ?p3"
    by (rule taken_steps) (simp_all add: delivered_tables_def proto_init_def init_fast_spawn_state_def shadows_ready_def
      dune_fast_spawn_signal_copy_worker_def)
  have 4: "spawn_step sc ?p3 (first_run sc root st)"
    unfolding first_run_def Let_def
    by (rule spawn_step.start) (simp_all add: taken_snapshot_def delivered_tables_def proto_init_def init_fast_spawn_state_def
      spawn_ops snapshot_worker_next_def)
  show ?thesis
    using rtranclp_trans [OF step_trans [OF 1 2] rtranclp_trans [OF 3 r_into_rtranclp [of "spawn_step sc", OF 4]]] .
qed

lemma first_run_state:
  "spc (first_run sc root st) = S_Run" "mpc (first_run sc root st) = M_Await" "cpc (first_run sc root st) = C_Wait"
  "thread_states (shared (first_run sc root st)) sc = DUNE_THREAD_SNAPSHOT" "no_shadows (shared (first_run sc root st))"
  "\<not> tearing_down (shared (first_run sc root st))" "primed (first_run sc root st)"
  by (simp_all add: first_run_def taken_snapshot_def delivered_tables_def proto_init_def init_fast_spawn_state_def spawn_ops no_shadows_def)

lemma missed_run_step: "spawn_step sc p q \<Longrightarrow> missed_run sc p \<Longrightarrow> missed_run sc q"
  by (cases rule: spawn_step.cases, assumption)
    (auto simp: missed_run_def spawn_ops dune_get_thread_state_def snapshot_worker_next_def split: if_splits)

lemma missed_run_reach: "(spawn_step sc)\<^sup>*\<^sup>* p q \<Longrightarrow> missed_run sc p \<Longrightarrow> missed_run sc q"
  by (induction rule: rtranclp_induct) (auto intro: missed_run_step)

text \<open>
  C32: a snapshot whose work is short can hang the thread that took it. That thread waits until the snapshot
  thread is seen running; there is a run in which the work ends before it looks, and from then on, whatever
  the other threads do, it waits for ever.
\<close>

theorem short_snapshot_hangs_taker:
  "\<exists>p. (spawn_step sc)\<^sup>*\<^sup>* (proto_init root st) p \<and> mpc p = M_Await \<and>
     (\<forall>q. (spawn_step sc)\<^sup>*\<^sup>* p q \<longrightarrow> mpc q = M_Await)"
proof -
  let ?p = "first_run sc root st"
  let ?q = "?p\<lparr>shared := end_run sc (shared ?p), spc := S_Clearing\<rparr>"
  have "spawn_step sc ?p ?q" by (rule spawn_step.finish) (rule first_run_state)
  then have r: "(spawn_step sc)\<^sup>*\<^sup>* (proto_init root st) ?q" using first_run_reach by (rule rtranclp.rtrancl_into_rtrancl [rotated])
  have "missed_run sc ?q" using first_run_state [of sc root st] by (simp add: missed_run_def spawn_ops)
  then have "mpc q = M_Await" if "(spawn_step sc)\<^sup>*\<^sup>* ?q q" for q
    using missed_run_reach [OF that] by (simp add: missed_run_def)
  then show ?thesis using r by (intro exI [of _ ?q]) (simp add: first_run_state)
qed

theorem short_snapshot_hangs_taker_witness:
  "\<exists>p. (spawn_step 2)\<^sup>*\<^sup>* example_proto p \<and> mpc p = M_Await"
  using short_snapshot_hangs_taker [of 2 "0x1000" example_fs] unfolding example_proto_def by blast

text \<open>
  C33: a snapshot taken while the previous one winds down can lose its root. The snapshot worker clears the
  work function before it clears the root, so the next snapshot can be taken in between; the
  late store then wipes out the new root, and the worker's assertion fails when it picks up
  the new work.
\<close>

theorem snapshot_root_lost:
  "\<exists>p. (spawn_step sc)\<^sup>*\<^sup>* (proto_init root st) p \<and> spc p = S_Wait \<and> snapshot_worker_next (shared p) = Worker_Work \<and>
     (\<forall>m. fs m = shared p \<longrightarrow> snapshot_worker_start m = None)"
proof -
  let ?p = "first_run sc root st"
  let ?p1 = "?p\<lparr>shared := dune_fast_spawn_signal_copy_worker (shared ?p), mpc := M_Idle\<rparr>"
  let ?p2 = "delivered_tables 0x103000 0x104000 ?p1"
  let ?p3 = "?p2\<lparr>shared := end_run sc (shared ?p2), spc := S_Clearing\<rparr>"
  let ?p4 = "taken_snapshot ?p3"
  let ?p5 = "?p4\<lparr>shared := drop_snapshot_root (shared ?p4), spc := S_Wait\<rparr>"
  note f = first_run_state [of sc root st]
  have 1: "spawn_step sc ?p ?p1" by (rule spawn_step.resume) (simp_all add: f dune_get_thread_state_def)
  have 2: "(spawn_step sc)\<^sup>*\<^sup>* ?p1 ?p2"
    by (rule deliver_steps) (use f in \<open>simp_all add: dune_fast_spawn_signal_copy_worker_def no_shadows_def\<close>)
  have 3: "spawn_step sc ?p2 ?p3" by (rule spawn_step.finish) (simp add: f delivered_tables_def)
  have 4: "(spawn_step sc)\<^sup>*\<^sup>* ?p3 ?p4"
    by (rule taken_steps) (simp_all add: delivered_tables_def shadows_ready_def spawn_ops)
  have 5: "spawn_step sc ?p4 ?p5" by (rule spawn_step.drop) (simp add: taken_snapshot_def)
  have "(spawn_step sc)\<^sup>*\<^sup>* (proto_init root st) ?p5"
    using rtranclp_trans [OF first_run_reach rtranclp_trans [OF step_trans [OF 1 2]
      rtranclp_trans [OF step_trans [OF 3 4] r_into_rtranclp [of "spawn_step sc", OF 5]]]] .
  moreover have "snapshot_worker_next (shared ?p5) = Worker_Work" "pgroot_snapshot (shared ?p5) = 0"
    using f(6) by (simp_all add: taken_snapshot_def delivered_tables_def spawn_ops snapshot_worker_next_def)
  ultimately show ?thesis
    by (intro exI [of _ ?p5]) (simp add: snapshot_worker_start_def)
qed

theorem snapshot_root_lost_witness:
  "\<exists>p. (spawn_step 2)\<^sup>*\<^sup>* example_proto p \<and> snapshot_worker_next (shared p) = Worker_Work \<and>
     snapshot_worker_start (example_machine\<lparr>fs := shared p\<rparr>) = None"
  using snapshot_root_lost [of 2 "0x1000" example_fs] unfolding example_proto_def by auto

text \<open>
  C34: the batched flush of two requests acknowledges both, but flushes a wrong address for the second:
  it reads the address from the element after the second request's argument.
\<close>

theorem batch_flush_reads_next_element:
  assumes "dbos_fast_spawn_enabled (avoid (glob m))" "\<not> cow_pipeline_copy_and_ipi (glob m)"
    and "ready_to_flush (tlb_args m (msg_arg x))" "ready_to_flush (tlb_args m (msg_arg y))"
  shows "\<exists>m'. snapshot_worker_tlb_flush_batch env [x, y] m = Some m' \<and>
    tlb_log (vm m') = tlb_log (vm m) @ [Flush_One (arg_addr (tlb_args m (msg_arg x))), Flush_One (arg_addr (tlb_args m (msg_arg y + 16)))] \<and>
    flushed (tlb_args m' (msg_arg x)) \<and> flushed (tlb_args m' (msg_arg y))"
proof -
  have u: "[0 ..< length [x, y]] = [0, 1]" by (simp add: upt_rec)
  show ?thesis
    using assms unfolding snapshot_worker_tlb_flush_batch_def u
    by (auto simp: Let_def count_ipi_calls_def set_flushed_def flush_local_def dune_flush_tlb_one_def)
qed

theorem batch_flush_reads_next_element_witness:
  "\<exists>m'. snapshot_worker_tlb_flush_batch (\<lambda>_ m. m)
      [\<lparr>msg_func = 0, msg_type = CALL_TYPE_BATCHABLE, msg_arg = 0\<rparr>, \<lparr>msg_func = 0, msg_type = CALL_TYPE_BATCHABLE, msg_arg = 0x1000\<rparr>]
      (example_machine\<lparr>tlb_args := (\<lambda>a. \<lparr>arg_addr = a + 0x50000, ready_to_flush = True, flushed = False\<rparr>)\<rparr>) = Some m' \<and>
    tlb_log (vm m') = [Flush_One 0x50000, Flush_One 0x51010]"
  using batch_flush_reads_next_element [of "example_machine\<lparr>tlb_args := (\<lambda>a. \<lparr>arg_addr = a + 0x50000, ready_to_flush = True, flushed = False\<rparr>)\<rparr>"
      "\<lparr>msg_func = 0, msg_type = CALL_TYPE_BATCHABLE, msg_arg = 0\<rparr>" "\<lparr>msg_func = 0, msg_type = CALL_TYPE_BATCHABLE, msg_arg = 0x1000\<rparr>" "\<lambda>_ m. m"]
  by (auto simp add: example_machine_def example_pmem_def)

end
