(* ===== verification/Entry.thy ===== *)
theory Entry
  imports Descriptors Fast_Snapshot Address_Map
begin

text \<open>
  Starting up and entering Dune mode, \<open>libdune/entry.c\<close>: the mappings of the guest, the per-core
  data, the default system-call handlers, the loop around an exit to the host (with
  \<open>libdune/debug.c\<close>), initialisation, and \<open>dune_ipi_init\<close> of \<open>libdune/ipi_call.c\<close>. What the host
  answers (addresses from \<open>mmap\<close>, results of \<open>ioctl\<close>, the process map) is a record of
  parameters; \<open>MAP_FAILED\<close> is the address \<open>- 1\<close>.
\<close>

unbundle bit_operations_syntax

section \<open>The host\<close>

definition EIO :: int where [consts_def]: "EIO = 5"
definition MAP_FAILED :: u64 where [consts_def]: "MAP_FAILED = - 1"

record host_env =
  h_errno :: int
  h_nprocs :: nat
  h_maps :: "string option"
  h_locals :: scan_vars
  h_open :: int
  h_memalign_root :: u64
  h_pool_mmap_failed :: bool
  h_mutex_init :: "nat \<Rightarrow> int"
  h_get_layout :: "int \<times> dune_layout"
  h_get_syscall :: u64
  h_syscall_page :: u64
  h_syscall_len :: u64
  h_vsyscall_page :: u64
  h_apic_buf :: u64
  h_sigaction_ok :: "nat \<Rightarrow> bool"
  h_dune_intr :: u64
  h_fs_base :: "u64 option"
  h_percpu :: u64
  h_safe_stack :: u64
  h_rsp :: u64
  h_conf :: u64
  h_dune_ret :: u64
  h_enter :: int
  h_idt :: u64
  h_apic_raw :: u32
  h_rings :: u64
  h_working :: u64
  h_shared :: u64

section \<open>Mapping\<close>

definition map_ptr :: "dune_layout \<Rightarrow> u64 \<Rightarrow> u64 \<Rightarrow> dune \<Rightarrow> dune option" where
  "map_ptr L p len s = (
     let page = PGADDR p;
         page_end = PGADDR (p + len);
         l = (page_end - page) + PGSIZE
     in do {
       (_, s) \<leftarrow> dune_vm_map_phys (pgroot s) page l (dune_va_to_pa L page) (PERM_R OR PERM_W) s;
       Some s
     })"

definition setup_safe_stack :: "host_env \<Rightarrow> dune_layout \<Rightarrow> dune_percpu \<Rightarrow> dune \<Rightarrow> (int \<times> dune_percpu \<times> dune) option" where
  "setup_safe_stack H L percpu s = (
     let safe_stack = h_safe_stack H
     in if safe_stack = MAP_FAILED then Some (- ENOMEM, percpu, s)
        else do {
          s \<leftarrow> map_ptr L safe_stack PGSIZE s;
          let safe_stack = safe_stack + PGSIZE;
          let percpu = percpu\<lparr>tss := (tss percpu)\<lparr>tss_iomb := ucast Tss_size,
             tss_ist := map (\<lambda>i. if 1 \<le> i then safe_stack else tss_ist (tss percpu) ! i) [0 ..< 8]\<rparr>\<rparr>;
          let percpu = percpu\<lparr>tss := (tss percpu)\<lparr>tss_rsp := (tss_rsp (tss percpu))[0 := safe_stack]\<rparr>\<rparr>;
          (ret, s) \<leftarrow> dune_vm_map_pages_add_flags (pgroot s) safe_stack PGSIZE PERM_NOCOW s;
          Some (ret, percpu, s)
        })"

text \<open>
  The system-call entry page: the range of the copied code is part of the result; its bytes
  are the program's.
\<close>

definition set_entry :: "u64 \<Rightarrow> u64 \<Rightarrow> dune \<Rightarrow> dune option" where
  "set_entry va e s = do {
     (_, _, pte, s) \<leftarrow> dune_vm_lookup (pgroot s) va True s;
     pte \<leftarrow> pte;
     Some (wr pte e s)
   }"

definition setup_syscall :: "host_env \<Rightarrow> dune_layout \<Rightarrow> dune \<Rightarrow> (int \<times> (u64 \<times> u64) option \<times> dune) option" where
  "setup_syscall H L s = do {
     ensure (h_syscall_len H < PGSIZE);
     let lstar = h_get_syscall H;
     if lstar = - 1 then Some (- h_errno H, None, s)
     else if h_syscall_page H = MAP_FAILED then Some (- h_errno H, None, s)
     else do {
       let page = h_syscall_page H;
       let lstara = lstar AND NOT (PGSIZE - 1);
       let off = lstar - lstara;
       s \<leftarrow> set_entry lstara (PTE_ADDR (dune_mmap_addr_to_pa L page) OR PTE_P OR PTE_NOCOW) s;
       s \<leftarrow> set_entry (lstara + PGSIZE) (PTE_ADDR (dune_mmap_addr_to_pa L (page + PGSIZE)) OR PTE_P OR PTE_NOCOW) s;
       (ret, s) \<leftarrow> dune_vm_map_pages_add_flags (pgroot s) page (PGSIZE * 2) PERM_NOCOW s;
       Some (ret, Some (page + off, h_syscall_len H), s)
     }
   }"

definition setup_apic_mapping :: "dune_layout \<Rightarrow> dune \<Rightarrow> (int \<times> dune) option" where
  "setup_apic_mapping L s = do {
     s \<leftarrow> map_ptr L APIC_BASE 0 s;
     dune_vm_map_pages_add_flags (pgroot s) APIC_BASE PGSIZE PERM_NOCOW s
   }"

text \<open>The two loops over the processors.\<close>

primrec setup_core_pages :: "dune_layout \<Rightarrow> u64 \<Rightarrow> nat list \<Rightarrow> dune \<Rightarrow> (int \<times> dune) option" where
  "setup_core_pages L base [] s = Some (0, s)"
| "setup_core_pages L base (i # is) s = do {
     s \<leftarrow> map_ptr L (base + of_nat i * PGSIZE) 0 s;
     (ret, s) \<leftarrow> dune_vm_map_pages_add_flags (pgroot s) (base + of_nat i * PGSIZE) PGSIZE PERM_NOCOW s;
     if ret \<noteq> 0 then Some (ret, s) else setup_core_pages L base is s
   }"

definition setup_posted_intr_desc_mapping :: "host_env \<Rightarrow> dune_layout \<Rightarrow> dune \<Rightarrow> (int \<times> dune) option" where
  "setup_posted_intr_desc_mapping H L s = setup_core_pages L POSTED_INTR_DESCS_BASE [0 ..< h_nprocs H] s"

definition setup_tlb_info_page_mapping :: "host_env \<Rightarrow> dune_layout \<Rightarrow> dune \<Rightarrow> (int \<times> dune) option" where
  "setup_tlb_info_page_mapping H L s = setup_core_pages L PV_INFO_PAGES_BASE [0 ..< h_nprocs H] s"

definition VSYSCALL_ADDR :: u64 where [consts_def]: "VSYSCALL_ADDR = 0xffffffffff600000"

definition setup_vsyscall :: "host_env \<Rightarrow> dune_layout \<Rightarrow> dune \<Rightarrow> dune option" where
  "setup_vsyscall H L s =
     set_entry VSYSCALL_ADDR (PTE_ADDR (dune_va_to_pa L (h_vsyscall_page H)) OR PTE_P OR PTE_U OR PTE_NOCOW) s"

definition map_entry :: "dune_layout \<Rightarrow> dune_procmap_entry \<Rightarrow> u32 \<Rightarrow> dune \<Rightarrow> (int \<times> dune) option" where
  "map_entry L e prm s =
     dune_vm_map_phys (pgroot s) (pm_begin e) (pm_end e - pm_begin e) (dune_va_to_pa L (pm_begin e)) prm s"

definition entry_perm :: "dune_procmap_entry \<Rightarrow> u32" where
  "entry_perm e = (
     let perm = PERM_NONE;
         perm = (if pm_r e then perm OR PERM_R else perm);
         perm = (if pm_w e then perm OR PERM_W else perm)
     in if pm_x e then perm OR PERM_X else perm)"

definition setup_mappings_cb :: "host_env \<Rightarrow> dune_layout \<Rightarrow> dune_procmap_entry \<Rightarrow> dune \<Rightarrow> dune option" where
  "setup_mappings_cb H L e s = (
     if pm_begin e = PAGEBASE then Some s
     else if pm_begin e = VSYSCALL_ADDR then setup_vsyscall H L s
     else if pm_type e = PROCMAP_TYPE_VDSO then map_option snd (map_entry L e (PERM_U OR PERM_R OR PERM_X OR PERM_NOCOW) s)
     else if pm_type e = PROCMAP_TYPE_VVAR then map_option snd (map_entry L e (PERM_U OR PERM_R OR PERM_NOCOW) s)
     else do {
       (ret, s) \<leftarrow> map_entry L e (entry_perm e) s;
       ensure (ret = 0);
       Some s
     })"

fun strstr :: "string \<Rightarrow> string \<Rightarrow> bool" where
  "strstr [] needle = (needle = [])"
| "strstr (c # hay) needle = (take (length needle) (c # hay) = needle \<or> strstr hay needle)"

definition setup_lib_mappings_cb :: "dune_layout \<Rightarrow> dune_procmap_entry \<Rightarrow> dune \<Rightarrow> dune option" where
  "setup_lib_mappings_cb L e s = (
     if pm_begin e \<ge> PAGEBASE \<and> pm_end e \<le> PAGEBASE_END then Some s
     else if pm_begin e = VSYSCALL_ADDR then Some s
     else if pm_type e = PROCMAP_TYPE_VDSO then Some s
     else if pm_type e = PROCMAP_TYPE_VVAR then Some s
     else do {
       let perm = entry_perm e;
       let perm = (if length (pm_path e) > 4 \<and> strstr (pm_path e) ''.so'' then perm OR PERM_NOCOW else perm);
       (ret, s) \<leftarrow> map_entry L e perm s;
       ensure (ret = 0);
       Some s
     })"

definition setup_mappings_precise :: "host_env \<Rightarrow> dune_layout \<Rightarrow> dune \<Rightarrow> (int \<times> dune) option" where
  "setup_mappings_precise H L s = do {
     (ret, s) \<leftarrow> dune_vm_map_phys (pgroot s) PAGEBASE (of_nat MAX_PAGES * PGSIZE) (dune_va_to_pa L PAGEBASE)
        (PERM_R OR PERM_W OR PERM_BIG) s;
     if ret \<noteq> 0 then Some (ret, s)
     else do {
       s \<leftarrow> dune_procmap_iterate (h_maps H) (h_locals H) (setup_mappings_cb H L) s;
       Some (0, s)
     }
   }"

definition setup_vdso_cb :: "dune_layout \<Rightarrow> dune_procmap_entry \<Rightarrow> dune \<Rightarrow> dune option" where
  "setup_vdso_cb L e s = (
     if pm_type e = PROCMAP_TYPE_VDSO then map_option snd (map_entry L e (PERM_U OR PERM_R OR PERM_X OR PERM_NOCOW) s)
     else if pm_type e = PROCMAP_TYPE_VVAR then map_option snd (map_entry L e (PERM_U OR PERM_R OR PERM_NOCOW) s)
     else Some s)"

definition HEAPEND :: u64 where [consts_def]: "HEAPEND = PAGEBASE"

definition setup_mappings_full :: "host_env \<Rightarrow> dune_layout \<Rightarrow> dune \<Rightarrow> (int \<times> dune) option" where
  "setup_mappings_full H L s = do {
     (ret, s) \<leftarrow> dune_vm_map_phys (pgroot s) 0 (HEAPEND div 4) 0 (PERM_R OR PERM_W OR PERM_U) s;
     if ret \<noteq> 0 then Some (ret, s) else do {
     (ret, s) \<leftarrow> dune_vm_map_phys (pgroot s) (base_map L) GPA_MAP_SIZE (dune_mmap_addr_to_pa L (base_map L))
        (PERM_R OR PERM_W OR PERM_X OR PERM_U) s;
     if ret \<noteq> 0 then Some (ret, s) else do {
     (ret, s) \<leftarrow> dune_vm_map_phys (pgroot s) (base_stack L) GPA_STACK_SIZE (dune_stack_addr_to_pa L (base_stack L))
        (PERM_R OR PERM_W OR PERM_X OR PERM_U OR PERM_NOCOW) s;
     if ret \<noteq> 0 then Some (ret, s) else do {
     (ret, s) \<leftarrow> dune_vm_map_phys (pgroot s) PAGEBASE (of_nat MAX_PAGES * PGSIZE) (dune_va_to_pa L PAGEBASE)
        (PERM_R OR PERM_W OR PERM_BIG OR PERM_NOCOW) s;
     if ret \<noteq> 0 then Some (ret, s) else do {
     s \<leftarrow> dune_procmap_iterate (h_maps H) (h_locals H) (setup_vdso_cb L) s;
     s \<leftarrow> setup_vsyscall H L s;
     s \<leftarrow> dune_procmap_iterate (h_maps H) (h_locals H) (setup_lib_mappings_cb L) s;
     Some (0, s)
   }}}}}"

definition setup_mappings :: "host_env \<Rightarrow> bool \<Rightarrow> dune_layout \<times> dune \<Rightarrow> (int \<times> dune_layout \<times> dune) option" where
  "setup_mappings H full Ls = (
     let (L, s) = Ls;
         (ret, layout) = h_get_layout H
     in if ret \<noteq> 0 then Some (ret, L, s)
        else do {
          (ret, s) \<leftarrow> (if full then setup_mappings_full H layout s else setup_mappings_precise H layout s);
          Some (ret, layout, s)
        })"

section \<open>Entering\<close>

text \<open>The per-core page; its address is null when it cannot be made.\<close>

definition fresh_percpu :: dune_percpu where
  "fresh_percpu = \<lparr>percpu_ptr = 0, percpu_tmp = 0, kfs_base = 0, ufs_base = 0, in_usermode = 0,
     tss = \<lparr>tss_rsp = [0, 0, 0], tss_ist = replicate 8 0, tss_iomb = 0\<rparr>, gdt = replicate NR_GDT_ENTRIES 0\<rparr>"

definition percpu_size :: u64 where [consts_def]: "percpu_size = 5 * 8 + Tss_size + 8 * of_nat NR_GDT_ENTRIES"

definition create_percpu :: "host_env \<Rightarrow> dune_layout \<Rightarrow> dune \<Rightarrow> ((u64 \<times> dune_percpu) option \<times> dune) option" where
  "create_percpu H L s = (case h_fs_base H of
       None \<Rightarrow> Some (None, s)
     | Some fs_base \<Rightarrow>
         if h_percpu H = MAP_FAILED then Some (None, s)
         else do {
           s \<leftarrow> map_ptr L (h_percpu H) percpu_size s;
           let percpu = fresh_percpu\<lparr>kfs_base := fs_base, ufs_base := fs_base, in_usermode := 0\<rparr>;
           (ret, percpu, s) \<leftarrow> setup_safe_stack H L percpu s;
           if ret \<noteq> 0 then Some (None, s)
           else do {
             (ret, s) \<leftarrow> dune_vm_map_pages_add_flags (pgroot s) (h_percpu H) PGSIZE PERM_NOCOW s;
             ensure (ret = 0);
             Some (Some (h_percpu H, percpu), s)
           }
         })"

text \<open>The length of the stack goes through an \<open>int\<close>.\<close>

definition stack_perm :: u32 where
  "stack_perm = PERM_R OR PERM_X OR PERM_W OR PERM_USR4 OR PERM_NOCOW"

definition map_stack_into :: "dune_layout \<Rightarrow> u64 \<Rightarrow> u64 \<Rightarrow> u64 \<Rightarrow> dune \<Rightarrow> dune option" where
  "map_stack_into L root pg l s = map_option snd (dune_vm_map_phys root pg l (dune_va_to_pa L pg) stack_perm s)"

definition map_stack_cb :: "dune_layout \<Rightarrow> u64 \<Rightarrow> dune_procmap_entry \<Rightarrow> machine \<Rightarrow> machine option" where
  "map_stack_cb L esp e m = (
     if esp \<ge> pm_begin e \<and> esp < pm_end e then
       let p = pm_begin e;
           len = ucast (pm_end e - pm_begin e) :: u32;
           pg = PGADDR p;
           page_end = PGADDR (p + scast len);
           l = page_end - pg;
           st = fs m
       in if dbos_fast_spawn_enabled (avoid (glob m)) then
            if shadow_pgroot1 st \<noteq> 0 then do {
              ensure (shadow_pgroot2 st \<noteq> 0);
              s \<leftarrow> map_stack_into L (shadow_pgroot1 st) pg l (vm m);
              s \<leftarrow> map_stack_into L (shadow_pgroot2 st) pg l s;
              Some (m\<lparr>vm := s\<rparr>)
            }
            else do {
              ensure (main_pgroot st \<noteq> 0);
              s \<leftarrow> map_stack_into L (main_pgroot st) pg l (vm m);
              s \<leftarrow> (if pgroot_snapshot st \<noteq> 0 then map_stack_into L (pgroot_snapshot st) pg l s else Some s);
              Some (m\<lparr>vm := s\<rparr>)
            }
          else do {
            s \<leftarrow> map_stack_into L (pgroot (vm m)) pg l (vm m);
            Some (m\<lparr>vm := s\<rparr>)
          }
     else Some m)"

definition map_stack :: "host_env \<Rightarrow> dune_layout \<Rightarrow> machine \<Rightarrow> machine option" where
  "map_stack H L m = dune_procmap_iterate (h_maps H) (h_locals H) (map_stack_cb L (h_rsp H)) m"

record dune_config =
  cfg_ret :: int
  cfg_rax :: u64
  cfg_rbx :: u64
  cfg_rcx :: u64
  cfg_rdx :: u64
  cfg_rsi :: u64
  cfg_rdi :: u64
  cfg_rsp :: u64
  cfg_rbp :: u64
  cfg_r8 :: u64
  cfg_r9 :: u64
  cfg_r10 :: u64
  cfg_r11 :: u64
  cfg_r12 :: u64
  cfg_r13 :: u64
  cfg_r14 :: u64
  cfg_r15 :: u64
  cfg_rip :: u64
  cfg_rflags :: u64
  cfg_cr3 :: u64
  cfg_status :: int
  cfg_vcpu :: u64

definition entry_config :: "host_env \<Rightarrow> u64 \<Rightarrow> dune_config \<Rightarrow> dune_config" where
  "entry_config H root conf = conf\<lparr>cfg_vcpu := 0, cfg_rip := h_dune_ret H, cfg_rsp := 0, cfg_cr3 := root, cfg_rflags := 0x2\<rparr>"

text \<open>
  The thread that enters: its machine, the per-core data it booted with, its registers, and the
  configuration it hands to the module.
\<close>

record thread =
  t_machine :: machine
  t_percpu :: "(u64 \<times> dune_percpu) option"
  t_regs :: core_regs
  t_conf :: dune_config

definition do_dune_enter :: "host_env \<Rightarrow> dune_layout \<Rightarrow> u64 \<times> dune_percpu \<Rightarrow> thread \<Rightarrow> (int \<times> dune_percpu \<times> thread) option" where
  "do_dune_enter H L percpu t = do {
     m \<leftarrow> map_stack H L (t_machine t);
     (ret, s) \<leftarrow> dune_vm_map_pages_add_flags (pgroot (vm m)) (h_conf H) PGSIZE PERM_NOCOW (vm m);
     let t = t\<lparr>t_machine := m\<lparr>vm := s\<rparr>\<rparr>;
     if ret \<noteq> 0 then Some (ret, snd percpu, t)
     else do {
       let t = t\<lparr>t_conf := entry_config H (pgroot s) (t_conf t)\<rparr>;
       if h_enter H \<noteq> 0 then Some (- EIO, snd percpu, t)
       else do {
         let (ret, p, c) = dune_boot (h_idt H) (fst percpu) (snd percpu) (t_regs t);
         ensure (ret = 0);
         a \<leftarrow> dune_apic_init_rt_entry (core m) (h_apic_raw H) (intr m);
         Some (0, p, t\<lparr>t_regs := c, t_machine := (t_machine t)\<lparr>intr := a\<rparr>\<rparr>)
       }
     }
   }"

definition dune_enter :: "host_env \<Rightarrow> dune_layout \<Rightarrow> thread \<Rightarrow> (int \<times> thread) option" where
  "dune_enter H L t = (case t_percpu t of
       Some lpercpu \<Rightarrow> do {
         (ret, p, t) \<leftarrow> do_dune_enter H L lpercpu t;
         Some (ret, t\<lparr>t_percpu := Some (fst lpercpu, p)\<rparr>)
       }
     | None \<Rightarrow> do {
         (percpu, s) \<leftarrow> create_percpu H L (vm (t_machine t));
         let t = t\<lparr>t_machine := (t_machine t)\<lparr>vm := s\<rparr>\<rparr>;
         case percpu of
           None \<Rightarrow> Some (- ENOMEM, t)
         | Some percpu \<Rightarrow> do {
             (ret, p, t) \<leftarrow> do_dune_enter H L percpu t;
             if ret \<noteq> 0 then Some (ret, t)
             else Some (0, t\<lparr>t_percpu := Some (fst percpu, p)\<rparr>)
           }
       })"

section \<open>Leaving\<close>

definition DUNE_RET_EXIT :: int where [consts_def]: "DUNE_RET_EXIT = 1"
definition DUNE_RET_EPT_VIOLATION :: int where [consts_def]: "DUNE_RET_EPT_VIOLATION = 2"
definition DUNE_RET_INTERRUPT :: int where [consts_def]: "DUNE_RET_INTERRUPT = 3"
definition DUNE_RET_SIGNAL :: int where [consts_def]: "DUNE_RET_SIGNAL = 4"
definition DUNE_RET_UNHANDLED_VMEXIT :: int where [consts_def]: "DUNE_RET_UNHANDLED_VMEXIT = 5"
definition DUNE_RET_NOENTER :: int where [consts_def]: "DUNE_RET_NOENTER = 6"
definition X86_EFLAGS_TF :: u64 where [consts_def]: "X86_EFLAGS_TF = 0x100"

text \<open>
  What follows an exit: the process ends with a status, goes back into Dune mode, or goes on in
  Linux mode with the preemption trap set on an address.
\<close>

datatype exit_action = Sys_Exit int | Go_Dune dune_config | Go_Linux u64 dune_config | Exit_Failure

definition dune_debug_handle_int :: "dune_config \<Rightarrow> exit_action option" where
  "dune_debug_handle_int conf = (
     if cfg_status conf = 1 then Some (Go_Linux (cfg_rip conf) (conf\<lparr>cfg_rflags := cfg_rflags conf OR X86_EFLAGS_TF\<rparr>))
     else if cfg_status conf = 3 then Some (Go_Linux (cfg_rip conf) conf)
     else None)"

definition notify_on_resume :: "u64 \<Rightarrow> dune_config \<Rightarrow> exit_action" where
  "notify_on_resume regs_rflags conf = (
     let conf = conf\<lparr>cfg_rflags := cfg_rflags conf AND NOT X86_EFLAGS_TF\<rparr>;
         conf = conf\<lparr>cfg_rflags := cfg_rflags conf OR (regs_rflags AND X86_EFLAGS_TF)\<rparr>
     in Go_Dune conf)"

definition on_dune_exit :: "dune_config \<Rightarrow> exit_action" where
  "on_dune_exit conf = (
     if cfg_ret conf = DUNE_RET_EXIT then Sys_Exit (cfg_status conf)
     else if cfg_ret conf = DUNE_RET_EPT_VIOLATION then Exit_Failure
     else if cfg_ret conf = DUNE_RET_INTERRUPT then
       (case dune_debug_handle_int conf of Some act \<Rightarrow> act | None \<Rightarrow> Exit_Failure)
     else if cfg_ret conf = DUNE_RET_SIGNAL then Go_Dune conf
     else Exit_Failure)"

text \<open>
  The loop of \<open>dune.S\<close> around the exits: every re-entry is one answer of the module, a failure to
  enter being reported as an exit of its own. \<^const>\<open>None\<close> is still running.
\<close>

primrec dune_retry :: "(dune_config \<Rightarrow> int \<times> dune_config) list \<Rightarrow> dune_config \<Rightarrow> exit_action option" where
  "dune_retry [] conf = (case on_dune_exit conf of Go_Dune _ \<Rightarrow> None | act \<Rightarrow> Some act)"
| "dune_retry (ioctl # answers) conf = (case on_dune_exit conf of
       Go_Dune conf \<Rightarrow>
         let (rax, conf) = ioctl conf
         in dune_retry answers (if rax = 0 then conf else conf\<lparr>cfg_status := rax, cfg_ret := DUNE_RET_NOENTER\<rparr>)
     | act \<Rightarrow> Some act)"

section \<open>The default system-call handlers\<close>

definition PROT_READ :: u32 where [consts_def]: "PROT_READ = 1"
definition PROT_WRITE :: u32 where [consts_def]: "PROT_WRITE = 2"
definition PROT_EXEC :: u32 where [consts_def]: "PROT_EXEC = 4"
definition MAP_HUGETLB :: u64 where [consts_def]: "MAP_HUGETLB = 0x40000"
definition SYS_mmap :: u32 where [consts_def]: "SYS_mmap = 9"
definition GUEST_HUGE_PAGE_THRESHOLD :: u64 where [consts_def]: "GUEST_HUGE_PAGE_THRESHOLD = 16 * 1024 * 1024"

definition prot_to_perm :: "u32 \<Rightarrow> u32" where
  "prot_to_perm prot = (
     let perm = PERM_U;
         perm = (if tst prot PROT_READ then perm OR PERM_R else perm);
         perm = (if tst prot PROT_WRITE then perm OR PERM_W else perm)
     in if tst prot PROT_EXEC then perm OR PERM_X else perm)"

definition dune_default_syscall_handler :: "'s host_call \<Rightarrow> 's callback" where
  "dune_default_syscall_handler vmcall tf s = dune_passthrough_syscall vmcall tf s"

definition wants_huge :: "dune_tf \<Rightarrow> bool" where
  "wants_huge tf \<longleftrightarrow> tf_rsi tf \<ge> GUEST_HUGE_PAGE_THRESHOLD \<and> \<not> tst (ucast (tf_rdx tf)) PROT_EXEC"

definition dune_default_g0_syscall_handler :: "dune_layout \<Rightarrow> dune host_call \<Rightarrow> dune callback" where
  "dune_default_g0_syscall_handler L vmcall tf s = (
     if (ucast (tf_rax tf) :: u32) = SYS_mmap then do {
       let new_tf = (if wants_huge tf then tf\<lparr>tf_r10 := tf_r10 tf OR MAP_HUGETLB\<rparr> else tf);
       (new_tf, s) \<leftarrow> dune_passthrough_g0_syscall vmcall new_tf s;
       let tf' = tf\<lparr>tf_rax := tf_rax new_tf\<rparr>;
       if tf_rax new_tf \<noteq> MAP_FAILED \<and> wants_huge tf then do {
         (_, s) \<leftarrow> dune_vm_map_phys (pgroot s) (tf_rax new_tf) (tf_rsi tf) (dune_va_to_pa L (tf_rax new_tf))
            (prot_to_perm (ucast (tf_rdx tf)) OR PERM_BIG) s;
         Some (tf', s)
       } else Some (tf', s)
     }
     else dune_passthrough_g0_syscall vmcall tf s)"

section \<open>Initialisation\<close>

record 's library =
  lib_dune :: dune
  lib_layout :: dune_layout
  lib_idt :: "idtd list"
  lib_apic :: apic
  lib_handlers :: "'s handlers"
  lib_code :: "(u64 \<times> u64) option"

text \<open>The signals that stay enabled.\<close>

definition kept_signals :: "nat set" where
  "kept_signals = {2, 9, 15, 17, 19, 20}"

text \<open>The initialisation in the order of the source; a failing step ends it with that step's result.\<close>

definition init_interrupts :: "host_env \<Rightarrow> pmem \<Rightarrow> dune library \<Rightarrow> (int \<times> dune library) option" where
  "init_interrupts H pm b = do {
     ensure (\<forall>i \<in> {1 ..< 32} - kept_signals. h_sigaction_ok H i);
     let b = b\<lparr>lib_idt := setup_idt (h_dune_intr H)\<rparr>;
     (a, s) \<leftarrow> dune_setup_apic (h_nprocs H) (h_apic_buf H) (lib_apic b, lib_dune b);
     let b = b\<lparr>lib_apic := a, lib_dune := s\<rparr>;
     (ret, s) \<leftarrow> dune_vm_map_pages_add_flags (pgroot s) (pmem_alloc_begin pm) (pmem_alloc_end pm - pmem_alloc_begin pm) PERM_NOCOW s;
     let b = b\<lparr>lib_dune := s\<rparr>;
     if ret \<noteq> 0 then Some (ret, b) else do {
     (ret, s) \<leftarrow> dune_vm_map_pages_add_flags (pgroot s) PAGEBASE (PAGEBASE_END - PAGEBASE) PERM_NOCOW s;
     let b = b\<lparr>lib_dune := s\<rparr>;
     Some (ret, b)
   }}"

definition init_mappings :: "host_env \<Rightarrow> bool \<Rightarrow> dune library \<Rightarrow> (int \<times> dune library) option" where
  "init_mappings H map_full b = do {
     (ret, L, s) \<leftarrow> setup_mappings H map_full (lib_layout b, lib_dune b);
     let b = b\<lparr>lib_layout := L, lib_dune := s\<rparr>;
     if ret \<noteq> 0 then Some (ret, b) else do {
     (ret, code, s) \<leftarrow> setup_syscall H L s;
     let b = b\<lparr>lib_code := code, lib_dune := s\<rparr>;
     if ret \<noteq> 0 then Some (ret, b) else do {
     (ret, s) \<leftarrow> setup_apic_mapping L s;
     if ret \<noteq> 0 then Some (ret, b\<lparr>lib_dune := s\<rparr>) else do {
     (ret, s) \<leftarrow> setup_posted_intr_desc_mapping H L s;
     if ret \<noteq> 0 then Some (ret, b\<lparr>lib_dune := s\<rparr>) else do {
     (ret, s) \<leftarrow> setup_tlb_info_page_mapping H L s;
     Some (ret, b\<lparr>lib_dune := s\<rparr>)
   }}}}}"

definition dune_init :: "host_env \<Rightarrow> pmem \<Rightarrow> dune host_call \<Rightarrow> bool \<Rightarrow> dune library \<Rightarrow> (int \<times> dune library) option" where
  "dune_init H pm vmcall map_full b = (
     if h_open H \<le> 0 then Some (- h_errno H, b)
     else if h_memalign_root H = 0 then Some (- ENOMEM, b)
     else
       let s = (lib_dune b)\<lparr>pgroot := h_memalign_root H, mem := memset_page (h_memalign_root H) 0 (mem (lib_dune b))\<rparr>;
           (ret, p) = dune_page_init (h_pool_mmap_failed H) (h_mutex_init H) (pool s);
           b = b\<lparr>lib_dune := s\<lparr>pool := p\<rparr>\<rparr>
       in if ret \<noteq> 0 then Some (ret, b) else do {
            (ret, b) \<leftarrow> init_mappings H map_full b;
            if ret \<noteq> 0 then Some (ret, b) else do {
            (ret, b) \<leftarrow> init_interrupts H pm b;
            if ret \<noteq> 0 then Some (ret, b) else
              let h = dune_register_syscall_handler (Some (dune_default_syscall_handler vmcall)) (lib_handlers b);
                  h = dune_register_g0_syscall_handler (Some (dune_default_g0_syscall_handler (lib_layout b) vmcall)) h
              in Some (0, b\<lparr>lib_handlers := h\<rparr>)
          }})"

definition map_shared :: "dune_layout \<Rightarrow> u64 \<Rightarrow> u64 \<Rightarrow> u64 \<Rightarrow> dune \<Rightarrow> (int \<times> dune) option" where
  "map_shared L vmem bytes pmem s = dune_vm_map_phys (pgroot s) vmem bytes (dune_va_to_pa L pmem) (PERM_R OR PERM_W OR PERM_U OR PERM_NOCOW) s"

text \<open>
  The three regions of the messages. The last two are cleared before the result of \<open>mmap\<close> is
  looked at, so a failure there is an access to the address \<open>- 1\<close>.
\<close>

definition dune_ipi_init :: "host_env \<Rightarrow> dune callback \<Rightarrow> dune library \<Rightarrow> (int \<times> dune library) option" where
  "dune_ipi_init H ipi_handler b = (
     let L = lib_layout b
     in if h_rings H = MAP_FAILED then Some (- ENOMEM, b)
        else do {
          (ret, s) \<leftarrow> map_shared L IPI_ADDR_RING_BASE (percpu_ring_bytes * of_nat IPI_MAX_CPUS) (h_rings H) (lib_dune b);
          let b = b\<lparr>lib_dune := s\<rparr>;
          if ret \<noteq> 0 then Some (ret, b) else do {
          ensure (h_working H \<noteq> MAP_FAILED);
          (ret, s) \<leftarrow> map_shared L IPI_ADDR_WORKING_MEM_BASE (of_nat IPI_MAX_CPUS * PGSIZE) (h_working H) s;
          let b = b\<lparr>lib_dune := s\<rparr>;
          if ret \<noteq> 0 then Some (ret, b) else do {
          ensure (h_shared H \<noteq> MAP_FAILED);
          (ret, s) \<leftarrow> map_shared L IPI_ADDR_SHARED_STATE_BASE (PGSIZE * 10) (h_shared H) s;
          let b = b\<lparr>lib_dune := s\<rparr>;
          if ret \<noteq> 0 then Some (ret, b)
          else
            let (ret, h) = dune_register_intr_handler (uint IPI_VECTOR) (Some ipi_handler) (lib_handlers b)
            in Some (ret, b\<lparr>lib_handlers := h\<rparr>)
        }}})"

definition dune_init_with_ipi ::
    "host_env \<Rightarrow> pmem \<Rightarrow> dune host_call \<Rightarrow> dune callback \<Rightarrow> bool \<Rightarrow> dune library \<Rightarrow> (int \<times> dune library) option" where
  "dune_init_with_ipi H pm vmcall ipi_handler map_full b = do {
     (ret, b) \<leftarrow> dune_init H pm vmcall map_full b;
     if ret \<noteq> 0 then Some (ret, b) else dune_ipi_init H ipi_handler b
   }"

definition dbos_init ::
    "host_env \<Rightarrow> pmem \<Rightarrow> dune host_call \<Rightarrow> dune callback \<Rightarrow> bool \<Rightarrow> dune library \<Rightarrow> (int \<times> dune library) option" where
  "dbos_init H pm vmcall ipi_handler with_ipi b = (
     if with_ipi then dune_init_with_ipi H pm vmcall ipi_handler True b else dune_init H pm vmcall True b)"

text \<open>A page in the lower half of the address space and the page after it.\<close>

definition low_page :: "u64 \<Rightarrow> bool" where
  "low_page p \<longleftrightarrow> pg_aligned p \<and> unat p + 0x2000 < 0x800000000000"

definition example_layout :: dune_layout where
  "example_layout = \<lparr>phys_limit = 0x8000000000, base_map = 0x7f0000000000, base_stack = 0x7fffc0000000\<rparr>"

definition example_host :: host_env where
  "example_host = \<lparr>h_errno = 1, h_nprocs = 4, h_maps = Some [], h_locals = example_locals, h_open = 3, h_memalign_root = 0x1000,
     h_pool_mmap_failed = False, h_mutex_init = (\<lambda>_. 0), h_get_layout = (0, example_layout), h_get_syscall = 0xffffffff81800000,
     h_syscall_page = 0x7f0000003000, h_syscall_len = 0x100, h_vsyscall_page = 0x404000, h_apic_buf = 0x405000, h_sigaction_ok = (\<lambda>_. True),
     h_dune_intr = 0x406000, h_fs_base = Some 0x7f0000100000, h_percpu = 0x7f0000005000, h_safe_stack = 0x7f0000006000, h_rsp = 0x7fffc0000100,
     h_conf = 0x407000, h_dune_ret = 0x408000, h_enter = 0, h_idt = 0x409000, h_apic_raw = 0, h_rings = 0x7f0000010000,
     h_working = 0x7f0000020000, h_shared = 0x7f0000030000\<rparr>"

lemma nocow_perm: "get_pte_perm PERM_NOCOW = PTE_NX OR PTE_NOCOW"
  by (simp add: get_pte_perm_def Let_def tst_def consts_def)

lemma rw_perm: "get_pte_perm (PERM_R OR PERM_W) = PTE_P OR PTE_W OR PTE_NX"
  by (simp add: get_pte_perm_def Let_def tst_def consts_def)

lemma nocow_bit: "tst e PTE_NOCOW \<longleftrightarrow> bit e 60"
proof -
  have e: "PTE_NOCOW = 2 ^ 60" by (simp add: consts_def)
  show ?thesis unfolding e tst_exp by (rule refl)
qed

lemma rw_entry_not_nocow: "\<not> tst (PTE_ADDR a OR get_pte_perm (PERM_R OR PERM_W)) PTE_NOCOW"
proof -
  have "PTE_ADDR a AND PTE_NOCOW = 0" by (simp add: PTE_ADDR_def consts_def and.assoc)
  moreover have "(PTE_P OR PTE_W OR PTE_NX) AND PTE_NOCOW = 0" by (simp add: consts_def)
  ultimately show ?thesis unfolding rw_perm tst_def by (simp add: bit.conj_disj_distrib2)
qed

interpretation map_phys_frame: walk_invariant dune_vm_map_phys_helper "\<lambda>ws. pgroot (snd ws) = rt" for rt
  by unfold_locales (auto simp: dune_vm_map_phys_helper_def Let_def wr_def fill_frame)

lemma map_phys_pgroot: "dune_vm_map_phys root va len pa prm s = Some (ret, s') \<Longrightarrow> pgroot s' = pgroot s"
  by (auto simp: dune_vm_map_phys_def dune_vm_page_walk_at_def bind_Some_iff Let_def NPTLVLS_def dest: map_phys_frame.page_walk_inv [where rt = "pgroot s"])

lemma low_page_vpn:
  assumes "low_page p" "k < 0x2000"
  shows "vpn (p + of_nat k) = unat p div 4096 + k div 4096" "unat (p + of_nat k) = unat p + k"
proof -
  have al: "unat p mod 4096 = 0"
    using assms(1) unat_and_not_mask [of p 12] unfolding low_page_def pg_aligned_def PGADDR_mask by simp (metis mod_mult_self2_is_0)
  show u: "unat (p + of_nat k) = unat p + k" using assms by (simp add: low_page_def unat_word_ariths unat_of_nat)
  have "(unat p + k) div 4096 = unat p div 4096 + k div 4096" using al by (simp add: div_add1_eq)
  moreover have "(unat p + k) div 4096 < 0x1000000000" using assms by (intro less_mult_imp_div_less) (simp add: low_page_def)
  ultimately show "vpn (p + of_nat k) = unat p div 4096 + k div 4096" using u by (simp add: vpn_def)
qed

lemma low_page_next:
  assumes "low_page p"
  shows "vpn p = unat p div 4096" "vpn (p + PGSIZE) = Suc (vpn p)" "vpn (p + 2 * PGSIZE - 1) = Suc (vpn p)"
    "PGADDR (p + PGSIZE) = p + PGSIZE" "PGADDR p = p"
proof -
  note v = low_page_vpn [OF assms]
  show 1: "vpn p = unat p div 4096" using v(1) [of 0] by simp
  have e: "p + PGSIZE = p + of_nat 4096" by (simp add: PGSIZE_def)
  have d: "4096 div 4096 = (1 :: nat)" by simp
  show "vpn (p + PGSIZE) = Suc (vpn p)" unfolding e using v(1) [of 4096] 1 d by linarith
  have e: "p + 2 * PGSIZE - 1 = p + of_nat 8191" by (simp add: PGSIZE_def)
  have d: "8191 div 4096 = (1 :: nat)" by simp
  show "vpn (p + 2 * PGSIZE - 1) = Suc (vpn p)" unfolding e using v(1) [of 8191] 1 d by linarith
  show p: "PGADDR p = p" using assms by (simp add: low_page_def pg_aligned_def)
  have "unat p div 4096 * 4096 = unat p" using unat_and_not_mask [of p 12] p unfolding PGADDR_mask by simp
  then have "(unat p + 4096) div 4096 * 4096 = unat p + 4096" using div_add_self2 [of 4096 "unat p"] by linarith
  then have "unat (PGADDR (p + 4096)) = unat (p + 4096)"
    using v(2) [of 4096] unat_and_not_mask [of "p + 4096" 12] unfolding PGADDR_mask by simp
  then show "PGADDR (p + PGSIZE) = p + PGSIZE" unfolding PGSIZE_def word_eq_unat .
qed

lemma map_two_pages:
  assumes ok: "vm_ok T (pgroot s) s" and p: "low_page p"
    and small: "\<forall>n. vpn p \<le> n \<longrightarrow> n \<le> Suc (vpn p) \<longrightarrow> fst (pview (mem s) (pgroot s) n) = 0"
  obtains s' T' where "map_ptr L p PGSIZE s = Some s'" "vm_ok T' (pgroot s) s'" "pgroot s' = pgroot s"
    "\<And>n. vpn p \<le> n \<Longrightarrow> n \<le> Suc (vpn p) \<Longrightarrow>
       pview (mem s') (pgroot s) n = pview (mem s) (pgroot s) n \<or>
       (\<exists>a. pview (mem s') (pgroot s) n = (0, PTE_ADDR a OR get_pte_perm (PERM_R OR PERM_W)))"
proof -
  note n = low_page_next [OF p]
  have e: "p + (p + PGSIZE - p + PGSIZE) - 1 = p + 2 * PGSIZE - 1" by simp
  have b: "\<not> tst (PERM_R OR PERM_W) PERM_BIG" "\<not> tst (PERM_R OR PERM_W) PERM_BIG_1GB" by (simp_all add: tst_def consts_def)
  have v: "vpn p \<le> vpn (p + (p + PGSIZE - p + PGSIZE) - 1)" unfolding e n(3) by simp
  have sm: "\<forall>k. vpn p \<le> k \<longrightarrow> k \<le> vpn (p + (p + PGSIZE - p + PGSIZE) - 1) \<longrightarrow> fst (pview (mem s) (pgroot s) k) = 0"
    using small unfolding e n(3) by simp
  obtain ret s' T' where r: "dune_vm_map_phys (pgroot s) p (p + PGSIZE - p + PGSIZE) (dune_va_to_pa L p) (PERM_R OR PERM_W) s = Some (ret, s')"
      "vm_ok T' (pgroot s) s'"
    and view: "\<forall>k < 0x1000000000. if vpn p \<le> k \<and> k \<le> vpn (p + (p + PGSIZE - p + PGSIZE) - 1)
        then pview (mem s') (pgroot s) k = (0, PTE_ADDR (va_of (hi16 p) k - p + dune_va_to_pa L p) OR get_pte_perm (PERM_R OR PERM_W)) \<or>
             ret \<noteq> 0 \<and> pview (mem s') (pgroot s) k = pview (mem s) (pgroot s) k
        else pview (mem s') (pgroot s) k = pview (mem s) (pgroot s) k"
    using map_phys_refines [OF ok b v sm] by blast
  show thesis
  proof (rule that [OF _ r(2) map_phys_pgroot [OF r(1)]])
    show "map_ptr L p PGSIZE s = Some s'" using r(1) by (simp add: map_ptr_def Let_def n(4,5))
    fix k
    assume k: "vpn p \<le> k" "k \<le> Suc (vpn p)"
    moreover have "Suc (vpn p) < 0x1000000000" using vpn_less [of "p + PGSIZE"] n(2) by simp
    ultimately have "k < 0x1000000000" by simp
    with view k show "pview (mem s') (pgroot s) k = pview (mem s) (pgroot s) k \<or>
       (\<exists>a. pview (mem s') (pgroot s) k = (0, PTE_ADDR a OR get_pte_perm (PERM_R OR PERM_W)))"
      unfolding e n(3) by meson
  qed
qed

text \<open>
  C1: marking a range as exempt from copy-on-write also takes the right to execute it: with the
  permission word the callers pass, the flags added to every entry that is not empty are the exempt
  flag and the no-execute flag; entries outside of the range keep their values.
\<close>

theorem nocow_takes_execute_permission:
  assumes "vm_ok T root s" "vpn va \<le> vpn (va + len - 1)"
  shows "\<exists>ret s' T'. dune_vm_map_pages_add_flags root va len PERM_NOCOW s = Some (ret, s') \<and> vm_ok T' root s' \<and>
    (\<forall>n < 0x1000000000. let (l, e) = pview (mem s) root n in
       if covered (vpn va) (vpn (va + len - 1)) l n \<and> (0 < l \<or> e \<noteq> 0)
       then pview (mem s') root n = (l, e OR PTE_NX OR PTE_NOCOW) \<or> ret \<noteq> 0 \<and> pview (mem s') root n = (l, e)
       else pview (mem s') root n = (l, e))"
  using add_flags_refines [OF assms, of PERM_NOCOW] unfolding nocow_perm by (simp add: Let_def or.assoc)

theorem nocow_takes_execute_permission_witness:
  "\<exists>ret s' T'. dune_vm_map_pages_add_flags 0x1000 0x400000 0x3000 PERM_NOCOW example_dune = Some (ret, s') \<and> vm_ok T' 0x1000 s'"
  using nocow_takes_execute_permission [OF example_dune_ok, of "0x400000" "0x3000"] by (auto simp: vpn_def)

text \<open>
  C2: the stack for faults is not exempt from copy-on-write. The setup moves its pointer to the end of the stack before it adds
  the flag, so the flag goes to the page behind the stack: the stack's own page never gets it, although the
  stack pointers of the task segment all start at its end.
\<close>

theorem safe_stack_not_exempt:
  assumes "vm_ok T (pgroot s) s" "low_page (h_safe_stack H)"
    "\<forall>n. vpn (h_safe_stack H) \<le> n \<longrightarrow> n \<le> Suc (vpn (h_safe_stack H)) \<longrightarrow> fst (pview (mem s) (pgroot s) n) = 0"
    "\<not> tst (snd (pview (mem s) (pgroot s) (vpn (h_safe_stack H)))) PTE_NOCOW" "length (tss_rsp (tss percpu)) = 3"
  shows "\<exists>ret percpu' s'. setup_safe_stack H L percpu s = Some (ret, percpu', s') \<and>
    \<not> tst (snd (pview (mem s') (pgroot s) (vpn (h_safe_stack H)))) PTE_NOCOW \<and>
    (ret = 0 \<and> snd (pview (mem s') (pgroot s) (Suc (vpn (h_safe_stack H)))) \<noteq> 0 \<longrightarrow>
       tst (snd (pview (mem s') (pgroot s) (Suc (vpn (h_safe_stack H))))) PTE_NOCOW) \<and>
    tss_ist (tss percpu') ! 1 = h_safe_stack H + PGSIZE \<and> tss_rsp (tss percpu') ! 0 = h_safe_stack H + PGSIZE"
proof -
  let ?p = "h_safe_stack H" and ?root = "pgroot s"
  note n = low_page_next [OF assms(2)]
  obtain s1 T1 where s1: "map_ptr L ?p PGSIZE s = Some s1" "vm_ok T1 ?root s1" "pgroot s1 = ?root"
    "\<And>k. vpn ?p \<le> k \<Longrightarrow> k \<le> Suc (vpn ?p) \<Longrightarrow> pview (mem s1) ?root k = pview (mem s) ?root k \<or>
       (\<exists>a. pview (mem s1) ?root k = (0, PTE_ADDR a OR get_pte_perm (PERM_R OR PERM_W)))"
    using map_two_pages [OF assms(1-3), of L] by metis
  have e: "vpn (?p + PGSIZE + PGSIZE - 1) = Suc (vpn ?p)" using n(3) by (simp add: add.assoc)
  have le: "vpn (?p + PGSIZE) \<le> vpn (?p + PGSIZE + PGSIZE - 1)" unfolding e n(2) by simp
  obtain ret s2 T2 where s2: "dune_vm_map_pages_add_flags ?root (?p + PGSIZE) PGSIZE PERM_NOCOW s1 = Some (ret, s2)"
    "\<forall>k < 0x1000000000. let (l, e) = pview (mem s1) ?root k; added = (l, e OR get_pte_perm PERM_NOCOW) in
       if covered (Suc (vpn ?p)) (Suc (vpn ?p)) l k \<and> (0 < l \<or> e \<noteq> 0)
       then pview (mem s2) ?root k = added \<or> ret \<noteq> 0 \<and> pview (mem s2) ?root k = (l, e)
       else pview (mem s2) ?root k = (l, e)"
    using add_flags_refines [OF s1(2) le, of PERM_NOCOW] unfolding e n(2) by blast
  have small: "fst (pview (mem s1) ?root k) = 0" if "vpn ?p \<le> k" "k \<le> Suc (vpn ?p)" for k
    using s1(4) [OF that] assms(3) that by auto
  have lt: "Suc (vpn ?p) < 0x1000000000" using vpn_less [of "?p + PGSIZE"] n(2) by simp
  have own: "pview (mem s2) ?root (vpn ?p) = pview (mem s1) ?root (vpn ?p)"
    using s2(2) [rule_format, of "vpn ?p"] small [of "vpn ?p"] lt by (cases "pview (mem s1) ?root (vpn ?p)") (simp add: covered_def Let_def)
  have "\<not> tst (snd (pview (mem s1) ?root (vpn ?p))) PTE_NOCOW"
    using s1(4) [of "vpn ?p"] assms(4) rw_entry_not_nocow by auto
  moreover have "tst (x OR get_pte_perm PERM_NOCOW) PTE_NOCOW" for x
    unfolding nocow_perm nocow_bit by (simp add: bit_or_iff) (simp add: consts_def bit_iff_odd)
  then have "ret = 0 \<Longrightarrow> snd (pview (mem s2) ?root (Suc (vpn ?p))) \<noteq> 0 \<Longrightarrow> tst (snd (pview (mem s2) ?root (Suc (vpn ?p)))) PTE_NOCOW"
    using s2(2) [rule_format, of "Suc (vpn ?p)"] small [of "Suc (vpn ?p)"] lt
    by (cases "pview (mem s1) ?root (Suc (vpn ?p))") (auto simp: covered_def Let_def split: if_splits)
  moreover have "?p \<noteq> MAP_FAILED" using assms(2) by (auto simp: low_page_def MAP_FAILED_def unsigned_minus_1_eq_mask mask_eq_exp_minus_1)
  ultimately show ?thesis
    using s1(1,3) s2(1) own assms(5) by (simp add: setup_safe_stack_def Let_def)
qed

theorem safe_stack_not_exempt_witness:
  "\<exists>ret percpu' s'. setup_safe_stack example_host example_layout fresh_percpu example_dune = Some (ret, percpu', s') \<and>
    \<not> tst (snd (pview (mem s') 0x1000 (vpn 0x7f0000006000))) PTE_NOCOW \<and> tss_ist (tss percpu') ! 1 = 0x7f0000007000"
proof -
  have r: "pgroot example_dune = 0x1000" "h_safe_stack example_host = 0x7f0000006000"
    by (simp_all add: example_dune_def example_host_def)
  have v: "pview (mem example_dune) 0x1000 n = (0, 0)" for n
    by (simp add: example_dune_def pview_def numeral_3_eq_3 pt_leaf_Suc is_leaf_def zero_entry)
  have 1: "vm_ok example_tables (pgroot example_dune) example_dune" "low_page (h_safe_stack example_host)"
    unfolding r by (rule example_dune_ok) (simp add: low_page_def pg_aligned_def PGADDR_def)
  have 2: "\<forall>n. vpn (h_safe_stack example_host) \<le> n \<longrightarrow> n \<le> Suc (vpn (h_safe_stack example_host)) \<longrightarrow> fst (pview (mem example_dune) (pgroot example_dune) n) = 0"
    "\<not> tst (snd (pview (mem example_dune) (pgroot example_dune) (vpn (h_safe_stack example_host)))) PTE_NOCOW"
    "length (tss_rsp (tss fresh_percpu)) = 3"
    unfolding r by (simp_all add: v fresh_percpu_def)
  have p: "0x7f0000006000 + PGSIZE = 0x7f0000007000" by (simp add: PGSIZE_def)
  show ?thesis
    using safe_stack_not_exempt [OF 1 2, of example_layout] unfolding r p by blast
qed

section \<open>The system-call page and the loop around exits\<close>

lemma page_offset: "a - (a AND NOT (PGSIZE - 1)) = a AND 0xfff"
proof -
  have m: "(0xfff :: u64) = mask 12" "PGSIZE - 1 = (mask 12 :: u64)" by (simp_all add: mask_eq_exp_minus_1 PGSIZE_def)
  have "(a AND mask 12) + (a AND NOT (mask 12)) = (a AND mask 12) OR (a AND NOT (mask 12))"
    by (rule disjunctive_add_eq_or, rule bit_word_eqI) (auto simp: bit_simps)
  also have "\<dots> = a" by (rule and_or_not)
  finally show ?thesis unfolding m by (metis add_diff_cancel_right')
qed

text \<open>The copied system-call code lies inside the two pages that are mapped for it.\<close>

lemma syscall_code_fits:
  assumes "setup_syscall H L s = Some (ret, Some (dst, n), s')"
  shows "unat (dst - h_syscall_page H) + unat n < 8192"
proof -
  have "dst = h_syscall_page H + (h_get_syscall H AND 0xfff)" "n = h_syscall_len H" "h_syscall_len H < PGSIZE"
    using assms by (auto simp: setup_syscall_def Let_def page_offset bind_Some_iff split: if_splits)
  moreover have "unat (h_get_syscall H AND 0xfff) < 4096"
    using unat_and_mask [of "h_get_syscall H" 12] by (simp add: mask_eq_exp_minus_1)
  ultimately show ?thesis by (simp add: word_less_nat_alt PGSIZE_def)
qed

lemma failed_reentry_ends:
  assumes "on_dune_exit conf = Go_Dune c" "fst (ioctl c) \<noteq> 0"
  shows "dune_retry (ioctl # answers) conf = Some Exit_Failure"
  using assms by (cases answers) (auto simp: Let_def split_beta on_dune_exit_def consts_def)

lemma retry_leaves: "dune_retry answers conf = Some act \<Longrightarrow> act \<noteq> Go_Dune c"
  by (induction answers arbitrary: conf) (auto simp: Let_def split: exit_action.splits prod.splits)

lemma only_signals_reenter: "on_dune_exit conf = Go_Dune c \<longleftrightarrow> cfg_ret conf = DUNE_RET_SIGNAL \<and> c = conf"
  by (auto simp: on_dune_exit_def dune_debug_handle_int_def consts_def)

text \<open>
  Single-stepping: the trap flag of the resumed configuration is the one Linux had, and no other flag changes.
\<close>

lemma resume_copies_trap_flag:
  "notify_on_resume f conf = Go_Dune c \<Longrightarrow>
     cfg_rflags c AND X86_EFLAGS_TF = f AND X86_EFLAGS_TF \<and> cfg_rflags c AND NOT X86_EFLAGS_TF = cfg_rflags conf AND NOT X86_EFLAGS_TF"
  by (auto simp: notify_on_resume_def Let_def intro!: bit_word_eqI simp: bit_simps)

end
