(* ===== verification/Vmx_Control.thy ===== *)
theory Vmx_Control
  imports Apic
begin

text \<open>
  The start of the VMX driver (\<open>kern/vmx.c\<close>): the choice of the execution controls from
  the capability registers of the processor, the bitmap of the model-specific registers a guest may
  touch, switching VMX on and off on every core, and the driver's way to post an interrupt
  (with the routing table of \<open>kern/apic.c\<close>). A capability register is an argument,
  \<open>rdmsrl\<close>, as is the allocator of the host.
\<close>

unbundle bit_operations_syntax

section \<open>Capability registers and controls\<close>

definition EIO :: int where [consts_def]: "EIO = 5"
definition EBUSY :: int where [consts_def]: "EBUSY = 16"

definition MSR_IA32_VMX_BASIC :: u32 where [consts_def]: "MSR_IA32_VMX_BASIC = 0x480"
definition MSR_IA32_VMX_PINBASED_CTLS :: u32 where [consts_def]: "MSR_IA32_VMX_PINBASED_CTLS = 0x481"
definition MSR_IA32_VMX_PROCBASED_CTLS :: u32 where [consts_def]: "MSR_IA32_VMX_PROCBASED_CTLS = 0x482"
definition MSR_IA32_VMX_EXIT_CTLS :: u32 where [consts_def]: "MSR_IA32_VMX_EXIT_CTLS = 0x483"
definition MSR_IA32_VMX_ENTRY_CTLS :: u32 where [consts_def]: "MSR_IA32_VMX_ENTRY_CTLS = 0x484"
definition MSR_IA32_VMX_PROCBASED_CTLS2 :: u32 where [consts_def]: "MSR_IA32_VMX_PROCBASED_CTLS2 = 0x48b"
definition MSR_IA32_VMX_EPT_VPID_CAP :: u32 where [consts_def]: "MSR_IA32_VMX_EPT_VPID_CAP = 0x48c"
definition MSR_IA32_VMX_TRUE_PINBASED_CTLS :: u32 where [consts_def]: "MSR_IA32_VMX_TRUE_PINBASED_CTLS = 0x48d"

definition PIN_BASED_EXT_INTR_MASK :: u32 where [consts_def]: "PIN_BASED_EXT_INTR_MASK = 0x1"
definition PIN_BASED_NMI_EXITING :: u32 where [consts_def]: "PIN_BASED_NMI_EXITING = 0x8"
definition PIN_BASED_VIRTUAL_NMIS :: u32 where [consts_def]: "PIN_BASED_VIRTUAL_NMIS = 0x20"
definition PIN_BASED_POSTED_INTR :: u32 where [consts_def]: "PIN_BASED_POSTED_INTR = 0x80"

definition CPU_BASED_USE_TSC_OFFSETING :: u32 where [consts_def]: "CPU_BASED_USE_TSC_OFFSETING = 0x8"
definition CPU_BASED_INVLPG_EXITING :: u32 where [consts_def]: "CPU_BASED_INVLPG_EXITING = 0x200"
definition CPU_BASED_CR3_LOAD_EXITING :: u32 where [consts_def]: "CPU_BASED_CR3_LOAD_EXITING = 0x8000"
definition CPU_BASED_CR3_STORE_EXITING :: u32 where [consts_def]: "CPU_BASED_CR3_STORE_EXITING = 0x10000"
definition CPU_BASED_CR8_LOAD_EXITING :: u32 where [consts_def]: "CPU_BASED_CR8_LOAD_EXITING = 0x80000"
definition CPU_BASED_CR8_STORE_EXITING :: u32 where [consts_def]: "CPU_BASED_CR8_STORE_EXITING = 0x100000"
definition CPU_BASED_TPR_SHADOW :: u32 where [consts_def]: "CPU_BASED_TPR_SHADOW = 0x200000"
definition CPU_BASED_MOV_DR_EXITING :: u32 where [consts_def]: "CPU_BASED_MOV_DR_EXITING = 0x800000"
definition CPU_BASED_USE_MSR_BITMAPS :: u32 where [consts_def]: "CPU_BASED_USE_MSR_BITMAPS = 0x10000000"
definition CPU_BASED_ACTIVATE_SECONDARY_CONTROLS :: u32 where
  [consts_def]: "CPU_BASED_ACTIVATE_SECONDARY_CONTROLS = 0x80000000"

definition SECONDARY_EXEC_ENABLE_EPT :: u32 where [consts_def]: "SECONDARY_EXEC_ENABLE_EPT = 0x2"
definition SECONDARY_EXEC_RDTSCP :: u32 where [consts_def]: "SECONDARY_EXEC_RDTSCP = 0x8"
definition SECONDARY_EXEC_VIRTUALIZE_X2APIC_MODE :: u32 where
  [consts_def]: "SECONDARY_EXEC_VIRTUALIZE_X2APIC_MODE = 0x10"
definition SECONDARY_EXEC_ENABLE_VPID :: u32 where [consts_def]: "SECONDARY_EXEC_ENABLE_VPID = 0x20"
definition SECONDARY_EXEC_WBINVD_EXITING :: u32 where [consts_def]: "SECONDARY_EXEC_WBINVD_EXITING = 0x40"
definition SECONDARY_EXEC_APIC_REGISTER_VIRT :: u32 where
  [consts_def]: "SECONDARY_EXEC_APIC_REGISTER_VIRT = 0x100"
definition SECONDARY_EXEC_VIRTUAL_INTR_DELIVERY :: u32 where
  [consts_def]: "SECONDARY_EXEC_VIRTUAL_INTR_DELIVERY = 0x200"
definition SECONDARY_EXEC_ENABLE_INVPCID :: u32 where [consts_def]: "SECONDARY_EXEC_ENABLE_INVPCID = 0x1000"

definition VM_EXIT_HOST_ADDR_SPACE_SIZE :: u32 where [consts_def]: "VM_EXIT_HOST_ADDR_SPACE_SIZE = 0x200"
definition VM_EXIT_ACK_INTR_ON_EXIT :: u32 where [consts_def]: "VM_EXIT_ACK_INTR_ON_EXIT = 0x8000"
definition VM_EXIT_LOAD_IA32_EFER :: u32 where [consts_def]: "VM_EXIT_LOAD_IA32_EFER = 0x200000"
definition VM_ENTRY_IA32E_MODE :: u32 where [consts_def]: "VM_ENTRY_IA32E_MODE = 0x200"
definition VM_ENTRY_LOAD_IA32_EFER :: u32 where [consts_def]: "VM_ENTRY_LOAD_IA32_EFER = 0x8000"

definition VMX_EPT_AD_BIT :: u32 where [consts_def]: "VMX_EPT_AD_BIT = 0x200000"
definition VMX_EPT_EXTENT_CONTEXT_BIT :: u32 where [consts_def]: "VMX_EPT_EXTENT_CONTEXT_BIT = 0x2000000"
definition VMX_EPT_EXTENT_GLOBAL_BIT :: u32 where [consts_def]: "VMX_EPT_EXTENT_GLOBAL_BIT = 0x4000000"
definition VMX_EPT_EXTENT_INDIVIDUAL_BIT :: u32 where [consts_def]: "VMX_EPT_EXTENT_INDIVIDUAL_BIT = 0x1000000"
definition VMX_VPID_EXTENT_SINGLE_CONTEXT_BIT :: u32 where [consts_def]: "VMX_VPID_EXTENT_SINGLE_CONTEXT_BIT = 0x200"
definition VMX_VPID_EXTENT_GLOBAL_CONTEXT_BIT :: u32 where [consts_def]: "VMX_VPID_EXTENT_GLOBAL_CONTEXT_BIT = 0x400"

record vmx_capability =
  cap_pin_based :: u64
  cap_secondary :: u64
  cap_ept :: u32
  cap_vpid :: u32
  has_load_efer :: bool

record vmcs_config =
  vc_size :: u32
  vc_order :: nat
  revision_id :: u32
  pin_based_exec_ctrl :: u32
  cpu_based_exec_ctrl :: u32
  cpu_based_2nd_exec_ctrl :: u32
  vmexit_ctrl :: u32
  vmentry_ctrl :: u32

type_synonym msr_file = "u32 \<Rightarrow> u64"

definition msr_low :: "msr_file \<Rightarrow> u32 \<Rightarrow> u32" where
  "msr_low rdmsrl msr = ucast (rdmsrl msr)"

definition msr_high :: "msr_file \<Rightarrow> u32 \<Rightarrow> u32" where
  "msr_high rdmsrl msr = ucast (drop_bit 32 (rdmsrl msr))"

text \<open>The value \<^const>\<open>None\<close> is the return of \<open>-EIO\<close>.\<close>

definition adjust_vmx_controls :: "msr_file \<Rightarrow> u32 \<Rightarrow> u32 \<Rightarrow> u32 \<Rightarrow> u32 option" where
  "adjust_vmx_controls rdmsrl ctl_min ctl_opt msr = (
     let ctl = ctl_min OR ctl_opt;
         ctl = ctl AND msr_high rdmsrl msr;
         ctl = ctl OR msr_low rdmsrl msr
     in if tst ctl_min (NOT ctl) then None else Some ctl)"

definition allow_1_setting :: "msr_file \<Rightarrow> u32 \<Rightarrow> u32 \<Rightarrow> bool" where
  "allow_1_setting rdmsrl msr ctl \<longleftrightarrow> tst (msr_high rdmsrl msr) ctl"

definition pin_min :: u32 where
  [consts_def]: "pin_min = PIN_BASED_EXT_INTR_MASK OR PIN_BASED_NMI_EXITING"

definition pin_opt :: u32 where
  [consts_def]: "pin_opt = PIN_BASED_VIRTUAL_NMIS OR PIN_BASED_POSTED_INTR"

definition cpu_min :: u32 where
  [consts_def]: "cpu_min = CPU_BASED_CR8_LOAD_EXITING OR CPU_BASED_CR8_STORE_EXITING OR
     CPU_BASED_CR3_LOAD_EXITING OR CPU_BASED_CR3_STORE_EXITING OR
     CPU_BASED_MOV_DR_EXITING OR CPU_BASED_USE_TSC_OFFSETING OR CPU_BASED_INVLPG_EXITING"

definition cpu_opt :: u32 where
  [consts_def]: "cpu_opt = CPU_BASED_TPR_SHADOW OR CPU_BASED_USE_MSR_BITMAPS OR CPU_BASED_ACTIVATE_SECONDARY_CONTROLS"

definition cpu_opt2 :: u32 where
  [consts_def]: "cpu_opt2 = SECONDARY_EXEC_WBINVD_EXITING OR SECONDARY_EXEC_ENABLE_VPID OR
     SECONDARY_EXEC_ENABLE_EPT OR SECONDARY_EXEC_RDTSCP OR SECONDARY_EXEC_ENABLE_INVPCID OR
     SECONDARY_EXEC_VIRTUALIZE_X2APIC_MODE OR SECONDARY_EXEC_APIC_REGISTER_VIRT OR
     SECONDARY_EXEC_VIRTUAL_INTR_DELIVERY"

text \<open>The pin-based capability: the code tests bit 55 of the register itself.\<close>

definition pin_capability :: "msr_file \<Rightarrow> u64" where
  "pin_capability rdmsrl = (
     if bit (rdmsrl MSR_IA32_VMX_PINBASED_CTLS) 55 then rdmsrl MSR_IA32_VMX_TRUE_PINBASED_CTLS
     else rdmsrl MSR_IA32_VMX_PINBASED_CTLS)"

text \<open>The primary controls with the exits the later features make unnecessary taken out.\<close>

definition drop_cr8_exits :: "u32 \<Rightarrow> u32" where
  "drop_cr8_exits c = (
     if tst c CPU_BASED_TPR_SHADOW
     then c AND (NOT CPU_BASED_CR8_LOAD_EXITING AND NOT CPU_BASED_CR8_STORE_EXITING) else c)"

definition drop_cr3_exits :: "u32 \<Rightarrow> u32 \<Rightarrow> u32" where
  "drop_cr3_exits c2 c = (
     if tst c2 SECONDARY_EXEC_ENABLE_EPT
     then c AND NOT (CPU_BASED_CR3_LOAD_EXITING OR CPU_BASED_CR3_STORE_EXITING OR CPU_BASED_INVLPG_EXITING)
     else c)"

definition secondary_controls :: "msr_file \<Rightarrow> u32 \<Rightarrow> u32 option" where
  "secondary_controls rdmsrl c = (
     if tst c CPU_BASED_ACTIVATE_SECONDARY_CONTROLS
     then adjust_vmx_controls rdmsrl 0 cpu_opt2 MSR_IA32_VMX_PROCBASED_CTLS2 else Some 0)"

text \<open>The checks of the VMCS format, and what is stored when they pass.\<close>

definition vmcs_format_ok :: "msr_file \<Rightarrow> bool" where
  "vmcs_format_ok rdmsrl \<longleftrightarrow> (
     let high = msr_high rdmsrl MSR_IA32_VMX_BASIC
     in \<not> high AND 0x1fff > 4096 \<and> \<not> tst high (push_bit 16 1) \<and> drop_bit 18 high AND 15 = 6)"

definition setup_vmcs_config ::
  "msr_file \<Rightarrow> (u32 \<Rightarrow> nat) \<Rightarrow> vmx_capability \<times> vmcs_config \<Rightarrow> int \<times> vmx_capability \<times> vmcs_config" where
  "setup_vmcs_config rdmsrl get_order = (\<lambda>(cap, conf).
     case adjust_vmx_controls rdmsrl pin_min pin_opt MSR_IA32_VMX_PINBASED_CTLS of
       None \<Rightarrow> (- EIO, cap, conf)
     | Some pin \<Rightarrow>
       let cap = cap\<lparr>cap_pin_based := pin_capability rdmsrl\<rparr>
       in case adjust_vmx_controls rdmsrl cpu_min cpu_opt MSR_IA32_VMX_PROCBASED_CTLS of
         None \<Rightarrow> (- EIO, cap, conf)
       | Some cpu \<Rightarrow>
         let cpu = drop_cr8_exits cpu
         in case secondary_controls rdmsrl cpu of
           None \<Rightarrow> (- EIO, cap, conf)
         | Some cpu2 \<Rightarrow>
           let cpu = drop_cr3_exits cpu2 cpu;
               cap = (if tst cpu2 SECONDARY_EXEC_ENABLE_EPT
                 then cap\<lparr>cap_ept := msr_low rdmsrl MSR_IA32_VMX_EPT_VPID_CAP,
                          cap_vpid := msr_high rdmsrl MSR_IA32_VMX_EPT_VPID_CAP\<rparr> else cap);
               cap = cap\<lparr>cap_secondary := rdmsrl MSR_IA32_VMX_PROCBASED_CTLS2\<rparr>
           in case adjust_vmx_controls rdmsrl VM_EXIT_HOST_ADDR_SPACE_SIZE VM_EXIT_ACK_INTR_ON_EXIT MSR_IA32_VMX_EXIT_CTLS of
             None \<Rightarrow> (- EIO, cap, conf)
           | Some vmexit \<Rightarrow>
             (case adjust_vmx_controls rdmsrl 0 0 MSR_IA32_VMX_ENTRY_CTLS of
               None \<Rightarrow> (- EIO, cap, conf)
             | Some vmentry \<Rightarrow>
               if \<not> vmcs_format_ok rdmsrl then (- EIO, cap, conf)
               else
                 let sz = msr_high rdmsrl MSR_IA32_VMX_BASIC AND 0x1fff
                 in (0, cap\<lparr>has_load_efer := allow_1_setting rdmsrl MSR_IA32_VMX_ENTRY_CTLS VM_ENTRY_LOAD_IA32_EFER \<and>
                                allow_1_setting rdmsrl MSR_IA32_VMX_EXIT_CTLS VM_EXIT_LOAD_IA32_EFER\<rparr>,
                    \<lparr>vc_size = sz, vc_order = get_order sz, revision_id = msr_low rdmsrl MSR_IA32_VMX_BASIC,
                     pin_based_exec_ctrl = pin, cpu_based_exec_ctrl = cpu, cpu_based_2nd_exec_ctrl = cpu2,
                     vmexit_ctrl = vmexit, vmentry_ctrl = vmentry\<rparr>)))"

definition cpu_has_secondary_exec_ctrls :: "vmcs_config \<Rightarrow> bool" where
  "cpu_has_secondary_exec_ctrls conf \<longleftrightarrow> tst (cpu_based_exec_ctrl conf) CPU_BASED_ACTIVATE_SECONDARY_CONTROLS"

definition cpu_has_vmx_vpid :: "vmcs_config \<Rightarrow> bool" where
  "cpu_has_vmx_vpid conf \<longleftrightarrow> tst (cpu_based_2nd_exec_ctrl conf) SECONDARY_EXEC_ENABLE_VPID"

definition cpu_has_vmx_invpcid :: "vmcs_config \<Rightarrow> bool" where
  "cpu_has_vmx_invpcid conf \<longleftrightarrow> tst (cpu_based_2nd_exec_ctrl conf) SECONDARY_EXEC_ENABLE_INVPCID"

definition cpu_has_vmx_ept :: "vmcs_config \<Rightarrow> bool" where
  "cpu_has_vmx_ept conf \<longleftrightarrow> tst (cpu_based_2nd_exec_ctrl conf) SECONDARY_EXEC_ENABLE_EPT"

definition cpu_has_vmx_invvpid_single :: "vmx_capability \<Rightarrow> bool" where
  "cpu_has_vmx_invvpid_single cap \<longleftrightarrow> tst (cap_vpid cap) VMX_VPID_EXTENT_SINGLE_CONTEXT_BIT"

definition cpu_has_vmx_invvpid_global :: "vmx_capability \<Rightarrow> bool" where
  "cpu_has_vmx_invvpid_global cap \<longleftrightarrow> tst (cap_vpid cap) VMX_VPID_EXTENT_GLOBAL_CONTEXT_BIT"

definition cpu_has_vmx_invept_individual_addr :: "vmx_capability \<Rightarrow> bool" where
  "cpu_has_vmx_invept_individual_addr cap \<longleftrightarrow> tst (cap_ept cap) VMX_EPT_EXTENT_INDIVIDUAL_BIT"

definition cpu_has_vmx_invept_context :: "vmx_capability \<Rightarrow> bool" where
  "cpu_has_vmx_invept_context cap \<longleftrightarrow> tst (cap_ept cap) VMX_EPT_EXTENT_CONTEXT_BIT"

definition cpu_has_vmx_invept_global :: "vmx_capability \<Rightarrow> bool" where
  "cpu_has_vmx_invept_global cap \<longleftrightarrow> tst (cap_ept cap) VMX_EPT_EXTENT_GLOBAL_BIT"

definition cpu_has_vmx_ept_ad_bits :: "vmx_capability \<Rightarrow> bool" where
  "cpu_has_vmx_ept_ad_bits cap \<longleftrightarrow> tst (cap_ept cap) VMX_EPT_AD_BIT"

definition cpu_has_apic_register_virt :: "vmx_capability \<Rightarrow> bool" where
  "cpu_has_apic_register_virt cap \<longleftrightarrow> tst (drop_bit 32 (cap_secondary cap)) (ucast SECONDARY_EXEC_APIC_REGISTER_VIRT)"

definition cpu_has_posted_interrupts :: "vmx_capability \<Rightarrow> bool" where
  "cpu_has_posted_interrupts cap \<longleftrightarrow> tst (drop_bit 32 (cap_pin_based cap)) (ucast PIN_BASED_POSTED_INTR)"

section \<open>The bitmap of unintercepted registers\<close>

definition MSR_FS_BASE :: u32 where [consts_def]: "MSR_FS_BASE = 0xc0000100"
definition MSR_GS_BASE :: u32 where [consts_def]: "MSR_GS_BASE = 0xc0000101"
definition MSR_PKG_ENERGY_STATUS :: u32 where [consts_def]: "MSR_PKG_ENERGY_STATUS = 0x611"
definition MSR_RAPL_POWER_UNIT :: u32 where [consts_def]: "MSR_RAPL_POWER_UNIT = 0x606"
definition APIC_BASE_MSR :: u32 where [consts_def]: "APIC_BASE_MSR = 0x800"
definition APIC_ID :: u32 where [consts_def]: "APIC_ID = 0x20"
definition APIC_EOI :: u32 where [consts_def]: "APIC_EOI = 0xB0"

text \<open>An array of 64-bit words is a function of the word's index; \<open>clear_bit nr w bm\<close> clears
  bit \<open>nr\<close> counted from word \<open>w\<close>.\<close>

definition clear_bit :: "nat \<Rightarrow> nat \<Rightarrow> (nat \<Rightarrow> u64) \<Rightarrow> nat \<Rightarrow> u64" where
  "clear_bit nr w bm = bm(w + nr div 64 := bm (w + nr div 64) AND NOT (push_bit (nr mod 64) 1))"

definition vmx_disable_intercept_for_msr :: "(nat \<Rightarrow> u64) \<Rightarrow> u32 \<Rightarrow> nat \<Rightarrow> u64" where
  "vmx_disable_intercept_for_msr bm msr = (
     let f = 8
     in if msr \<le> 0x1fff then
          clear_bit (unat msr) (0x800 div f) (clear_bit (unat msr) (0x000 div f) bm)
        else if msr \<ge> 0xc0000000 \<and> msr \<le> 0xc0001fff then
          let msr = msr AND 0x1fff
          in clear_bit (unat msr) (0xc00 div f) (clear_bit (unat msr) (0x400 div f) bm)
        else bm)"

definition passed_msrs :: "u32 list" where
  "passed_msrs = [MSR_FS_BASE, MSR_GS_BASE, MSR_PKG_ENERGY_STATUS, MSR_RAPL_POWER_UNIT,
     APIC_BASE_MSR + drop_bit 4 APIC_ID, APIC_BASE_MSR + drop_bit 4 APIC_EOI]"

definition init_msr_bitmap :: "nat \<Rightarrow> u64" where
  "init_msr_bitmap = foldl vmx_disable_intercept_for_msr (\<lambda>_. - 1) passed_msrs"

text \<open>
  What the processor does with the bitmap: an access outside the two ranges always exits, inside
  them the bit of the register decides, in the quarter of the page that belongs to the range and to
  the direction of the access.
\<close>

definition msr_exits :: "(nat \<Rightarrow> u64) \<Rightarrow> bool \<Rightarrow> u32 \<Rightarrow> bool" where
  "msr_exits bm writes msr \<longleftrightarrow> (
     let b = (if writes then 256 else 0) :: nat
     in if msr \<le> 0x1fff then bit (bm (b + unat msr div 64)) (unat msr mod 64)
        else if msr \<ge> 0xc0000000 \<and> msr \<le> 0xc0001fff then
          bit (bm (b + 128 + unat (msr AND 0x1fff) div 64)) (unat (msr AND 0x1fff) mod 64)
        else True)"

section \<open>The driver's interrupt routing\<close>

definition NMI_VECTOR :: u32 where [consts_def]: "NMI_VECTOR = 2"
definition APIC_DM_NMI :: u32 where [consts_def]: "APIC_DM_NMI = 0x400"

datatype apic_access = Mem_Write u32 u32 | Msr_Write u32 u64

record driver =
  d_cap :: vmx_capability
  d_conf :: vmcs_config
  msr_bitmap :: "nat \<Rightarrow> u64"
  host_routing :: "int list"
  virtual_apic_pages :: "nat \<Rightarrow> u64"
  host_descs :: "nat \<Rightarrow> posted_interrupt_desc"
  num_descs :: nat
  pv_flags :: "nat \<Rightarrow> u64"
  vpid_bitmap :: "nat \<Rightarrow> bool"
  vmxarea :: "nat \<Rightarrow> u64"
  vmx_enabled :: "nat \<Rightarrow> bool"
  cr4_vmxe :: "nat \<Rightarrow> bool"
  feature_control :: "nat \<Rightarrow> u64"
  vmxon :: "nat \<Rightarrow> u64 option"
  vmx_enable_failed :: nat
  apic_log :: "apic_access list"

definition apic_init :: "driver \<Rightarrow> driver" where
  "apic_init d = d\<lparr>host_routing := replicate 128 (- 1)\<rparr>"

text \<open>The identifier is the upper byte of the register; an identifier past the table is out of bounds.\<close>

definition apic_id :: "u32 \<Rightarrow> u32" where
  "apic_id reg = drop_bit 24 reg AND 0xFF"

definition apic_init_rt_entry :: "u32 \<Rightarrow> nat \<Rightarrow> driver \<Rightarrow> driver option" where
  "apic_init_rt_entry reg me d = do {
     ensure (unat (apic_id reg) < length (host_routing d));
     Some (d\<lparr>host_routing := (host_routing d)[unat (apic_id reg) := int me]\<rparr>)
   }"

definition apic_get_cpu_id_for_apic :: "u32 \<Rightarrow> driver \<Rightarrow> u32 \<times> bool" where
  "apic_get_cpu_id_for_apic apic d = (
     if apic \<ge> 128 then (0, True) else (of_int (host_routing d ! unat apic), False))"

definition host_prepare_ICR :: "u32 \<Rightarrow> u32 \<Rightarrow> u32 \<Rightarrow> u32" where
  "host_prepare_ICR shortcut vector dest = (
     let icr = shortcut OR dest
     in if vector = NMI_VECTOR then icr OR APIC_DM_NMI else icr OR (APIC_DM_FIXED OR vector))"

definition host_prepare_ICR2 :: "u32 \<Rightarrow> u32" where
  "host_prepare_ICR2 m = push_bit 24 m"

text \<open>The kernel polls the command register without a bound; for the NMI vector it uses the host's
  bounded wait.\<close>

partial_function (option) host_wait_icr_idle :: "(nat \<Rightarrow> u32) \<Rightarrow> nat \<Rightarrow> unit option" where
  "host_wait_icr_idle icr n = (
     if \<not> tst (icr n) APIC_ICR_BUSY then Some () else host_wait_icr_idle icr (n + 1))"

definition host_send_IPI_dest_field :: "(nat \<Rightarrow> u32) \<Rightarrow> u32 \<Rightarrow> u32 \<Rightarrow> u32 \<Rightarrow> driver \<Rightarrow> driver option" where
  "host_send_IPI_dest_field icr m vector dest d = do {
     (if vector = NMI_VECTOR then Some () else host_wait_icr_idle icr 0);
     Some (d\<lparr>apic_log := apic_log d @ [Mem_Write APIC_ICR2 (host_prepare_ICR2 m),
       Mem_Write APIC_ICR (host_prepare_ICR 0 vector dest)]\<rparr>)
   }"

definition apic_send_ipi_x :: "(nat \<Rightarrow> u32) \<Rightarrow> u8 \<Rightarrow> u8 \<Rightarrow> driver \<Rightarrow> driver option" where
  "apic_send_ipi_x icr vector dest d = host_send_IPI_dest_field icr (ucast dest) (ucast vector) APIC_DEST_PHYSICAL d"

definition apic_send_ipi_x2 :: "u8 \<Rightarrow> u32 \<Rightarrow> driver \<Rightarrow> driver" where
  "apic_send_ipi_x2 vector dest d = (
     let low = host_prepare_ICR 0 (ucast vector) APIC_DEST_PHYSICAL
     in d\<lparr>apic_log := apic_log d @ [Msr_Write (APIC_BASE_MSR + drop_bit 4 APIC_ICR)
           (push_bit 32 (ucast dest) OR ucast low)]\<rparr>)"

definition host_apic_send_ipi :: "bool \<Rightarrow> (nat \<Rightarrow> u32) \<Rightarrow> u8 \<Rightarrow> u32 \<Rightarrow> driver \<Rightarrow> driver option" where
  "host_apic_send_ipi x2apic icr vector dest d = (
     if x2apic then Some (apic_send_ipi_x2 vector dest d) else apic_send_ipi_x icr vector (ucast dest) d)"

definition apic_write_eoi :: "bool \<Rightarrow> driver \<Rightarrow> driver" where
  "apic_write_eoi x2apic d = d\<lparr>apic_log := apic_log d @ [
     if x2apic then Msr_Write (APIC_BASE_MSR + drop_bit 4 APIC_EOI) 0 else Mem_Write 0xB0 0]\<rparr>"

text \<open>
  Posting a vector. The descriptors are an array with one pointer per possible core, so a core number
  past it is undefined behaviour.
\<close>

definition send_posted_ipi :: "bool \<Rightarrow> (nat \<Rightarrow> u32) \<Rightarrow> u32 \<Rightarrow> u8 \<Rightarrow> driver \<Rightarrow> driver option" where
  "send_posted_ipi x2apic icr apic vector d = (
     let (cpu, cpu_id_error) = apic_get_cpu_id_for_apic apic d
     in if cpu_id_error then Some d
        else do {
          ensure (unat cpu < num_descs d);
          let desc = host_descs d (unat cpu);
          let (old, vs) = test_and_set_bit (unat vector) (pi_vectors desc);
          let desc = desc\<lparr>pi_vectors := vs\<rparr>;
          let d = d\<lparr>host_descs := (host_descs d)(unat cpu := desc)\<rparr>;
          if old then Some d
          else
            let (old, ex) = test_and_set_bit 0 (pi_extra desc);
                d = d\<lparr>host_descs := (host_descs d)(unat cpu := desc\<lparr>pi_extra := ex\<rparr>)\<rparr>
            in if old then Some d
               else host_apic_send_ipi x2apic icr (ucast POSTED_INTR_VECTOR) apic d
        })"

section \<open>Switching VMX on\<close>

definition FEATURE_CONTROL_LOCKED :: u64 where [consts_def]: "FEATURE_CONTROL_LOCKED = 0x1"
definition FEATURE_CONTROL_VMXON_ENABLED_INSIDE_SMX :: u64 where
  [consts_def]: "FEATURE_CONTROL_VMXON_ENABLED_INSIDE_SMX = 0x2"
definition FEATURE_CONTROL_VMXON_ENABLED_OUTSIDE_SMX :: u64 where
  [consts_def]: "FEATURE_CONTROL_VMXON_ENABLED_OUTSIDE_SMX = 0x4"
definition PV_IN_HOST :: u64 where [consts_def]: "PV_IN_HOST = 0x1"

definition vmx_enable_cpu :: "bool \<Rightarrow> nat \<Rightarrow> u64 \<Rightarrow> driver \<Rightarrow> int \<times> driver" where
  "vmx_enable_cpu tboot c vmxon_buf d = (
     if cr4_vmxe d c then (- EBUSY, d)
     else
       let old = feature_control d c;
           test_bits = FEATURE_CONTROL_LOCKED OR FEATURE_CONTROL_VMXON_ENABLED_OUTSIDE_SMX;
           test_bits = (if tboot then test_bits OR FEATURE_CONTROL_VMXON_ENABLED_INSIDE_SMX else test_bits);
           d = (if old AND test_bits \<noteq> test_bits
                then d\<lparr>feature_control := (feature_control d)(c := old OR test_bits)\<rparr> else d);
           d = d\<lparr>cr4_vmxe := (cr4_vmxe d)(c := True)\<rparr>;
           d = d\<lparr>vmxon := (vmxon d)(c := Some vmxon_buf)\<rparr>
       in (0, d))"

definition vmx_enable :: "bool \<Rightarrow> nat \<Rightarrow> driver \<Rightarrow> driver" where
  "vmx_enable tboot c d = (
     case vmx_enable_cpu tboot c (vmxarea d c) d of
       (ret, d) \<Rightarrow>
         if ret \<noteq> 0 then d\<lparr>vmx_enable_failed := vmx_enable_failed d + 1\<rparr>
         else d\<lparr>vmx_enabled := (vmx_enabled d)(c := True)\<rparr>)"

definition vmx_disable :: "nat \<Rightarrow> driver \<Rightarrow> driver" where
  "vmx_disable c d = (
     if vmx_enabled d c
     then d\<lparr>vmxon := (vmxon d)(c := None), cr4_vmxe := (cr4_vmxe d)(c := False),
            vmx_enabled := (vmx_enabled d)(c := False)\<rparr>
     else d)"

definition vmx_free_vmxon_areas :: "nat list \<Rightarrow> driver \<Rightarrow> driver" where
  "vmx_free_vmxon_areas cpus d = fold (\<lambda>c d.
     if vmxarea d c \<noteq> 0 then d\<lparr>vmxarea := (vmxarea d)(c := 0)\<rparr> else d) cpus d"

text \<open>The order of a region with \<open>input\<close> pages: \<open>1 << 31\<close> is negative as a C int.\<close>

function get_log2_from :: "nat \<Rightarrow> int \<Rightarrow> int" where
  "get_log2_from order n = (
     if order < 32 then
       let compare = (if order < 31 then 2 ^ order else - (2 ^ 31))
       in if compare \<ge> n then int order else get_log2_from (order + 1) n
     else - 1)"
  by pat_completeness auto

termination by (relation "measure (\<lambda>(order, _). 32 - order)") auto

declare get_log2_from.simps [simp del]

definition get_log2 :: "int \<Rightarrow> int" where
  "get_log2 n = get_log2_from 0 n"

text \<open>
  What the host answers while the driver starts: the capability registers, whether the machine was
  booted by tboot, the cores, and the pages its allocator hands out (0 for none).
\<close>

record init_env =
  ie_rdmsrl :: msr_file
  ie_get_order :: "u32 \<Rightarrow> nat"
  ie_tboot :: bool
  ie_possible :: nat
  ie_online :: "nat list"
  ie_bitmap_page :: u64
  ie_vapic_array :: u64
  ie_desc_array :: u64
  ie_desc_region :: u64
  ie_tlb_region :: u64
  ie_vapic_page :: "nat \<Rightarrow> u64"
  ie_vmxon_page :: "nat \<Rightarrow> u64"

text \<open>
  Each core's virtual APIC page and descriptor. The page is cleared before it is compared with NULL,
  so a failed allocation is a write to address 0; nor are the two arrays and the region checked.
\<close>

primrec init_vapic :: "init_env \<Rightarrow> nat list \<Rightarrow> driver \<Rightarrow> driver option" where
  "init_vapic E [] d = Some d"
| "init_vapic E (c # cs) d = do {
     ensure (ie_vapic_array E \<noteq> 0 \<and> ie_vapic_page E c \<noteq> 0);
     ensure (ie_desc_array E \<noteq> 0 \<and> ie_desc_region E \<noteq> 0);
     init_vapic E cs (d\<lparr>virtual_apic_pages := (virtual_apic_pages d)(c := ie_vapic_page E c),
       host_descs := (host_descs d)(c := \<lparr>pi_vectors = replicate 8 0, pi_extra = replicate 8 0\<rparr>)\<rparr>)
   }"

primrec alloc_vmxon_areas :: "init_env \<Rightarrow> nat list \<Rightarrow> driver \<Rightarrow> int \<times> driver" where
  "alloc_vmxon_areas E [] d = (0, d)"
| "alloc_vmxon_areas E (c # cs) d = (
     if ie_vmxon_page E c = 0 then (- ENOMEM, vmx_free_vmxon_areas [0..<ie_possible E] d)
     else alloc_vmxon_areas E cs (d\<lparr>vmxarea := (vmxarea d)(c := ie_vmxon_page E c)\<rparr>))"

definition enable_all :: "init_env \<Rightarrow> driver \<Rightarrow> int \<times> driver" where
  "enable_all E d = (
     let d = d\<lparr>vmx_enable_failed := 0\<rparr>;
         d = fold (vmx_enable (ie_tboot E)) (ie_online E) d
     in if vmx_enable_failed d \<noteq> 0 then
          (- EBUSY, vmx_free_vmxon_areas [0..<ie_possible E] (fold vmx_disable (ie_online E) d))
        else (0, d))"

definition vmx_init :: "init_env \<Rightarrow> driver \<Rightarrow> (int \<times> driver) option" where
  "vmx_init E d = (
     case setup_vmcs_config (ie_rdmsrl E) (ie_get_order E) (d_cap d, d_conf d) of
       (r, cap, conf) \<Rightarrow>
         let d = d\<lparr>d_cap := cap, d_conf := conf\<rparr>
         in if r < 0 then Some (- EIO, d)
            else if \<not> cpu_has_vmx_vpid conf then Some (- EIO, d)
            else if \<not> cpu_has_vmx_ept conf then Some (- EIO, d)
            else if \<not> has_load_efer cap then Some (- EIO, d)
            else if ie_bitmap_page E = 0 then Some (- ENOMEM, d)
            else
              let d = apic_init (d\<lparr>msr_bitmap := init_msr_bitmap\<rparr>)
              in if get_log2 (int (ie_possible E)) = - 1 then Some (- ENOMEM, d)
                 else do {
                   ensure (ie_tlb_region E \<noteq> 0);
                   let d = d\<lparr>num_descs := ie_possible E,
                     pv_flags := (\<lambda>c. if c < ie_possible E then PV_IN_HOST else pv_flags d c)\<rparr>;
                   d \<leftarrow> init_vapic E [0..<ie_possible E] d;
                   let d = d\<lparr>vpid_bitmap := (vpid_bitmap d)(0 := True)\<rparr>;
                   let (r, d) = alloc_vmxon_areas E [0..<ie_possible E] d;
                   Some (if r \<noteq> 0 then (r, d) else enable_all E d)
                 })"

definition vmx_exit_cpus :: "init_env \<Rightarrow> driver \<Rightarrow> driver" where
  "vmx_exit_cpus E d = vmx_free_vmxon_areas [0..<ie_possible E] (fold vmx_disable (ie_online E) d)"

definition construct_eptp :: "vmx_capability \<Rightarrow> u64 \<Rightarrow> u64" where
  "construct_eptp cap root_hpa = (
     let eptp = 0x6 OR 0x18;
         eptp = (if cpu_has_vmx_ept_ad_bits cap then eptp OR 0x40 else eptp)
     in eptp OR (root_hpa AND NOT 0xfff))"

definition bits_in :: "'a::len word \<Rightarrow> 'a word \<Rightarrow> bool" where
  "bits_in a b \<longleftrightarrow> \<not> tst a (NOT b)"

definition control_ok :: "msr_file \<Rightarrow> u32 \<Rightarrow> u32 \<Rightarrow> bool" where
  "control_ok rdmsrl msr c \<longleftrightarrow> bits_in (msr_low rdmsrl msr) c \<and> bits_in c (msr_high rdmsrl msr)"

definition msr_consistent :: "msr_file \<Rightarrow> u32 \<Rightarrow> bool" where
  "msr_consistent rdmsrl msr \<longleftrightarrow> bits_in (msr_low rdmsrl msr) (msr_high rdmsrl msr)"

text \<open>The registers of a processor that has every feature and requires the bits of Intel's default.\<close>

definition example_msrs :: msr_file where
  "example_msrs msr = (
     if msr = MSR_IA32_VMX_BASIC then 0x00da040000000004
     else if msr = MSR_IA32_VMX_PROCBASED_CTLS then 0xfff9fffe0401e172
     else if msr = MSR_IA32_VMX_PINBASED_CTLS then 0x0000007f00000016 OR 0x8000000000
     else 0xffffffff00000000)"

definition blank_capability :: vmx_capability where
  "blank_capability = \<lparr>cap_pin_based = 0, cap_secondary = 0, cap_ept = 0, cap_vpid = 0, has_load_efer = False\<rparr>"

definition blank_config :: vmcs_config where
  "blank_config = \<lparr>vc_size = 0, vc_order = 0, revision_id = 0, pin_based_exec_ctrl = 0, cpu_based_exec_ctrl = 0,
     cpu_based_2nd_exec_ctrl = 0, vmexit_ctrl = 0, vmentry_ctrl = 0\<rparr>"

definition bm_bit :: "(nat \<Rightarrow> u64) \<Rightarrow> nat \<Rightarrow> bool" where
  "bm_bit bm k \<longleftrightarrow> bit (bm (k div 64)) (k mod 64)"

definition msr_low_range :: "u32 \<Rightarrow> bool" where
  "msr_low_range msr \<longleftrightarrow> msr \<le> 0x1fff"

definition msr_high_range :: "u32 \<Rightarrow> bool" where
  "msr_high_range msr \<longleftrightarrow> msr \<ge> 0xc0000000 \<and> msr \<le> 0xc0001fff"

definition msr_pos :: "u32 \<Rightarrow> nat" where
  "msr_pos msr = (if msr_low_range msr then unat msr else 8192 + unat msr mod 8192)"

definition vmx_off :: "driver \<Rightarrow> bool" where
  "vmx_off d \<longleftrightarrow> (\<forall>c. \<not> vmx_enabled d c \<and> vmxarea d c = 0)"

definition same_cpus :: "driver \<Rightarrow> driver \<Rightarrow> bool" where
  "same_cpus d d' \<longleftrightarrow> cr4_vmxe d' = cr4_vmxe d \<and> vmxon d' = vmxon d"

definition example_init :: init_env where
  "example_init = \<lparr>ie_rdmsrl = example_msrs, ie_get_order = (\<lambda>_. 0), ie_tboot = False, ie_possible = 2, ie_online = [0, 1],
     ie_bitmap_page = 0x1000, ie_vapic_array = 0x2000, ie_desc_array = 0x3000, ie_desc_region = 0x4000,
     ie_tlb_region = 0x5000, ie_vapic_page = (\<lambda>c. 0x6000), ie_vmxon_page = (\<lambda>c. 0x8000)\<rparr>"

text \<open>A machine on which another hypervisor holds core 1.\<close>

definition busy_driver :: driver where
  "busy_driver = \<lparr>d_cap = blank_capability, d_conf = blank_config, msr_bitmap = (\<lambda>_. 0), host_routing = [],
     virtual_apic_pages = (\<lambda>_. 0), host_descs = (\<lambda>_. idle_desc), num_descs = 0, pv_flags = (\<lambda>_. 0),
     vpid_bitmap = (\<lambda>_. False), vmxarea = (\<lambda>_. 0), vmx_enabled = (\<lambda>_. False), cr4_vmxe = (\<lambda>c. c = 1),
     feature_control = (\<lambda>_. 5), vmxon = (\<lambda>c. if c = 1 then Some 0x9000 else None), vmx_enable_failed = 0, apic_log = []\<rparr>"

section \<open>Controls: lemmas\<close>

lemma bits_in_iff: "bits_in a b \<longleftrightarrow> (\<forall>n. bit a n \<longrightarrow> bit b n)" for a :: "'a::len word"
proof -
  have "bits_in a b \<longleftrightarrow> a AND NOT b = 0" by (simp add: bits_in_def tst_def)
  also have "\<dots> \<longleftrightarrow> (\<forall>n. bit a n \<longrightarrow> bit b n)"
    by (auto simp: bit_eq_iff bit_simps dest: bit_imp_le_length)
  finally show ?thesis .
qed

lemma adjust_vmx_controls_ok:
  assumes "adjust_vmx_controls rdmsrl ctl_min ctl_opt msr = Some c" "msr_consistent rdmsrl msr"
  shows "control_ok rdmsrl msr c" and "bits_in ctl_min c"
    and "bits_in (ctl_opt AND msr_high rdmsrl msr) c"
    and "bits_in c (ctl_min OR ctl_opt OR msr_low rdmsrl msr)"
proof -
  have c: "bits_in ctl_min c" "c = (ctl_min OR ctl_opt) AND msr_high rdmsrl msr OR msr_low rdmsrl msr"
    using assms(1) unfolding adjust_vmx_controls_def Let_def bits_in_def by (auto split: if_split_asm)
  show "bits_in ctl_min c" by (rule c)
  show "control_ok rdmsrl msr c" "bits_in (ctl_opt AND msr_high rdmsrl msr) c"
      "bits_in c (ctl_min OR ctl_opt OR msr_low rdmsrl msr)"
    using assms(2) by (auto simp: c(2) control_ok_def msr_consistent_def bits_in_iff bit_simps)
qed

lemma adjust_vmx_controls_fails:
  assumes "adjust_vmx_controls rdmsrl ctl_min ctl_opt msr = None"
  shows "\<exists>n. bit ctl_min n \<and> \<not> bit (msr_high rdmsrl msr) n"
proof -
  have "\<not> bits_in ctl_min ((ctl_min OR ctl_opt) AND msr_high rdmsrl msr OR msr_low rdmsrl msr)"
    using assms unfolding adjust_vmx_controls_def Let_def bits_in_def by (auto split: if_split_asm)
  then show ?thesis by (auto simp: bits_in_iff bit_simps)
qed

lemma bits_in_trans: "bits_in a b \<Longrightarrow> bits_in b c \<Longrightarrow> bits_in a c"
  by (simp add: bits_in_iff)

lemma not_tst_and_not: "\<not> tst (c AND NOT m) m" for c :: "'a::len word"
  by (simp add: tst_def and.assoc)

lemma bits_in_dropped:
  "bits_in (drop_cr8_exits c) c" "bits_in (drop_cr3_exits c2 c) c"
  by (auto simp: drop_cr8_exits_def drop_cr3_exits_def bits_in_iff bit_simps)

lemma drop_exits_keep:
  fixes k :: u32
  assumes "bits_in k c" "k AND 0x180000 = 0" "k AND 0x18200 = 0"
  shows "bits_in k (drop_cr3_exits c2 (drop_cr8_exits c))"
proof -
  have kb: "bits_in k (c AND NOT m)" if "bits_in k c" "k AND m = 0" for c m :: u32
  proof -
    have "\<not> (bit k n \<and> bit m n)" for n
      using arg_cong [OF that(2), of "\<lambda>w. bit w n"] by (simp add: bit_and_iff)
    then show ?thesis using that(1) by (auto simp: bits_in_iff bit_simps dest: bit_imp_le_length)
  qed
  have "bits_in k (drop_cr8_exits c)"
    unfolding drop_cr8_exits_def using assms(1) kb [OF assms(1,2)] by (simp add: consts_def)
  then show ?thesis
    unfolding drop_cr3_exits_def using kb [OF _ assms(3)] by (simp add: consts_def)
qed

lemma setup_vmcs_config_facts:
  assumes run: "setup_vmcs_config rdmsrl get_order (cap, conf) = (0, cap', conf')"
    and cons: "list_all (msr_consistent rdmsrl) [MSR_IA32_VMX_PINBASED_CTLS, MSR_IA32_VMX_PROCBASED_CTLS,
      MSR_IA32_VMX_PROCBASED_CTLS2, MSR_IA32_VMX_EXIT_CTLS, MSR_IA32_VMX_ENTRY_CTLS]"
  shows "control_ok rdmsrl MSR_IA32_VMX_PINBASED_CTLS (pin_based_exec_ctrl conf')"
    and "control_ok rdmsrl MSR_IA32_VMX_EXIT_CTLS (vmexit_ctrl conf')"
    and "control_ok rdmsrl MSR_IA32_VMX_ENTRY_CTLS (vmentry_ctrl conf')"
    and "bits_in (cpu_based_exec_ctrl conf') (msr_high rdmsrl MSR_IA32_VMX_PROCBASED_CTLS)"
    and "bits_in (cpu_based_2nd_exec_ctrl conf') (msr_high rdmsrl MSR_IA32_VMX_PROCBASED_CTLS2)"
    and "bits_in (PIN_BASED_EXT_INTR_MASK OR PIN_BASED_NMI_EXITING) (pin_based_exec_ctrl conf')"
    and "bits_in (CPU_BASED_MOV_DR_EXITING OR CPU_BASED_USE_TSC_OFFSETING) (cpu_based_exec_ctrl conf')"
    and "bits_in VM_EXIT_HOST_ADDR_SPACE_SIZE (vmexit_ctrl conf')"
    and "cpu_has_vmx_ept conf' \<Longrightarrow> \<not> tst (cpu_based_exec_ctrl conf')
           (CPU_BASED_CR3_LOAD_EXITING OR CPU_BASED_CR3_STORE_EXITING OR CPU_BASED_INVLPG_EXITING)"
    and "vc_size conf' \<le> 4096"
proof -
  obtain pin cpu cpu2 ex en where
      a: "adjust_vmx_controls rdmsrl pin_min pin_opt MSR_IA32_VMX_PINBASED_CTLS = Some pin"
         "adjust_vmx_controls rdmsrl cpu_min cpu_opt MSR_IA32_VMX_PROCBASED_CTLS = Some cpu"
         "secondary_controls rdmsrl (drop_cr8_exits cpu) = Some cpu2"
         "adjust_vmx_controls rdmsrl VM_EXIT_HOST_ADDR_SPACE_SIZE VM_EXIT_ACK_INTR_ON_EXIT MSR_IA32_VMX_EXIT_CTLS = Some ex"
         "adjust_vmx_controls rdmsrl 0 0 MSR_IA32_VMX_ENTRY_CTLS = Some en"
    and f: "vmcs_format_ok rdmsrl"
    and c: "pin_based_exec_ctrl conf' = pin" "cpu_based_exec_ctrl conf' = drop_cr3_exits cpu2 (drop_cr8_exits cpu)"
         "cpu_based_2nd_exec_ctrl conf' = cpu2" "vmexit_ctrl conf' = ex" "vmentry_ctrl conf' = en"
         "vc_size conf' = msr_high rdmsrl MSR_IA32_VMX_BASIC AND 0x1fff"
    using run by (auto simp: setup_vmcs_config_def Let_def EIO_def split: option.splits if_splits)
  have m: "msr_consistent rdmsrl MSR_IA32_VMX_PINBASED_CTLS" "msr_consistent rdmsrl MSR_IA32_VMX_PROCBASED_CTLS"
      "msr_consistent rdmsrl MSR_IA32_VMX_PROCBASED_CTLS2" "msr_consistent rdmsrl MSR_IA32_VMX_EXIT_CTLS"
      "msr_consistent rdmsrl MSR_IA32_VMX_ENTRY_CTLS"
    using cons by simp_all
  note p = adjust_vmx_controls_ok [OF a(1) m(1)] and q = adjust_vmx_controls_ok [OF a(2) m(2)]
    and x = adjust_vmx_controls_ok [OF a(4) m(4)] and e = adjust_vmx_controls_ok [OF a(5) m(5)]
  show "control_ok rdmsrl MSR_IA32_VMX_PINBASED_CTLS (pin_based_exec_ctrl conf')" using p(1) c by simp
  show "control_ok rdmsrl MSR_IA32_VMX_EXIT_CTLS (vmexit_ctrl conf')" using x(1) c by simp
  show "control_ok rdmsrl MSR_IA32_VMX_ENTRY_CTLS (vmentry_ctrl conf')" using e(1) c by simp
  show "bits_in (cpu_based_exec_ctrl conf') (msr_high rdmsrl MSR_IA32_VMX_PROCBASED_CTLS)"
    using q(1) bits_in_dropped bits_in_trans unfolding c control_ok_def by blast
  show "bits_in (cpu_based_2nd_exec_ctrl conf') (msr_high rdmsrl MSR_IA32_VMX_PROCBASED_CTLS2)"
    using a(3) adjust_vmx_controls_ok(1) [OF _ m(3)]
    by (auto simp: secondary_controls_def c control_ok_def bits_in_def split: if_splits)
  show "bits_in (PIN_BASED_EXT_INTR_MASK OR PIN_BASED_NMI_EXITING) (pin_based_exec_ctrl conf')"
    using p(2) c by (simp add: pin_min_def)
  have "bits_in (CPU_BASED_MOV_DR_EXITING OR CPU_BASED_USE_TSC_OFFSETING) cpu_min"
    by (simp add: consts_def bits_in_def tst_def)
  then have "bits_in (CPU_BASED_MOV_DR_EXITING OR CPU_BASED_USE_TSC_OFFSETING) cpu"
    by (rule bits_in_trans [OF _ q(2)])
  then show "bits_in (CPU_BASED_MOV_DR_EXITING OR CPU_BASED_USE_TSC_OFFSETING) (cpu_based_exec_ctrl conf')"
    unfolding c by (rule drop_exits_keep) (simp_all add: consts_def)
  show "bits_in VM_EXIT_HOST_ADDR_SPACE_SIZE (vmexit_ctrl conf')" using x(2) c by simp
  show "vc_size conf' \<le> 4096" using f by (simp add: c vmcs_format_ok_def Let_def not_less)
  show "\<not> tst (cpu_based_exec_ctrl conf')
      (CPU_BASED_CR3_LOAD_EXITING OR CPU_BASED_CR3_STORE_EXITING OR CPU_BASED_INVLPG_EXITING)"
    if "cpu_has_vmx_ept conf'"
    using that not_tst_and_not by (simp only: c cpu_has_vmx_ept_def drop_cr3_exits_def if_True)
qed

text \<open>
  C1: when the driver accepts a processor, every control word it will load into a VMCS is one that
  the processor's capability registers allow. The pin-based, exit and entry controls have every bit the processor
  requires and none that it forbids, the primary and secondary controls none that it forbids, and
  the features the driver depends on (external-interrupt and NMI exits, debug-register exits, time
  stamp offsetting, a 64-bit host) are on. With the extended page tables on, guest writes of CR3
  and INVLPG do not exit. The region of a VMCS fits a page.
\<close>

theorem setup_vmcs_config_sound:
  assumes "setup_vmcs_config rdmsrl get_order (cap, conf) = (0, cap', conf')"
    and "list_all (msr_consistent rdmsrl) [MSR_IA32_VMX_PINBASED_CTLS, MSR_IA32_VMX_PROCBASED_CTLS,
      MSR_IA32_VMX_PROCBASED_CTLS2, MSR_IA32_VMX_EXIT_CTLS, MSR_IA32_VMX_ENTRY_CTLS]"
  shows "control_ok rdmsrl MSR_IA32_VMX_PINBASED_CTLS (pin_based_exec_ctrl conf') \<and>
    control_ok rdmsrl MSR_IA32_VMX_EXIT_CTLS (vmexit_ctrl conf') \<and>
    control_ok rdmsrl MSR_IA32_VMX_ENTRY_CTLS (vmentry_ctrl conf') \<and>
    bits_in (cpu_based_exec_ctrl conf') (msr_high rdmsrl MSR_IA32_VMX_PROCBASED_CTLS) \<and>
    bits_in (cpu_based_2nd_exec_ctrl conf') (msr_high rdmsrl MSR_IA32_VMX_PROCBASED_CTLS2) \<and>
    bits_in (PIN_BASED_EXT_INTR_MASK OR PIN_BASED_NMI_EXITING) (pin_based_exec_ctrl conf') \<and>
    bits_in (CPU_BASED_MOV_DR_EXITING OR CPU_BASED_USE_TSC_OFFSETING) (cpu_based_exec_ctrl conf') \<and>
    bits_in VM_EXIT_HOST_ADDR_SPACE_SIZE (vmexit_ctrl conf') \<and>
    (cpu_has_vmx_ept conf' \<longrightarrow> \<not> tst (cpu_based_exec_ctrl conf')
       (CPU_BASED_CR3_LOAD_EXITING OR CPU_BASED_CR3_STORE_EXITING OR CPU_BASED_INVLPG_EXITING)) \<and>
    vc_size conf' \<le> 4096"
  using setup_vmcs_config_facts [OF assms] by blast

lemma example_msrs_high:
  "msr_high example_msrs MSR_IA32_VMX_PROCBASED_CTLS = 0xfff9fffe"
  "msr_low example_msrs MSR_IA32_VMX_PROCBASED_CTLS = 0x0401e172"
  by (simp_all add: msr_high_def msr_low_def example_msrs_def consts_def drop_bit_eq_div)

lemma example_setup: "fst (setup_vmcs_config example_msrs (\<lambda>_. 0) (blank_capability, blank_config)) = 0"
  by code_simp

lemma example_consistent: "list_all (msr_consistent example_msrs) [MSR_IA32_VMX_PINBASED_CTLS, MSR_IA32_VMX_PROCBASED_CTLS,
      MSR_IA32_VMX_PROCBASED_CTLS2, MSR_IA32_VMX_EXIT_CTLS, MSR_IA32_VMX_ENTRY_CTLS]"
  by code_simp

theorem setup_vmcs_config_sound_witness:
  "\<exists>cap' conf'. setup_vmcs_config example_msrs (\<lambda>_. 0) (blank_capability, blank_config) = (0, cap', conf') \<and>
     vc_size conf' \<le> 4096 \<and> bits_in VM_EXIT_HOST_ADDR_SPACE_SIZE (vmexit_ctrl conf')"
  using setup_vmcs_config_sound [OF _ example_consistent] example_setup
  by (metis prod.collapse)

section \<open>The register bitmap: lemmas\<close>

lemma bm_bit_clear: "bm_bit (clear_bit nr w bm) k \<longleftrightarrow> bm_bit bm k \<and> k \<noteq> 64 * w + nr"
proof -
  have "k = 64 * w + nr \<longleftrightarrow> k div 64 = w + nr div 64 \<and> k mod 64 = nr mod 64"
    (is "_ \<longleftrightarrow> ?r")
  proof
    assume ?r
    then show "k = 64 * w + nr" using mult_div_mod_eq [of 64 k] mult_div_mod_eq [of 64 nr] by linarith
  qed simp
  then show ?thesis
    by (auto simp: bm_bit_def clear_bit_def bit_simps dest: bit_imp_le_length)
qed

lemma bm_bit_word: "bit (bm (w + n div 64)) (n mod 64) \<longleftrightarrow> bm_bit bm (64 * w + n)"
  by (simp add: bm_bit_def)

lemma unat_and_1fff: "unat (msr AND 0x1fff) = unat msr mod 8192" for msr :: u32
  using unat_and_mask [of msr 13] by (simp add: mask_eq_exp_minus_1)

lemma msr_high_range_mod:
  assumes "msr_high_range msr"
  shows "unat msr mod 8192 = unat msr - 3221225472" "3221225472 \<le> unat msr"
proof -
  have b: "3221225472 \<le> unat msr" "unat msr \<le> 3221233663"
    using assms by (simp_all add: msr_high_range_def word_le_nat_alt)
  then obtain k where k: "unat msr = 3221225472 + k" using le_Suc_ex by blast
  have "(3221225472 + k) mod 8192 = k mod 8192" using mod_mult_self3 [of 393216 8192 k] by simp
  then have "(3221225472 + k) mod 8192 = k" using b k by simp
  then show "unat msr mod 8192 = unat msr - 3221225472" using k by simp
  show "3221225472 \<le> unat msr" by (rule b)
qed

lemma msr_pos_inj:
  assumes "msr_low_range a \<or> msr_high_range a" "msr_low_range b \<or> msr_high_range b"
  shows "msr_pos a = msr_pos b \<longleftrightarrow> a = b"
  using assms msr_high_range_mod [of a] msr_high_range_mod [of b]
  by (auto simp: msr_pos_def msr_low_range_def word_le_nat_alt word_eq_unat)

lemma msr_pos_less: "msr_pos msr < 16384"
  by (auto simp: msr_pos_def msr_low_range_def word_le_nat_alt intro: less_trans [OF mod_less_divisor])

lemma msr_exits_pos:
  "msr_exits bm writes msr \<longleftrightarrow>
     (if msr_low_range msr \<or> msr_high_range msr then bm_bit bm ((if writes then 16384 else 0) + msr_pos msr) else True)"
  by (cases "msr \<le> 0x1fff"; cases "msr \<ge> 0xc0000000 \<and> msr \<le> 0xc0001fff")
    (auto simp: msr_exits_def msr_pos_def bm_bit_word msr_low_range_def msr_high_range_def Let_def unat_and_1fff add.assoc)

lemma disable_intercept_pos:
  assumes "msr_low_range msr \<or> msr_high_range msr"
  shows "bm_bit (vmx_disable_intercept_for_msr bm msr) k \<longleftrightarrow>
    bm_bit bm k \<and> k \<noteq> msr_pos msr \<and> k \<noteq> 16384 + msr_pos msr"
  using assms
  by (auto simp: vmx_disable_intercept_for_msr_def msr_pos_def msr_low_range_def msr_high_range_def
      Let_def bm_bit_clear unat_and_1fff)

lemma msr_exits_disable:
  assumes "msr_low_range m \<or> msr_high_range m"
  shows "msr_exits (vmx_disable_intercept_for_msr bm m) writes msr \<longleftrightarrow> msr \<noteq> m \<and> msr_exits bm writes msr"
  using assms msr_pos_less [of msr] msr_pos_less [of m] msr_pos_inj [of msr m]
  by (auto simp: msr_exits_pos disable_intercept_pos)

lemma msr_exits_foldl:
  "\<forall>m\<in>set ms. msr_low_range m \<or> msr_high_range m \<Longrightarrow>
   msr_exits (foldl vmx_disable_intercept_for_msr bm ms) writes msr \<longleftrightarrow> msr \<notin> set ms \<and> msr_exits bm writes msr"
  by (induction ms arbitrary: bm) (auto simp: msr_exits_disable)

text \<open>
  C1: with the bitmap the driver installs, a guest's access to a model-specific register leaves the guest
  unless the register is one of six: the bases of FS and GS, the two energy counters, and the
  identifier and end-of-interrupt registers of the local APIC. This holds for reads and writes and
  for all 2^32 register numbers.
\<close>

theorem guest_msrs_exact:
  "msr_exits init_msr_bitmap writes msr \<longleftrightarrow>
     msr \<notin> {0xc0000100, 0xc0000101, 0x611, 0x606, 0x802, 0x80b}"
proof -
  have all: "msr_exits (\<lambda>_. - 1) writes msr"
    by (simp add: msr_exits_def Let_def)
  have r: "\<forall>m\<in>set passed_msrs. msr_low_range m \<or> msr_high_range m"
    by (simp add: passed_msrs_def consts_def msr_low_range_def msr_high_range_def drop_bit_eq_div)
  have "set passed_msrs = {0xc0000100, 0xc0000101, 0x611, 0x606, 0x802, 0x80b}"
    by (simp add: passed_msrs_def consts_def drop_bit_eq_div)
  then show ?thesis
    unfolding init_msr_bitmap_def msr_exits_foldl [OF r] by (simp add: all)
qed

section \<open>Start and stop: lemmas\<close>

lemma vmx_enable_simps [simp]:
  "vmxarea (vmx_enable t c d) = vmxarea d"
  "vmx_enabled (vmx_enable t c d) c' \<longleftrightarrow> vmx_enabled d c' \<or> c' = c \<and> \<not> cr4_vmxe d c"
  "cr4_vmxe (vmx_enable t c d) c' \<longleftrightarrow> cr4_vmxe d c' \<or> c' = c"
  "vmxon (vmx_enable t c d) c' = (if c' = c \<and> \<not> cr4_vmxe d c then Some (vmxarea d c) else vmxon d c')"
  "vmx_enable_failed (vmx_enable t c d) = vmx_enable_failed d + (if cr4_vmxe d c then 1 else 0)"
  by (auto simp: vmx_enable_def vmx_enable_cpu_def Let_def EBUSY_def)

lemma enable_fold:
  "distinct cs \<Longrightarrow> d' = fold (vmx_enable t) cs d \<Longrightarrow>
    vmxarea d' = vmxarea d \<and>
    (\<forall>c. vmx_enabled d' c \<longleftrightarrow> vmx_enabled d c \<or> c \<in> set cs \<and> \<not> cr4_vmxe d c) \<and>
    (\<forall>c. cr4_vmxe d' c \<longleftrightarrow> cr4_vmxe d c \<or> c \<in> set cs) \<and>
    (\<forall>c. vmxon d' c = (if c \<in> set cs \<and> \<not> cr4_vmxe d c then Some (vmxarea d c) else vmxon d c)) \<and>
    vmx_enable_failed d' = vmx_enable_failed d + length (filter (cr4_vmxe d) cs)"
proof (induction cs arbitrary: d)
  case (Cons c cs)
  have "filter (\<lambda>a. cr4_vmxe d a \<or> a = c) cs = filter (cr4_vmxe d) cs"
    using Cons.prems(1) by (auto intro!: filter_cong)
  then show ?case
    using Cons.IH [of "vmx_enable t c d"] Cons.prems by auto
qed simp

lemma disable_fold:
  "d' = fold vmx_disable cs d \<Longrightarrow>
    vmxarea d' = vmxarea d \<and>
    (\<forall>c. vmx_enabled d' c \<longleftrightarrow> vmx_enabled d c \<and> c \<notin> set cs) \<and>
    (\<forall>c. cr4_vmxe d' c \<longleftrightarrow> cr4_vmxe d c \<and> \<not> (c \<in> set cs \<and> vmx_enabled d c)) \<and>
    (\<forall>c. vmxon d' c = (if c \<in> set cs \<and> vmx_enabled d c then None else vmxon d c))"
proof (induction cs arbitrary: d)
  case (Cons c cs)
  then show ?case
    using Cons.IH [of "vmx_disable c d"] by (auto simp: vmx_disable_def)
qed simp

lemma free_areas_fold:
  "d' = vmx_free_vmxon_areas cs d \<Longrightarrow>
    (\<forall>c. vmxarea d' c = (if c \<in> set cs then 0 else vmxarea d c)) \<and>
    vmx_enabled d' = vmx_enabled d \<and> cr4_vmxe d' = cr4_vmxe d \<and> vmxon d' = vmxon d"
  unfolding vmx_free_vmxon_areas_def
proof (induction cs arbitrary: d)
  case (Cons c cs)
  then show ?case
    using Cons.IH [of "if vmxarea d c \<noteq> 0 then d\<lparr>vmxarea := (vmxarea d)(c := 0)\<rparr> else d"] by auto
qed simp

lemma alloc_areas:
  "alloc_vmxon_areas E cs d = (r, d') \<Longrightarrow> \<forall>c. vmxarea d c \<noteq> 0 \<longrightarrow> c < ie_possible E \<Longrightarrow> \<forall>c\<in>set cs. c < ie_possible E \<Longrightarrow>
    vmx_enabled d' = vmx_enabled d \<and> cr4_vmxe d' = cr4_vmxe d \<and> vmxon d' = vmxon d \<and>
    (if r = 0 then \<forall>c. vmxarea d' c = (if c \<in> set cs then ie_vmxon_page E c else vmxarea d c)
     else r < 0 \<and> (\<forall>c. vmxarea d' c = 0))"
proof (induction cs arbitrary: d)
  case (Cons c cs)
  show ?case
  proof (cases "ie_vmxon_page E c = 0")
    case True
    then show ?thesis
      using Cons.prems free_areas_fold [OF refl, of "[0..<ie_possible E]" d] by (auto simp: ENOMEM_def)
  next
    case False
    then show ?thesis
      using Cons.prems Cons.IH [of "d\<lparr>vmxarea := (vmxarea d)(c := ie_vmxon_page E c)\<rparr>"]
      by (auto split: if_splits)
  qed
qed simp

lemma enable_all_cases:
  assumes run: "enable_all E d = (r, d')" and off: "\<forall>c. \<not> vmx_enabled d c"
    and area: "\<forall>c. vmxarea d c \<noteq> 0 \<longrightarrow> c < ie_possible E" and on: "distinct (ie_online E)"
  shows "r = 0 \<and> (\<forall>c\<in>set (ie_online E). \<not> cr4_vmxe d c \<and> vmx_enabled d' c \<and> cr4_vmxe d' c \<and> vmxon d' c = Some (vmxarea d c)) \<or>
    r = - EBUSY \<and> (\<exists>c\<in>set (ie_online E). cr4_vmxe d c) \<and> vmx_off d' \<and>
      cr4_vmxe d' = cr4_vmxe d \<and> (\<forall>c. vmxon d' c = (if c \<in> set (ie_online E) \<and> \<not> cr4_vmxe d c then None else vmxon d c))"
proof -
  let ?d1 = "fold (vmx_enable (ie_tboot E)) (ie_online E) (d\<lparr>vmx_enable_failed := 0\<rparr>)"
  let ?d2 = "fold vmx_disable (ie_online E) ?d1"
  note e = enable_fold [OF on refl, of "ie_tboot E" "d\<lparr>vmx_enable_failed := 0\<rparr>"]
  show ?thesis
  proof (cases "vmx_enable_failed ?d1 = 0")
    case True
    then have "d' = ?d1" "r = 0" using run by (simp_all add: enable_all_def Let_def)
    then show ?thesis using e True by (simp add: filter_empty_conv)
  next
    case False
    then have r: "d' = vmx_free_vmxon_areas [0..<ie_possible E] ?d2" "r = - EBUSY"
      using run by (simp_all add: enable_all_def Let_def)
    note f = disable_fold [OF refl, of "ie_online E" ?d1] free_areas_fold [OF r(1)]
    have "\<exists>c\<in>set (ie_online E). cr4_vmxe d c" using e False by (auto simp: filter_empty_conv)
    moreover have "vmx_off d'" using e f off area by (auto simp: vmx_off_def)
    moreover have "cr4_vmxe d' = cr4_vmxe d" using e f off by (auto simp: fun_eq_iff)
    moreover have "\<forall>c. vmxon d' c = (if c \<in> set (ie_online E) \<and> \<not> cr4_vmxe d c then None else vmxon d c)"
      using e f off by auto
    ultimately show ?thesis using r by blast
  qed
qed

lemma init_vapic_same:
  "init_vapic E cs d = Some d' \<Longrightarrow> vmx_enabled d' = vmx_enabled d \<and> cr4_vmxe d' = cr4_vmxe d \<and> vmxon d' = vmxon d \<and>
     vmxarea d' = vmxarea d"
  by (induction cs arbitrary: d) (auto split: if_splits)

text \<open>The part of the start that allocates and switches on, from a driver that is off.\<close>

lemma start_cpus_cases:
  assumes alloc: "alloc_vmxon_areas E [0..<ie_possible E] d = (r1, d1)"
    and run: "(r, d') = (if r1 \<noteq> 0 then (r1, d1) else enable_all E d1)"
    and off: "vmx_off d" and on: "\<forall>c. vmxon d c \<noteq> None \<longrightarrow> cr4_vmxe d c"
    and cpus: "distinct (ie_online E)" "set (ie_online E) \<subseteq> {..<ie_possible E}"
  shows "r = 0 \<and> (\<forall>c\<in>set (ie_online E). vmx_enabled d' c \<and> cr4_vmxe d' c \<and> vmxon d' c = Some (ie_vmxon_page E c)) \<or>
     r < 0 \<and> vmx_off d' \<and> same_cpus d d'"
proof -
  have a: "vmx_enabled d1 = vmx_enabled d" "cr4_vmxe d1 = cr4_vmxe d" "vmxon d1 = vmxon d"
    and b: "if r1 = 0 then \<forall>c. vmxarea d1 c = (if c < ie_possible E then ie_vmxon_page E c else 0)
            else r1 < 0 \<and> (\<forall>c. vmxarea d1 c = 0)"
    using alloc_areas [OF alloc] off by (auto simp: vmx_off_def split: if_splits)
  show ?thesis
  proof (cases "r1 = 0")
    case True
    have "\<forall>c. \<not> vmx_enabled d1 c" "\<forall>c. vmxarea d1 c \<noteq> 0 \<longrightarrow> c < ie_possible E"
      using off a b True by (auto simp: vmx_off_def split: if_splits)
    moreover have "enable_all E d1 = (r, d')" using run True by simp
    ultimately have "r = 0 \<and> (\<forall>c\<in>set (ie_online E). \<not> cr4_vmxe d1 c \<and> vmx_enabled d' c \<and> cr4_vmxe d' c \<and> vmxon d' c = Some (vmxarea d1 c)) \<or>
      r = - EBUSY \<and> (\<exists>c\<in>set (ie_online E). cr4_vmxe d1 c) \<and> vmx_off d' \<and> cr4_vmxe d' = cr4_vmxe d1 \<and>
        (\<forall>c. vmxon d' c = (if c \<in> set (ie_online E) \<and> \<not> cr4_vmxe d1 c then None else vmxon d1 c))"
      using enable_all_cases [OF _ _ _ cpus(1)] by blast
    then show ?thesis
    proof
      assume "r = 0 \<and> (\<forall>c\<in>set (ie_online E). \<not> cr4_vmxe d1 c \<and> vmx_enabled d' c \<and> cr4_vmxe d' c \<and> vmxon d' c = Some (vmxarea d1 c))"
      then show ?thesis using b True cpus(2) by auto
    next
      assume h: "r = - EBUSY \<and> (\<exists>c\<in>set (ie_online E). cr4_vmxe d1 c) \<and> vmx_off d' \<and> cr4_vmxe d' = cr4_vmxe d1 \<and>
        (\<forall>c. vmxon d' c = (if c \<in> set (ie_online E) \<and> \<not> cr4_vmxe d1 c then None else vmxon d1 c))"
      have "vmxon d' c = vmxon d c" for c using h on a by (cases "vmxon d c") auto
      then have "vmxon d' = vmxon d" by auto
      then show ?thesis using h a by (simp add: same_cpus_def EBUSY_def)
    qed
  next
    case False
    then show ?thesis using run a b off by (simp add: vmx_off_def same_cpus_def)
  qed
qed

text \<open>
  C1: starting the driver is all or nothing. Either it succeeds, and every online core is in VMX operation
  on the region allocated for it; or it fails, and then no core's VMX enable bit or VMX operation
  has changed (a hypervisor that was using a core still has it), no core is marked as enabled and
  every region has been given back.
\<close>

theorem vmx_init_all_or_nothing:
  assumes run: "vmx_init E d = Some (r, d')"
    and off: "vmx_off d" and on: "\<forall>c. vmxon d c \<noteq> None \<longrightarrow> cr4_vmxe d c"
    and cpus: "distinct (ie_online E)" "set (ie_online E) \<subseteq> {..<ie_possible E}"
  shows "r = 0 \<and> (\<forall>c\<in>set (ie_online E). vmx_enabled d' c \<and> cr4_vmxe d' c \<and> vmxon d' c = Some (ie_vmxon_page E c)) \<or>
     r < 0 \<and> vmx_off d' \<and> same_cpus d d'"
proof -
  obtain r0 cap conf where c: "setup_vmcs_config (ie_rdmsrl E) (ie_get_order E) (d_cap d, d_conf d) = (r0, cap, conf)"
    by (metis surj_pair)
  show ?thesis
  proof (cases "r0 < 0 \<or> \<not> cpu_has_vmx_vpid conf \<or> \<not> cpu_has_vmx_ept conf \<or> \<not> has_load_efer cap \<or>
      ie_bitmap_page E = 0 \<or> get_log2 (int (ie_possible E)) = - 1")
    case True
    then have "r = - EIO \<or> r = - ENOMEM" "vmx_enabled d' = vmx_enabled d" "vmxarea d' = vmxarea d"
        "cr4_vmxe d' = cr4_vmxe d" "vmxon d' = vmxon d"
      using run unfolding vmx_init_def c by (auto simp: Let_def apic_init_def split: if_split_asm)
    then show ?thesis using off by (auto simp: vmx_off_def same_cpus_def EIO_def ENOMEM_def)
  next
    case False
    define d0 where "d0 = d\<lparr>d_cap := cap, d_conf := conf, msr_bitmap := init_msr_bitmap, host_routing := replicate 128 (- 1),
      num_descs := ie_possible E, pv_flags := \<lambda>c. if c < ie_possible E then PV_IN_HOST else pv_flags d c\<rparr>"
    have d0: "vmx_enabled d0 = vmx_enabled d" "vmxarea d0 = vmxarea d" "cr4_vmxe d0 = cr4_vmxe d" "vmxon d0 = vmxon d"
      by (simp_all add: d0_def)
    obtain d2 where d2: "init_vapic E [0..<ie_possible E] d0 = Some d2"
      and t: "(case alloc_vmxon_areas E [0..<ie_possible E] (d2\<lparr>vpid_bitmap := (vpid_bitmap d2)(0 := True)\<rparr>) of
        (r1, d3) \<Rightarrow> Some (if r1 \<noteq> 0 then (r1, d3) else enable_all E d3)) = Some (r, d')"
      using run False unfolding vmx_init_def c
      by (auto simp: Let_def bind_Some_iff apic_init_def d0_def split: if_split_asm cong: if_cong)
    let ?d = "d2\<lparr>vpid_bitmap := (vpid_bitmap d2)(0 := True)\<rparr>"
    obtain r1 d3 where al: "alloc_vmxon_areas E [0..<ie_possible E] ?d = (r1, d3)" by (metis surj_pair)
    have s: "vmx_off ?d" "same_cpus d ?d" "\<forall>c. vmxon ?d c \<noteq> None \<longrightarrow> cr4_vmxe ?d c"
      using init_vapic_same [OF d2] d0 off on by (simp_all add: vmx_off_def same_cpus_def)
    show ?thesis
      using start_cpus_cases [OF al _ s(1,3) cpus, of r d'] t s(2) by (simp add: al same_cpus_def)
  qed
qed

lemma example_setup_features:
  "case setup_vmcs_config example_msrs (\<lambda>_. 0) (blank_capability, blank_config) of
     (r, cap, conf) \<Rightarrow> r = 0 \<and> cpu_has_vmx_vpid conf \<and> cpu_has_vmx_ept conf \<and> has_load_efer cap"
  by code_simp

lemma busy_driver_fails: "map_option fst (vmx_init example_init busy_driver) = Some (- 16)"
proof -
  obtain cap conf where c: "setup_vmcs_config example_msrs (\<lambda>_. 0) (blank_capability, blank_config) = (0, cap, conf)"
      "cpu_has_vmx_vpid conf" "cpu_has_vmx_ept conf" "has_load_efer cap"
    using example_setup_features by (auto split: prod.splits)
  have l: "get_log2 2 = 1" by code_simp
  have u: "[0..<2] = [0, 1 :: nat]" by code_simp
  show ?thesis
    by (simp add: vmx_init_def example_init_def busy_driver_def c l u apic_init_def Let_def enable_all_def
        vmx_enable_def vmx_enable_cpu_def EBUSY_def del: fun_upd_apply) (simp add: consts_def)
qed

theorem vmx_init_all_or_nothing_witness:
  "\<exists>d'. vmx_init example_init busy_driver = Some (- 16, d') \<and> vmx_off d' \<and> same_cpus busy_driver d'"
proof -
  obtain d' where r: "vmx_init example_init busy_driver = Some (- 16, d')"
    using busy_driver_fails by (cases "vmx_init example_init busy_driver") auto
  have "vmx_off busy_driver" "\<forall>c. vmxon busy_driver c \<noteq> None \<longrightarrow> cr4_vmxe busy_driver c"
      "distinct (ie_online example_init)" "set (ie_online example_init) \<subseteq> {..<ie_possible example_init}"
    by (auto simp: vmx_off_def busy_driver_def example_init_def)
  from vmx_init_all_or_nothing [OF r this] r show ?thesis by simp
qed

section \<open>The size of the shared regions\<close>

lemma get_log2_from_least:
  "order \<le> 30 \<Longrightarrow> n \<le> 2 ^ 30 \<Longrightarrow> \<forall>k < order. 2 ^ k < n \<Longrightarrow>
    \<exists>r. get_log2_from order n = int r \<and> r \<le> 30 \<and> n \<le> 2 ^ r \<and> (\<forall>k < r. 2 ^ k < n)"
proof (induction order n rule: get_log2_from.induct)
  case (1 order n)
  show ?case
  proof (cases "n \<le> 2 ^ order")
    case True
    then show ?thesis using 1(2,4) by (subst get_log2_from.simps) auto
  next
    case False
    then have "order \<noteq> 30" using 1(3) by auto
    then have "order + 1 \<le> 30" using 1(2) by simp
    moreover have "\<forall>k < order + 1. 2 ^ k < n" using 1(4) False by (auto simp: less_Suc_eq)
    ultimately have "\<exists>r. get_log2_from (order + 1) n = int r \<and> r \<le> 30 \<and> n \<le> 2 ^ r \<and> (\<forall>k < r. 2 ^ k < n)"
      using 1(1) [OF _ refl] 1(2,3) False by (simp add: not_le)
    moreover have "get_log2_from order n = get_log2_from (order + 1) n"
      using False 1(2) by (subst get_log2_from.simps) simp
    ultimately show ?thesis by simp
  qed
qed

text \<open>
  The order the driver allocates the descriptor and flag regions with is the least one whose region
  holds a page per core.
\<close>

lemma get_log2_least:
  assumes "0 < n" "n \<le> 2 ^ 30"
  shows "\<exists>r. get_log2 n = int r \<and> n \<le> 2 ^ r \<and> (\<forall>k < r. 2 ^ k < n)"
  using get_log2_from_least [of 0 n] assms by (auto simp: get_log2_def)

section \<open>Posting: lemmas\<close>

lemma host_wait_idle: "\<not> tst (icr (n + k)) APIC_ICR_BUSY \<Longrightarrow> host_wait_icr_idle icr n = Some ()"
proof (induction k arbitrary: n)
  case 0
  then show ?case by (subst host_wait_icr_idle.simps) simp
next
  case (Suc k)
  then show ?case using Suc.IH [of "n + 1"] by (subst host_wait_icr_idle.simps) simp
qed

text \<open>An APIC identifier without a route reads -1 from the table, which is no index of the descriptors.\<close>

lemma unrouted_out_of_bounds:
  assumes "apic < 128" "host_routing d ! unat apic = - 1" "num_descs d < 2 ^ 32"
  shows "send_posted_ipi x2apic icr apic vector d = None"
proof -
  have "unat (- 1 :: u32) = 2 ^ 32 - 1" by (simp add: unsigned_minus_1_eq_mask mask_eq_exp_minus_1)
  then show ?thesis
    using assms by (auto simp: send_posted_ipi_def apic_get_cpu_id_for_apic_def not_le [symmetric])
qed

lemma send_posted_routed:
  assumes "apic < 128" "host_routing d ! unat apic = int c" "c < num_descs d" "num_descs d < 2 ^ 32"
    and wf: "desc_wf (host_descs d c)" and n: "pi_notified (host_descs d c)" and idle: "\<not> tst (icr k) APIC_ICR_BUSY"
  shows "\<exists>d'. send_posted_ipi x2apic icr apic vector d = Some d' \<and>
    pi_requests (host_descs d' c) = insert (unat vector) (pi_requests (host_descs d c)) \<and>
    desc_wf (host_descs d' c) \<and> pi_on (host_descs d' c) \<and> (\<forall>c'. c' \<noteq> c \<longrightarrow> host_descs d' c' = host_descs d c') \<and>
    (apic_log d' = apic_log d \<longleftrightarrow> pi_on (host_descs d c))"
proof -
  have v: "unat vector < 256" using unat_less_exp [of vector] by simp
  have g: "\<not> apic \<ge> 128" using assms(1) by simp
  have u: "unat (word_of_int (int c) :: u32) = c" using assms(3,4) by (simp add: unat_of_nat_small)
  have w: "host_wait_icr_idle icr 0 = Some ()" using host_wait_idle [of icr 0 k] idle by simp
  have on: "unat vector \<in> pi_requests (host_descs d c) \<Longrightarrow> pi_on (host_descs d c)"
    using n by (auto simp: pi_notified_def)
  have old: "fst (test_and_set_bit (unat vector) (pi_vectors (host_descs d c))) \<longleftrightarrow> unat vector \<in> pi_requests (host_descs d c)"
    "fst (test_and_set_bit 0 (pi_extra (host_descs d c))) \<longleftrightarrow> pi_on (host_descs d c)"
    using v by (simp_all add: test_and_set_bit_def pi_requests_def pi_on_def)
  define d1 where "d1 = (host_descs d c)\<lparr>pi_vectors := snd (test_and_set_bit (unat vector) (pi_vectors (host_descs d c)))\<rparr>"
  define d2 where "d2 = d1\<lparr>pi_extra := snd (test_and_set_bit 0 (pi_extra d1))\<rparr>"
  have run: "send_posted_ipi x2apic icr apic vector d = (
      if unat vector \<in> pi_requests (host_descs d c) then Some (d\<lparr>host_descs := (host_descs d)(c := d1)\<rparr>)
      else if pi_on (host_descs d c) then Some (d\<lparr>host_descs := (host_descs d)(c := d2)\<rparr>)
      else host_apic_send_ipi x2apic icr (ucast POSTED_INTR_VECTOR) apic (d\<lparr>host_descs := (host_descs d)(c := d2)\<rparr>))"
    unfolding send_posted_ipi_def apic_get_cpu_id_for_apic_def Let_def split_beta
    using assms(2,3) g u old by (simp add: d1_def d2_def cong: if_cong)
  have snd: "\<exists>l. l \<noteq> [] \<and> host_apic_send_ipi x2apic icr w a e = Some (e\<lparr>apic_log := apic_log e @ l\<rparr>)" for w a e
    by (auto simp: host_apic_send_ipi_def apic_send_ipi_x_def apic_send_ipi_x2_def host_send_IPI_dest_field_def w Let_def)
  show ?thesis
    using requests_posted [OF wf, of vector, folded d1_def, folded d2_def] on
      snd [of "ucast POSTED_INTR_VECTOR" apic "d\<lparr>host_descs := (host_descs d)(c := d2)\<rparr>"]
    unfolding run by (cases "pi_on (host_descs d c)") auto
qed

end
