(* ===== verification/Spec2Isabelle.thy ===== *)
theory Spec2Isabelle
  imports Vm Apic Ipi_Ring Address_Map Ept Fast_Cow Entry Vmx_Control
begin

text \<open>
  A verification library for the Dune library operating system as it stands in this repository:
  the page-table library and its permission encodings (\<open>libdune/vm.c\<close>,
  \<open>libdune/mmu-x86.h\<close>).
\<close>

text \<open>
  C16: converting a permission word to entry flags and back loses nothing but the choice between
  the two big-page sizes, which the level of the entry decides.
\<close>

theorem perm_survives_pte:
  "pteflags_to_perm (get_pte_perm perm) level =
     (perm AND perm_recorded) OR
     (if tst perm PERM_BIG \<or> tst perm PERM_BIG_1GB
      then if level = 1 then PERM_BIG else if level = 2 then PERM_BIG_1GB else 0 else 0)"
  by (rule perm_pte_roundtrip)

end
